(* ===== verification/Prelude.thy ===== *)
theory Prelude
  imports Main "HOL-Library.AList" "HOL-Library.List_Lexorder" "HOL-Library.Char_ord"
    "HOL-Library.Product_Lexorder"
begin

text \<open>
  Shared vocabulary of the development: results with errors as values, sequencing and
  traversal of fallible computations, Python dictionaries as insertion-ordered association
  lists, and the generic list facts the component theories use.

  A Python call that may raise returns \<open>Inl\<close> of the error or \<open>Inr\<close> of the
  value; \<open>Err\<close> and \<open>Ok\<close> abbreviate the two. Strings are ordered by
  character code, as Python orders them, through the list order of the library.
\<close>

named_theorems eval_simps "unfoldings used by the executable witnesses"
named_theorems frame_simps "fields and tables an operation leaves unchanged"
named_theorems inv_intros "preservation of the component invariants"

section \<open>Results\<close>

abbreviation Ok :: "'a \<Rightarrow> 'e + 'a" where "Ok \<equiv> Inr"
abbreviation Err :: "'e \<Rightarrow> 'e + 'a" where "Err \<equiv> Inl"

definition rbind :: "'e + 'a \<Rightarrow> ('a \<Rightarrow> 'e + 'b) \<Rightarrow> 'e + 'b" where
  "rbind r k = (case r of Inl e \<Rightarrow> Inl e | Inr x \<Rightarrow> k x)"

lemma rbind_simps [simp]:
  "rbind (Inl e) k = Inl e"
  "rbind (Inr x) k = k x"
  by (simp_all add: rbind_def)

lemma rbind_eq_Inr: "rbind r k = Inr y \<longleftrightarrow> (\<exists>x. r = Inr x \<and> k x = Inr y)"
  by (cases r) simp_all

lemma rbind_eq_Inl:
  "rbind r k = Inl e \<longleftrightarrow> r = Inl e \<or> (\<exists>x. r = Inr x \<and> k x = Inl e)"
  by (cases r) auto

definition guard_err :: "bool \<Rightarrow> 'e \<Rightarrow> 'e + unit" where
  "guard_err b e = (if b then Inr () else Inl e)"

lemma guard_err_eq [simp]:
  "guard_err b e = Inr u \<longleftrightarrow> b"
  "guard_err b e = Inl d \<longleftrightarrow> \<not> b \<and> d = e"
  by (auto simp: guard_err_def)

definition of_opt :: "'e \<Rightarrow> 'a option \<Rightarrow> 'e + 'a" where
  "of_opt e v = (case v of None \<Rightarrow> Inl e | Some x \<Rightarrow> Inr x)"

lemma of_opt_eq [simp]:
  "of_opt e v = Inr x \<longleftrightarrow> v = Some x"
  "of_opt e v = Inl d \<longleftrightarrow> v = None \<and> d = e"
  by (auto simp: of_opt_def split: option.split)

definition is_ok :: "'e + 'a \<Rightarrow> bool" where
  "is_ok r = (case r of Inl _ \<Rightarrow> False | Inr _ \<Rightarrow> True)"

lemma is_ok_simps [simp]: "is_ok (Inr x)" "\<not> is_ok (Inl e)"
  by (simp_all add: is_ok_def)

lemma is_ok_iff: "is_ok r \<longleftrightarrow> (\<exists>x. r = Inr x)"
  by (cases r) simp_all

text \<open>A comprehension whose element expression may raise: the first error wins.\<close>

fun rmap :: "('a \<Rightarrow> 'e + 'b) \<Rightarrow> 'a list \<Rightarrow> 'e + 'b list" where
  "rmap f [] = Inr []"
| "rmap f (x # xs) = rbind (f x) (\<lambda>y. rbind (rmap f xs) (\<lambda>ys. Inr (y # ys)))"

lemma rmap_length: "rmap f xs = Inr ys \<Longrightarrow> length ys = length xs"
  by (induction xs arbitrary: ys) (auto simp: rbind_eq_Inr)

lemma rmap_nth: "rmap f xs = Inr ys \<Longrightarrow> i < length xs \<Longrightarrow> f (xs ! i) = Inr (ys ! i)"
proof (induction xs arbitrary: ys i)
  case (Cons x xs)
  then obtain y ys' where "f x = Inr y" "rmap f xs = Inr ys'" "ys = y # ys'"
    by (auto simp: rbind_eq_Inr)
  with Cons show ?case by (cases i) auto
qed simp

lemma rmap_set: "rmap f xs = Inr ys \<Longrightarrow> y \<in> set ys \<Longrightarrow> \<exists>x \<in> set xs. f x = Inr y"
  by (metis in_set_conv_nth rmap_length rmap_nth)

lemma rmap_total: "(\<And>x. x \<in> set xs \<Longrightarrow> f x = Inr (g x)) \<Longrightarrow> rmap f xs = Inr (map g xs)"
  by (induction xs) auto

text \<open>A loop over a list that threads a state and stops at the first error.\<close>

fun rfold :: "('s \<Rightarrow> 'a \<Rightarrow> 'e + 's) \<Rightarrow> 's \<Rightarrow> 'a list \<Rightarrow> 'e + 's" where
  "rfold f s [] = Inr s"
| "rfold f s (x # xs) = rbind (f s x) (\<lambda>s'. rfold f s' xs)"

lemma rfold_append: "rfold f s (xs @ ys) = rbind (rfold f s xs) (\<lambda>s'. rfold f s' ys)"
  by (induction xs arbitrary: s) (auto simp: rbind_def split: sum.splits)

lemma rfold_invariant:
  assumes "rfold f s xs = Inr s'" and "P s"
    and "\<And>s x s'. x \<in> set xs \<Longrightarrow> P s \<Longrightarrow> f s x = Inr s' \<Longrightarrow> P s'"
  shows "P s'"
  using assms
proof (induction xs arbitrary: s)
  case (Cons x xs)
  from Cons.prems(1) obtain t where t: "f s x = Inr t" "rfold f t xs = Inr s'"
    by (auto simp: rbind_eq_Inr)
  have "P t" using Cons.prems(2,3) t(1) by (meson list.set_intros(1))
  with Cons.IH [OF t(2)] Cons.prems(3) show ?case by (meson list.set_intros(2))
qed simp

section \<open>Effects\<close>

text \<open>
  Code that changes a state and may raise: the state reached is kept beside the result, so
  a change made before an exception is still there after it. \<open>transaction\<close> is a
  database transaction that is rolled back when its body raises, \<open>etry\<close> an
  exception handler.
\<close>

type_synonym ('s, 'e, 'a) eff = "'s \<Rightarrow> ('e + 'a) \<times> 's"

definition eret :: "'a \<Rightarrow> ('s, 'e, 'a) eff" where
  "eret x s = (Inr x, s)"

definition eraise :: "'e \<Rightarrow> ('s, 'e, 'a) eff" where
  "eraise e s = (Inl e, s)"

definition ebind :: "('s, 'e, 'a) eff \<Rightarrow> ('a \<Rightarrow> ('s, 'e, 'b) eff) \<Rightarrow> ('s, 'e, 'b) eff" where
  "ebind m k s = (case m s of (Inl e, t) \<Rightarrow> (Inl e, t) | (Inr x, t) \<Rightarrow> k x t)"

definition etry :: "('s, 'e, 'a) eff \<Rightarrow> ('e \<Rightarrow> ('s, 'e, 'a) eff) \<Rightarrow> ('s, 'e, 'a) eff" where
  "etry m h s = (case m s of (Inl e, t) \<Rightarrow> h e t | (Inr x, t) \<Rightarrow> (Inr x, t))"

definition transaction :: "('s, 'e, 'a) eff \<Rightarrow> ('s, 'e, 'a) eff" where
  "transaction m s = (case m s of (Inl e, t) \<Rightarrow> (Inl e, s) | (Inr x, t) \<Rightarrow> (Inr x, t))"

definition elift :: "'e + 'a \<Rightarrow> ('s, 'e, 'a) eff" where
  "elift r s = (r, s)"

definition eget :: "('s \<Rightarrow> 'a) \<Rightarrow> ('s, 'e, 'a) eff" where
  "eget f s = (Inr (f s), s)"

definition emodify :: "('s \<Rightarrow> 's) \<Rightarrow> ('s, 'e, unit) eff" where
  "emodify f s = (Inr (), f s)"

fun efor :: "'a list \<Rightarrow> ('a \<Rightarrow> ('s, 'e, unit) eff) \<Rightarrow> ('s, 'e, unit) eff" where
  "efor [] f = eret ()"
| "efor (x # xs) f = ebind (f x) (\<lambda>_. efor xs f)"

lemmas eff_defs =
  eret_def eraise_def ebind_def etry_def transaction_def elift_def eget_def emodify_def

lemma ebind_eq_Inr:
  "ebind m k s = (Inr y, u) \<longleftrightarrow> (\<exists>x t. m s = (Inr x, t) \<and> k x t = (Inr y, u))"
  by (auto simp: ebind_def split: prod.splits sum.splits)

lemma ebind_eq_Inl:
  "ebind m k s = (Inl e, u) \<longleftrightarrow>
     m s = (Inl e, u) \<or> (\<exists>x t. m s = (Inr x, t) \<and> k x t = (Inl e, u))"
  by (auto simp: ebind_def split: prod.splits sum.splits)

lemma transaction_Inl: "transaction m s = (Inl e, u) \<Longrightarrow> u = s"
  by (auto simp: transaction_def split: prod.splits sum.splits)

lemma transaction_Inr: "transaction m s = (Inr x, u) \<longleftrightarrow> m s = (Inr x, u)"
  by (auto simp: transaction_def split: prod.splits sum.splits)

text \<open>An operation keeps a property of the state whether or not it raises.\<close>

definition keeps :: "('s \<Rightarrow> bool) \<Rightarrow> ('s, 'e, 'a) eff \<Rightarrow> bool" where
  "keeps P m \<longleftrightarrow> (\<forall>s. P s \<longrightarrow> P (snd (m s)))"

lemma keepsD: "keeps P m \<Longrightarrow> P s \<Longrightarrow> m s = (r, t) \<Longrightarrow> P t"
  by (auto simp: keeps_def)

lemma keeps_snd: "keeps P m \<Longrightarrow> P s \<Longrightarrow> P (snd (m s))"
  by (simp add: keeps_def)

lemma keepsI: "(\<And>s r t. P s \<Longrightarrow> m s = (r, t) \<Longrightarrow> P t) \<Longrightarrow> keeps P m"
  unfolding keeps_def by (metis prod.collapse)

lemma keeps_eff [inv_intros]:
  "keeps P (eret x)" "keeps P (eraise e)" "keeps P (elift r)" "keeps P (eget f)"
  by (simp_all add: keeps_def eff_defs)

lemma keeps_ebind [inv_intros]: "keeps P m \<Longrightarrow> (\<And>x. keeps P (k x)) \<Longrightarrow> keeps P (ebind m k)"
  by (auto simp: keeps_def ebind_def split: prod.splits sum.splits)

lemma keeps_etry [inv_intros]: "keeps P m \<Longrightarrow> (\<And>e. keeps P (h e)) \<Longrightarrow> keeps P (etry m h)"
  by (auto simp: keeps_def etry_def split: prod.splits sum.splits)

lemma keeps_transaction [inv_intros]: "keeps P m \<Longrightarrow> keeps P (transaction m)"
  by (auto simp: keeps_def transaction_def split: prod.splits sum.splits)

lemma keeps_emodify [inv_intros]: "(\<And>s. P s \<Longrightarrow> P (f s)) \<Longrightarrow> keeps P (emodify f)"
  by (simp add: keeps_def emodify_def)

lemma keeps_efor [inv_intros]: "(\<And>x. x \<in> set xs \<Longrightarrow> keeps P (f x)) \<Longrightarrow> keeps P (efor xs f)"
  by (induction xs) (auto intro!: keeps_eff keeps_ebind)

section \<open>Dictionaries\<close>

text \<open>
  A Python dictionary keeps the position of a key's first insertion; assignment to a
  present key replaces its value in place. This is \<open>AList.update\<close>.
\<close>

type_synonym ('k, 'v) dict = "('k \<times> 'v) list"

abbreviation dict_set :: "'k \<Rightarrow> 'v \<Rightarrow> ('k, 'v) dict \<Rightarrow> ('k, 'v) dict" where
  "dict_set \<equiv> AList.update"

definition dict_get_or :: "('k, 'v) dict \<Rightarrow> 'k \<Rightarrow> 'v \<Rightarrow> 'v" where
  "dict_get_or d k v = (case map_of d k of None \<Rightarrow> v | Some x \<Rightarrow> x)"

fun dict_update :: "('k, 'v) dict \<Rightarrow> ('k, 'v) dict \<Rightarrow> ('k, 'v) dict" where
  "dict_update d [] = d"
| "dict_update d ((k, v) # kvs) = dict_update (dict_set k v d) kvs"

definition dict_of_pairs :: "('k \<times> 'v) list \<Rightarrow> ('k, 'v) dict" where
  "dict_of_pairs kvs = dict_update [] kvs"

lemma map_of_dict_update:
  "map_of (dict_update d kvs) k = (case map_of (rev kvs) k of None \<Rightarrow> map_of d k | Some v \<Rightarrow> Some v)"
  by (induction d kvs rule: dict_update.induct)
    (auto simp: update_conv' map_add_def split: option.splits)

lemma distinct_dict_update:
  "distinct (map fst d) \<Longrightarrow> distinct (map fst (dict_update d kvs))"
  by (induction d kvs rule: dict_update.induct) (auto simp: distinct_update)

lemma map_of_distinct_rev: "distinct (map fst kvs) \<Longrightarrow> map_of (rev kvs) = map_of kvs"
  by (metis distinct_map distinct_rev map_of_inject_set rev_map set_rev)

lemma map_of_dict_update_distinct:
  "distinct (map fst kvs) \<Longrightarrow>
   map_of (dict_update d kvs) k = (case map_of kvs k of None \<Rightarrow> map_of d k | Some v \<Rightarrow> Some v)"
  by (simp add: map_of_dict_update map_of_distinct_rev)

section \<open>Lists\<close>

definition first_opt :: "'a list \<Rightarrow> 'a option" where
  "first_opt xs = (case xs of [] \<Rightarrow> None | x # _ \<Rightarrow> Some x)"

lemma first_opt_simps [simp]: "first_opt [] = None" "first_opt (x # xs) = Some x"
  by (simp_all add: first_opt_def)

lemma first_opt_Some_in: "first_opt xs = Some x \<Longrightarrow> x \<in> set xs"
  by (cases xs) auto

lemma first_opt_None [simp]: "first_opt xs = None \<longleftrightarrow> xs = []"
  by (cases xs) auto

definition enumerate_from :: "nat \<Rightarrow> 'a list \<Rightarrow> (nat \<times> 'a) list" where
  "enumerate_from n xs = zip [n ..< n + length xs] xs"

lemma enumerate_from_simps [simp]:
  "enumerate_from n [] = []"
  "enumerate_from n (x # xs) = (n, x) # enumerate_from (Suc n) xs"
  by (simp_all add: enumerate_from_def upt_conv_Cons del: upt_Suc)

lemma map_fst_enumerate_from [simp]: "map fst (enumerate_from n xs) = [n ..< n + length xs]"
  by (simp add: enumerate_from_def)

lemma map_snd_enumerate_from [simp]: "map snd (enumerate_from n xs) = xs"
  by (simp add: enumerate_from_def)

lemma length_enumerate_from [simp]: "length (enumerate_from n xs) = length xs"
  by (simp add: enumerate_from_def)

lemma enumerate_from_append:
  "enumerate_from n (xs @ ys) = enumerate_from n xs @ enumerate_from (n + length xs) ys"
  by (induction xs arbitrary: n) auto

lemma filter_set_eq: "set xs = set ys \<Longrightarrow> set (filter P xs) = set (filter P ys)"
  by auto

text \<open>Distinct values in ascending order: Python's \<open>sorted(set(xs))\<close>.\<close>

definition sorted_set :: "'a::linorder list \<Rightarrow> 'a list" where
  "sorted_set xs = sort (remdups xs)"

lemma sorted_set_simps [simp]:
  "set (sorted_set xs) = set xs" "sorted (sorted_set xs)" "distinct (sorted_set xs)"
  by (simp_all add: sorted_set_def)

lemma sorted_set_cong: "set xs = set ys \<Longrightarrow> sorted_set xs = sorted_set ys"
  by (metis sorted_distinct_set_unique sorted_set_simps)

lemma sorted_set_Nil [simp]: "sorted_set xs = [] \<longleftrightarrow> xs = []"
  by (metis set_empty sorted_set_simps(1))

text \<open>A keyed insert that keeps what is there: SQL's \<open>ON CONFLICT DO NOTHING\<close>.\<close>

definition insert_or_ignore :: "('r \<Rightarrow> 'k) \<Rightarrow> 'r \<Rightarrow> 'r list \<Rightarrow> 'r list" where
  "insert_or_ignore key r tbl = (if key r \<in> set (map key tbl) then tbl else tbl @ [r])"

definition lookup_by :: "('r \<Rightarrow> 'k) \<Rightarrow> 'k \<Rightarrow> 'r list \<Rightarrow> 'r option" where
  "lookup_by key k tbl = first_opt (filter (\<lambda>r. key r = k) tbl)"

lemma lookup_by_None: "lookup_by key k tbl = None \<longleftrightarrow> k \<notin> key ` set tbl"
  by (auto simp: lookup_by_def filter_empty_conv)

lemma lookup_by_Some: "lookup_by key k tbl = Some r \<Longrightarrow> r \<in> set tbl \<and> key r = k"
  by (auto simp: lookup_by_def dest!: first_opt_Some_in)

lemma lookup_by_unique:
  "distinct (map key tbl) \<Longrightarrow> r \<in> set tbl \<Longrightarrow> lookup_by key (key r) tbl = Some r"
  by (induction tbl) (auto simp: lookup_by_def)

lemma lookup_by_append:
  "lookup_by key k (xs @ ys) =
     (case lookup_by key k xs of None \<Rightarrow> lookup_by key k ys | Some r \<Rightarrow> Some r)"
  by (simp add: lookup_by_def first_opt_def split: list.splits)

lemma lookup_by_singleton: "lookup_by key k [r] = (if k = key r then Some r else None)"
  by (auto simp: lookup_by_def)

lemma lookup_by_map:
  assumes "\<And>r. key (f r) = key r"
  shows "lookup_by key k (map f tbl) = map_option f (lookup_by key k tbl)"
  by (induction tbl) (auto simp: lookup_by_def assms)

lemma lookup_by_filter:
  "(\<And>r. key r = k \<Longrightarrow> P r) \<Longrightarrow> lookup_by key k (filter P tbl) = lookup_by key k tbl"
  by (induction tbl) (auto simp: lookup_by_def)

lemma lookup_insert_or_ignore:
  "lookup_by key k (insert_or_ignore key r tbl) =
     (case lookup_by key k tbl of
        Some r' \<Rightarrow> Some r'
      | None \<Rightarrow> if k = key r then Some r else None)"
proof (cases "key r \<in> key ` set tbl")
  case True
  then show ?thesis
    by (auto simp: insert_or_ignore_def lookup_by_None split: option.splits)
next
  case False
  then show ?thesis
    by (simp add: insert_or_ignore_def lookup_by_append lookup_by_singleton split: option.splits)
qed

lemma distinct_insert_or_ignore:
  "distinct (map key tbl) \<Longrightarrow> distinct (map key (insert_or_ignore key r tbl))"
  by (simp add: insert_or_ignore_def)

lemma set_insert_or_ignore:
  "set (insert_or_ignore key r tbl) \<subseteq> insert r (set tbl)"
  by (auto simp: insert_or_ignore_def)

lemma keys_insert_or_ignore:
  "key ` set (insert_or_ignore key r tbl) = insert (key r) (key ` set tbl)"
  by (auto simp: insert_or_ignore_def)

lemma insert_or_ignore_idem:
  "insert_or_ignore key r (insert_or_ignore key r tbl) = insert_or_ignore key r tbl"
  by (simp add: insert_or_ignore_def)

lemmas insert_or_ignore_facts =
  lookup_insert_or_ignore distinct_insert_or_ignore keys_insert_or_ignore insert_or_ignore_idem

end
