(* ===== verification/PyStr.thy ===== *)
theory PyStr
  imports Prelude "HOL-Library.Sublist"
begin

text \<open>
  The operations of Python's \<open>str\<close> that the program calls, on lists of characters.
  A character is one of the 128 ASCII code points: the case mappings and the white space
  of other code points are not modelled. Decimal rendering and \<open>int(text)\<close> are
  written out, with white space, sign and underscore rules of the latter.
\<close>

section \<open>Characters\<close>

definition chr_between :: "nat \<Rightarrow> char \<Rightarrow> nat \<Rightarrow> bool" where
  "chr_between lo c hi \<longleftrightarrow> lo \<le> of_char c \<and> of_char c \<le> hi"

definition is_space :: "char \<Rightarrow> bool" where
  "is_space c \<longleftrightarrow> chr_between 9 c 13 \<or> chr_between 28 c 32"

definition is_digit :: "char \<Rightarrow> bool" where
  "is_digit c \<longleftrightarrow> chr_between 48 c 57"

definition digit_val :: "char \<Rightarrow> nat" where
  "digit_val c = of_char c - 48"

definition digit_char :: "nat \<Rightarrow> char" where
  "digit_char n = char_of (48 + n)"

definition upper_char :: "char \<Rightarrow> char" where
  "upper_char c = (if chr_between 97 c 122 then char_of (of_char c - 32 :: nat) else c)"

definition lower_char :: "char \<Rightarrow> char" where
  "lower_char c = (if chr_between 65 c 90 then char_of (of_char c + 32 :: nat) else c)"

definition str_upper :: "string \<Rightarrow> string" where
  "str_upper s = map upper_char s"

definition str_lower :: "string \<Rightarrow> string" where
  "str_lower s = map lower_char s"

lemma digit_char_inverse: "n < 10 \<Longrightarrow> is_digit (digit_char n) \<and> digit_val (digit_char n) = n"
  by (simp add: digit_char_def is_digit_def digit_val_def chr_between_def)

lemma digit_char_not_space: "n < 10 \<Longrightarrow> \<not> is_space (digit_char n)"
  by (simp add: digit_char_def is_space_def chr_between_def)

lemma digit_not_space: "is_digit c \<Longrightarrow> \<not> is_space c"
  by (simp add: is_digit_def is_space_def chr_between_def)

lemma is_digit_imp: "is_digit c \<Longrightarrow> c \<noteq> CHR ''-'' \<and> c \<noteq> CHR ''+'' \<and> c \<noteq> CHR ''_''"
  by (auto simp: is_digit_def chr_between_def)

lemma digit_chars: "is_digit c \<longleftrightarrow> c \<in> set ''0123456789''"
proof
  assume "is_digit c"
  then have "(of_char c :: nat) \<in> {48..<58}" by (simp add: is_digit_def chr_between_def)
  then have "(of_char c :: nat) \<in> set [48..<58]" by (simp only: set_upt)
  then have "char_of (of_char c :: nat) \<in> set (map (char_of :: nat \<Rightarrow> char) [48..<58])" by (simp only: set_map) (rule imageI)
  moreover have "map (char_of :: nat \<Rightarrow> char) [48..<58] = ''0123456789''" by code_simp
  ultimately show "c \<in> set ''0123456789''" by (simp only: char_of_char)
qed (auto simp: is_digit_def chr_between_def)

lemma lower_char_idem [simp]: "lower_char (lower_char c) = lower_char c"
  by (simp add: lower_char_def chr_between_def)

lemma str_lower_idem [simp]: "str_lower (str_lower s) = str_lower s"
  by (simp add: str_lower_def)

lemma length_str_lower [simp]: "length (str_lower s) = length s"
  by (simp add: str_lower_def)

section \<open>Prefixes, searching and splitting\<close>

definition starts_with :: "string \<Rightarrow> string \<Rightarrow> bool" where
  "starts_with s p \<longleftrightarrow> take (length p) s = p"

definition ends_with :: "string \<Rightarrow> string \<Rightarrow> bool" where
  "ends_with s p \<longleftrightarrow> length p \<le> length s \<and> drop (length s - length p) s = p"

definition remove_prefix :: "string \<Rightarrow> string \<Rightarrow> string" where
  "remove_prefix s p = (if starts_with s p then drop (length p) s else s)"

lemma starts_with_append [simp]: "starts_with (p @ s) p"
  by (simp add: starts_with_def)

lemma remove_prefix_append [simp]: "remove_prefix (p @ s) p = s"
  by (simp add: remove_prefix_def)

lemma starts_with_iff: "starts_with s p \<longleftrightarrow> (\<exists>t. s = p @ t)"
  by (metis append_take_drop_id starts_with_append starts_with_def)

text \<open>\<open>strip()\<close> removes white space at both ends.\<close>

definition lstrip :: "string \<Rightarrow> string" where
  "lstrip s = dropWhile is_space s"

definition strip :: "string \<Rightarrow> string" where
  "strip s = rev (lstrip (rev (lstrip s)))"

lemma strip_digits: "s \<noteq> [] \<Longrightarrow> \<not> is_space (hd s) \<Longrightarrow> \<not> is_space (last s) \<Longrightarrow> strip s = s"
proof -
  assume a: "s \<noteq> []" "\<not> is_space (hd s)" "\<not> is_space (last s)"
  have "dropWhile is_space s = s" using a by (cases s) auto
  moreover have "dropWhile is_space (rev s) = rev s"
    using a by (cases "rev s") (auto simp: hd_rev [symmetric])
  ultimately show ?thesis by (simp add: strip_def lstrip_def)
qed

text \<open>\<open>s.partition(c)\<close>: the text before the first separator, whether it occurs, the rest.\<close>

definition partition_chr :: "char \<Rightarrow> string \<Rightarrow> string \<times> bool \<times> string" where
  "partition_chr c s =
     (let a = takeWhile (\<lambda>x. x \<noteq> c) s; b = dropWhile (\<lambda>x. x \<noteq> c) s
      in (a, b \<noteq> [], tl b))"

text \<open>\<open>s.rpartition(c)\<close>: splits at the last separator; without one, all text is the tail.\<close>

definition rpartition_chr :: "char \<Rightarrow> string \<Rightarrow> string \<times> bool \<times> string" where
  "rpartition_chr c s =
     (let tail = rev (takeWhile (\<lambda>x. x \<noteq> c) (rev s));
          front = rev (dropWhile (\<lambda>x. x \<noteq> c) (rev s))
      in (butlast front, front \<noteq> [], tail))"

lemma rpartition_chr_join:
  "c \<notin> set t \<Longrightarrow> rpartition_chr c (s @ c # t) = (s, True, t)"
proof -
  assume "c \<notin> set t"
  then have "takeWhile (\<lambda>x. x \<noteq> c) (rev t @ c # rev s) = rev t"
    and "dropWhile (\<lambda>x. x \<noteq> c) (rev t @ c # rev s) = c # rev s"
    by (subst takeWhile_append2 dropWhile_append2; force)+
  then show ?thesis by (simp add: rpartition_chr_def)
qed

text \<open>\<open>s.split(c)\<close> on a one-character separator: always at least one part.\<close>

fun split_chr :: "char \<Rightarrow> string \<Rightarrow> string list" where
  "split_chr c [] = [[]]"
| "split_chr c (x # xs) =
     (if x = c then [] # split_chr c xs
      else case split_chr c xs of [] \<Rightarrow> [[x]] | p # ps \<Rightarrow> (x # p) # ps)"

lemma split_chr_not_Nil [simp]: "split_chr c s \<noteq> []"
  by (induction s) (auto split: list.splits)

fun join_with :: "string \<Rightarrow> string list \<Rightarrow> string" where
  "join_with sep [] = []"
| "join_with sep [s] = s"
| "join_with sep (s # ss) = s @ sep @ join_with sep ss"

lemma join_split_chr: "join_with [c] (split_chr c s) = s"
proof (induction s)
  case (Cons x xs)
  obtain p ps where ps: "split_chr c xs = p # ps"
    by (metis neq_Nil_conv split_chr_not_Nil)
  with Cons show ?case by (cases ps) auto
qed simp

definition replace_chr :: "char \<Rightarrow> string \<Rightarrow> string \<Rightarrow> string" where
  "replace_chr c r s = concat (map (\<lambda>x. if x = c then r else [x]) s)"

section \<open>Decimal numbers\<close>

fun nat_digits :: "nat \<Rightarrow> string" where
  "nat_digits n = (if n < 10 then [digit_char n] else nat_digits (n div 10) @ [digit_char (n mod 10)])"

declare nat_digits.simps [simp del]

definition int_str :: "int \<Rightarrow> string" where
  "int_str i = (if i < 0 then CHR ''-'' # nat_digits (nat (- i)) else nat_digits (nat i))"

text \<open>\<open>f"{n:0wd}"\<close> pads with zeros to width \<open>w\<close>, after the sign.\<close>

definition zero_pad :: "nat \<Rightarrow> int \<Rightarrow> string" where
  "zero_pad w i =
     (if i < 0
      then CHR ''-'' # replicate (w - 1 - length (nat_digits (nat (- i)))) (CHR ''0'') @ nat_digits (nat (- i))
      else replicate (w - length (nat_digits (nat i))) (CHR ''0'') @ nat_digits (nat i))"

definition digits_val :: "string \<Rightarrow> nat" where
  "digits_val s = foldl (\<lambda>a c. 10 * a + digit_val c) 0 s"

definition is_decimal :: "string \<Rightarrow> bool" where
  "is_decimal s \<longleftrightarrow> s \<noteq> [] \<and> list_all is_digit s"

lemma nat_digits_not_Nil [simp]: "nat_digits n \<noteq> []"
  by (subst nat_digits.simps) simp

lemma nat_digits_all: "list_all is_digit (nat_digits n)"
proof (induction n rule: nat_digits.induct)
  case (1 n)
  then show ?case
    by (subst nat_digits.simps) (simp add: digit_char_inverse)
qed

lemma digits_val_snoc [simp]: "digits_val (s @ [c]) = 10 * digits_val s + digit_val c"
  by (simp add: digits_val_def)

lemma digits_val_nat_digits [simp]: "digits_val (nat_digits n) = n"
proof (induction n rule: nat_digits.induct)
  case (1 n)
  show ?case
  proof (cases "n < 10")
    case True
    then show ?thesis
      by (subst nat_digits.simps) (simp add: digits_val_def digit_char_inverse)
  next
    case False
    with 1 show ?thesis
      by (subst nat_digits.simps) (simp add: digit_char_inverse)
  qed
qed

lemma is_decimal_nat_digits [simp]: "is_decimal (nat_digits n)"
  by (simp add: is_decimal_def nat_digits_all)

lemma digits_val_zeros: "digits_val (replicate k (CHR ''0'') @ s) = digits_val s"
proof (induction k)
  case (Suc k)
  have "digits_val (CHR ''0'' # t) = digits_val t" for t
    by (simp add: digits_val_def digit_val_def)
  with Suc show ?case by simp
qed simp

lemma nat_digits_length_le: "n < 10 ^ w \<Longrightarrow> 0 < w \<Longrightarrow> length (nat_digits n) \<le> w"
proof (induction w arbitrary: n)
  case (Suc w)
  show ?case
  proof (cases "n < 10")
    case True
    then show ?thesis by (subst nat_digits.simps) simp
  next
    case False
    have "n div 10 < 10 ^ w" using Suc.prems by (simp add: less_mult_imp_div_less mult.commute)
    moreover have "0 < w" using False Suc.prems by (cases w) auto
    ultimately have "length (nat_digits (n div 10)) \<le> w" by (rule Suc.IH)
    with False show ?thesis by (subst nat_digits.simps) simp
  qed
qed simp

lemma zero_pad_nat:
  assumes "0 \<le> i" "i < 10 ^ w" "0 < w"
  shows "length (zero_pad w i) = w" "list_all is_digit (zero_pad w i)" "digits_val (zero_pad w i) = nat i"
proof -
  have "nat i < 10 ^ w" using assms by (simp add: nat_less_iff)
  then have "length (nat_digits (nat i)) \<le> w" using assms(3) by (rule nat_digits_length_le)
  then show "length (zero_pad w i) = w" using assms(1) by (simp add: zero_pad_def)
  show "list_all is_digit (zero_pad w i)"
    using assms(1) nat_digits_all by (auto simp: zero_pad_def list_all_iff is_digit_def chr_between_def)
  show "digits_val (zero_pad w i) = nat i"
    using assms(1) by (simp add: zero_pad_def digits_val_zeros)
qed

lemma nat_digits_inj: "nat_digits m = nat_digits n \<Longrightarrow> m = n"
  by (metis digits_val_nat_digits)

text \<open>
  \<open>int(text)\<close>: white space around, one sign, and digits in which single underscores may
  separate two digits; \<open>None\<close> is the \<open>ValueError\<close>.
\<close>

fun underscores_ok :: "bool \<Rightarrow> string \<Rightarrow> bool" where
  "underscores_ok prev_digit [] = prev_digit"
| "underscores_ok prev_digit (c # cs) =
     (if is_digit c then underscores_ok True cs
      else c = CHR ''_'' \<and> prev_digit \<and> underscores_ok False cs)"

definition parse_digits :: "string \<Rightarrow> nat option" where
  "parse_digits s = (if underscores_ok False s then Some (digits_val (filter is_digit s)) else None)"

definition py_int :: "string \<Rightarrow> int option" where
  "py_int s =
     (case strip s of
        [] \<Rightarrow> None
      | c # cs \<Rightarrow>
          if c = CHR ''-'' then map_option (\<lambda>n. - int n) (parse_digits cs)
          else if c = CHR ''+'' then map_option int (parse_digits cs)
          else map_option int (parse_digits (c # cs)))"

lemma underscores_ok_digits: "list_all is_digit s \<Longrightarrow> underscores_ok b s = (b \<or> s \<noteq> [])"
  by (induction s arbitrary: b) auto

lemma parse_digits_decimal: "is_decimal s \<Longrightarrow> parse_digits s = Some (digits_val s)"
  by (auto simp: parse_digits_def is_decimal_def underscores_ok_digits list_all_iff filter_id_conv)

lemma py_int_decimal: "is_decimal s \<Longrightarrow> py_int s = Some (int (digits_val s))"
proof -
  assume d: "is_decimal s"
  then obtain c cs where s: "s = c # cs" and c: "is_digit c"
    by (cases s) (auto simp: is_decimal_def)
  have "strip s = s"
    using d by (intro strip_digits) (auto simp: is_decimal_def list_all_iff digit_not_space)
  then show ?thesis
    using s c is_digit_imp [OF c] parse_digits_decimal [OF d] by (simp add: py_int_def)
qed

lemma py_int_nat_digits [simp]: "py_int (nat_digits n) = Some (int n)"
  by (simp add: py_int_decimal)

lemma py_int_int_str [simp]: "py_int (int_str i) = Some i"
proof (cases "i < 0")
  case True
  have "strip (CHR ''-'' # nat_digits (nat (- i))) = CHR ''-'' # nat_digits (nat (- i))"
  proof (intro strip_digits)
    have "is_digit (last (nat_digits (nat (- i))))"
      using nat_digits_all [of "nat (- i)"] by (simp add: list_all_iff)
    then show "\<not> is_space (last (CHR ''-'' # nat_digits (nat (- i))))"
      by (simp add: digit_not_space)
  qed (simp_all add: is_space_def chr_between_def)
  with True show ?thesis
    by (simp add: int_str_def py_int_def parse_digits_decimal)
next
  case False
  then show ?thesis by (simp add: int_str_def)
qed

lemma int_str_inj: "int_str i = int_str j \<longleftrightarrow> i = j"
  by (metis option.inject py_int_int_str)

section \<open>Quoting\<close>

text \<open>SQL identifiers in double quotes and literals in single quotes, the quote doubled inside.\<close>

definition double_in :: "char \<Rightarrow> string \<Rightarrow> string" where
  "double_in q s = replace_chr q [q, q] s"

fun undouble :: "char \<Rightarrow> string \<Rightarrow> string" where
  "undouble q [] = []"
| "undouble q [x] = [x]"
| "undouble q (x # y # s) = (if x = q \<and> y = q then q # undouble q s else x # undouble q (y # s))"

lemma double_in_simps [simp]:
  "double_in q [] = []"
  "double_in q (x # s) = (if x = q then q # q # double_in q s else x # double_in q s)"
  by (simp_all add: double_in_def replace_chr_def)

lemma undouble_double_in: "undouble q (double_in q s) = s"
proof (induction s)
  case (Cons x s)
  show ?case
  proof (cases "x = q")
    case True
    with Cons show ?thesis by simp
  next
    case False
    with Cons show ?thesis by (cases "double_in q s") auto
  qed
qed simp

lemma double_in_inj: "double_in q s = double_in q t \<longleftrightarrow> s = t"
  by (metis undouble_double_in)

end
