(* ===== verification/Jobs.thy ===== *)
theory Jobs
  imports PyStr
begin

text \<open>
  The Bulk API job state model of \<open>fakeforce/bulk/jobs.py\<close>: the two enumerations,
  the job record, the table of allowed transitions and \<open>validate_transition\<close>. The
  transition relation is also given as an inductive step relation, with its reachable
  states, and related to the table.
\<close>

type_synonym timestamp = int \<comment> \<open>microseconds\<close>

datatype bulk_job_type = QUERY | INGEST

datatype bulk_job_state = OPEN | UPLOAD_COMPLETE | IN_PROGRESS | JOB_COMPLETE | FAILED | ABORTED

definition job_state_value :: "bulk_job_state \<Rightarrow> string" where
  "job_state_value st =
     (case st of OPEN \<Rightarrow> ''Open'' | UPLOAD_COMPLETE \<Rightarrow> ''UploadComplete''
      | IN_PROGRESS \<Rightarrow> ''InProgress'' | JOB_COMPLETE \<Rightarrow> ''JobComplete''
      | FAILED \<Rightarrow> ''Failed'' | ABORTED \<Rightarrow> ''Aborted'')"

definition job_type_value :: "bulk_job_type \<Rightarrow> string" where
  "job_type_value t = (case t of QUERY \<Rightarrow> ''query'' | INGEST \<Rightarrow> ''ingest'')"

definition all_job_states :: "bulk_job_state list" where
  "all_job_states = [OPEN, UPLOAD_COMPLETE, IN_PROGRESS, JOB_COMPLETE, FAILED, ABORTED]"

text \<open>\<open>BulkJobState(text)\<close>; \<open>None\<close> is the \<open>ValueError\<close>.\<close>

definition parse_job_state :: "string \<Rightarrow> bulk_job_state option" where
  "parse_job_state s = first_opt (filter (\<lambda>st. job_state_value st = s) all_job_states)"

lemma parse_job_state_value [simp]: "parse_job_state (job_state_value st) = Some st"
  by (cases st) (simp_all add: parse_job_state_def all_job_states_def job_state_value_def)

lemma job_state_value_inj [simp]: "job_state_value a = job_state_value b \<longleftrightarrow> a = b"
  by (metis option.inject parse_job_state_value)

record bulk_job =
  bj_id :: string
  bj_type :: bulk_job_type
  bj_api_version :: string
  bj_state :: bulk_job_state
  bj_object_name :: "string option"
  bj_operation :: "string option"
  bj_query_text :: "string option"
  bj_snapshot_id :: "string option"
  bj_error_code :: "string option"
  bj_error_message :: "string option"
  bj_expires_at :: "timestamp option"
  bj_options :: "(string, string) dict"

fun allowed_transitions :: "bulk_job_state \<Rightarrow> bulk_job_state list" where
  "allowed_transitions OPEN = [UPLOAD_COMPLETE, ABORTED]"
| "allowed_transitions UPLOAD_COMPLETE = [IN_PROGRESS, ABORTED]"
| "allowed_transitions IN_PROGRESS = [JOB_COMPLETE, FAILED, ABORTED]"
| "allowed_transitions JOB_COMPLETE = []"
| "allowed_transitions FAILED = []"
| "allowed_transitions ABORTED = []"

datatype invalid_job_transition = InvalidJobTransition bulk_job_state bulk_job_state

definition validate_transition ::
  "bulk_job_state \<Rightarrow> bulk_job_state \<Rightarrow> invalid_job_transition + unit" where
  "validate_transition current next_state =
     (if next_state \<notin> set (allowed_transitions current)
      then Err (InvalidJobTransition current next_state) else Ok ())"

section \<open>The step relation\<close>

inductive job_step :: "bulk_job_state \<Rightarrow> bulk_job_state \<Rightarrow> bool" where
  upload: "job_step OPEN UPLOAD_COMPLETE"
| start: "job_step UPLOAD_COMPLETE IN_PROGRESS"
| finish: "job_step IN_PROGRESS JOB_COMPLETE"
| fail: "job_step IN_PROGRESS FAILED"
| abort: "st \<in> {OPEN, UPLOAD_COMPLETE, IN_PROGRESS} \<Longrightarrow> job_step st ABORTED"

inductive_cases job_step_fromE: "job_step st st'"
inductive_simps job_step_iff: "job_step st st'"

definition terminal_state :: "bulk_job_state \<Rightarrow> bool" where
  "terminal_state st \<longleftrightarrow> st \<in> {JOB_COMPLETE, FAILED, ABORTED}"

lemma validate_transition_iff: "validate_transition st st' = Ok () \<longleftrightarrow> job_step st st'"
  by (cases st; cases st') (simp_all add: validate_transition_def job_step_iff)

lemma validate_transition_err:
  "validate_transition st st' = Err e \<longleftrightarrow> \<not> job_step st st' \<and> e = InvalidJobTransition st st'"
  by (cases st; cases st') (auto simp add: validate_transition_def job_step_iff)

lemma terminal_no_step: "terminal_state st \<Longrightarrow> \<not> job_step st st'"
  by (auto simp: terminal_state_def elim: job_step_fromE)

lemma not_terminal_step: "\<not> terminal_state st \<Longrightarrow> job_step st ABORTED"
  by (cases st) (auto simp: terminal_state_def job_step_iff)

lemma job_step_irrefl: "\<not> job_step st st"
  by (cases st) (simp_all add: job_step_iff)

fun job_progress :: "bulk_job_state \<Rightarrow> nat" where
  "job_progress OPEN = 0"
| "job_progress UPLOAD_COMPLETE = 1"
| "job_progress IN_PROGRESS = 2"
| "job_progress _ = 3"

lemma job_step_progress: "job_step st st' \<Longrightarrow> job_progress st < job_progress st'"
  by (erule job_step_fromE) auto

lemma job_steps_progress: "job_step\<^sup>*\<^sup>* st st' \<Longrightarrow> st \<noteq> st' \<Longrightarrow> job_progress st < job_progress st'"
  by (induction rule: rtranclp_induct) (auto dest: job_step_progress order.strict_trans)

lemma terminal_steps: "job_step\<^sup>*\<^sup>* st st' \<Longrightarrow> terminal_state st \<Longrightarrow> st' = st"
  by (induction rule: converse_rtranclp_induct) (auto dest: terminal_no_step)

lemma job_chain_bound: "(job_step ^^ n) st st' \<Longrightarrow> job_progress st + n \<le> job_progress st'"
  by (induction n arbitrary: st') (fastforce dest: job_step_progress)+

lemma job_progress_le: "job_progress st \<le> 3"
  by (cases st) simp_all

end
