(* ===== verification/Csv.thy ===== *)
theory Csv
  imports PyStr
begin

text \<open>
  The CSV dialect the program uses (Python's \<open>csv\<close> with its default \<open>excel\<close>
  dialect): \<open>csv_row\<close> renders one record as \<open>writer.writerow\<close> does,
  \<open>csv_read\<close> is the character-level state machine of \<open>csv.reader\<close> over a
  file opened with \<open>newline=""\<close>. Reading what was written gives the records back.
\<close>

abbreviation CR :: char where "CR \<equiv> CHR 0x0D"
abbreviation LF :: char where "LF \<equiv> CHR 0x0A"
abbreviation DQ :: char where "DQ \<equiv> CHR 0x22"
abbreviation COMMA :: char where "COMMA \<equiv> CHR '',''"

section \<open>Writing\<close>

definition needs_quotes :: "string \<Rightarrow> bool" where
  "needs_quotes f \<longleftrightarrow> list_ex (\<lambda>c. c = COMMA \<or> c = DQ \<or> c = CR \<or> c = LF) f"

definition csv_field :: "string \<Rightarrow> string" where
  "csv_field f = (if needs_quotes f then DQ # double_in DQ f @ [DQ] else f)"

fun csv_join :: "string list \<Rightarrow> string" where
  "csv_join [] = []"
| "csv_join [f] = csv_field f"
| "csv_join (f # fs) = csv_field f @ COMMA # csv_join fs"

definition csv_row :: "string list \<Rightarrow> string" where
  "csv_row fs = (if fs = [[]] then [DQ, DQ] else csv_join fs) @ [CR, LF]"

definition csv_text :: "string list list \<Rightarrow> string" where
  "csv_text rows = concat (map csv_row rows)"

section \<open>Reading\<close>

text \<open>
  The reader sees the file line by line and is told where each line ends; \<open>None\<close> is
  that end-of-line event. A line ends after LF, after CR LF, or after a CR alone.
\<close>

fun mark_lines :: "string \<Rightarrow> char option list" where
  "mark_lines [] = []"
| "mark_lines [c] = [Some c, None]"
| "mark_lines (c # d # cs) =
     Some c # (if c = LF \<or> c = CR \<and> d \<noteq> LF then [None] else []) @ mark_lines (d # cs)"

datatype csv_mode = StartRecord | StartField | InField | InQuoted | QuoteInQuoted | EatCrnl

record csv_state =
  mode :: csv_mode
  field_acc :: string
  fields_acc :: "string list"

definition csv_init :: csv_state where
  "csv_init = \<lparr>mode = StartRecord, field_acc = [], fields_acc = []\<rparr>"

definition add_char :: "csv_mode \<Rightarrow> char \<Rightarrow> csv_state \<Rightarrow> csv_state" where
  "add_char m c s = s\<lparr>mode := m, field_acc := field_acc s @ [c]\<rparr>"

definition save_field :: "csv_mode \<Rightarrow> csv_state \<Rightarrow> csv_state" where
  "save_field m s = s\<lparr>mode := m, field_acc := [], fields_acc := fields_acc s @ [field_acc s]\<rparr>"

definition start_field :: "char \<Rightarrow> csv_state \<Rightarrow> csv_state" where
  "start_field c s =
     (if c = CR \<or> c = LF then save_field EatCrnl s
      else if c = DQ then s\<lparr>mode := InQuoted\<rparr>
      else if c = COMMA then save_field StartField s
      else add_char InField c s)"

text \<open>One character; \<open>None\<close> is the error "new-line character seen in unquoted field".\<close>

definition csv_char :: "char \<Rightarrow> csv_state \<Rightarrow> csv_state option" where
  "csv_char c s =
     (case mode s of
        StartRecord \<Rightarrow> Some (if c = CR \<or> c = LF then s\<lparr>mode := EatCrnl\<rparr> else start_field c s)
      | StartField \<Rightarrow> Some (start_field c s)
      | InField \<Rightarrow>
          Some (if c = CR \<or> c = LF then save_field EatCrnl s
                else if c = COMMA then save_field StartField s
                else add_char InField c s)
      | InQuoted \<Rightarrow> Some (if c = DQ then s\<lparr>mode := QuoteInQuoted\<rparr> else add_char InQuoted c s)
      | QuoteInQuoted \<Rightarrow>
          Some (if c = DQ then add_char InQuoted c s
                else if c = COMMA then save_field StartField s
                else if c = CR \<or> c = LF then save_field EatCrnl s
                else add_char InField c s)
      | EatCrnl \<Rightarrow> if c = CR \<or> c = LF then Some s else None)"

definition csv_eol :: "csv_state \<Rightarrow> csv_state" where
  "csv_eol s =
     (case mode s of
        StartField \<Rightarrow> save_field StartRecord s
      | InField \<Rightarrow> save_field StartRecord s
      | QuoteInQuoted \<Rightarrow> save_field StartRecord s
      | EatCrnl \<Rightarrow> s\<lparr>mode := StartRecord\<rparr>
      | _ \<Rightarrow> s)"

fun csv_run :: "csv_state \<Rightarrow> char option list \<Rightarrow> string list list option" where
  "csv_run s [] =
     Some (if field_acc s \<noteq> [] \<or> mode s = InQuoted then [fields_acc s @ [field_acc s]] else [])"
| "csv_run s (Some c # evs) =
     (case csv_char c s of None \<Rightarrow> None | Some s' \<Rightarrow> csv_run s' evs)"
| "csv_run s (None # evs) =
     (let s' = csv_eol s
      in if mode s' = StartRecord then map_option ((#) (fields_acc s')) (csv_run csv_init evs)
         else csv_run s' evs)"

definition csv_read :: "string \<Rightarrow> string list list option" where
  "csv_read text = csv_run csv_init (mark_lines text)"

section \<open>Reading what was written\<close>

lemmas csv_step_defs =
  csv_char_def csv_eol_def start_field_def add_char_def save_field_def csv_init_def

lemma mark_lines_Cons:
  "c \<noteq> CR \<Longrightarrow> c \<noteq> LF \<Longrightarrow> cs \<noteq> [] \<Longrightarrow> mark_lines (c # cs) = Some c # mark_lines cs"
  by (cases cs) auto

lemma run_quoted:
  assumes "mode s = InQuoted" "rest \<noteq> []"
  shows "csv_run s (mark_lines (double_in DQ f @ DQ # rest)) =
         csv_run (s\<lparr>mode := QuoteInQuoted, field_acc := field_acc s @ f\<rparr>) (mark_lines rest)"
  using assms(1)
proof (induction f arbitrary: s)
  case Nil
  then show ?case using assms(2) by (simp add: mark_lines_Cons csv_step_defs)
next
  case (Cons c f)
  let ?t = "s\<lparr>mode := InQuoted, field_acc := field_acc s @ [c]\<rparr>"
  have IH: "csv_run ?t (mark_lines (double_in DQ f @ DQ # rest)) =
      csv_run (s\<lparr>mode := QuoteInQuoted, field_acc := field_acc s @ c # f\<rparr>) (mark_lines rest)"
    using Cons.IH [of ?t] by simp
  show ?case
  proof (cases "c = DQ")
    case True
    with Cons.prems IH show ?thesis by (simp add: mark_lines_Cons csv_step_defs)
  next
    case False
    obtain d ds where ds: "double_in DQ f @ DQ # rest = d # ds"
      by (cases "double_in DQ f @ DQ # rest") auto
    have eol: "csv_eol ?t = ?t" by (simp add: csv_step_defs)
    have "csv_run ?t (None # mark_lines (d # ds)) = csv_run ?t (mark_lines (d # ds))"
      by (simp add: eol Let_def)
    with False Cons.prems IH ds show ?thesis by (auto simp: csv_char_def add_char_def)
  qed
qed

lemma mode_id: "mode s = m \<Longrightarrow> s\<lparr>mode := m, field_acc := a\<rparr> = s\<lparr>field_acc := a\<rparr>"
  "mode s = m \<Longrightarrow> s\<lparr>mode := m\<rparr> = s"
  by (cases s; simp)+

lemma run_plain:
  assumes "\<not> needs_quotes f" "rest \<noteq> []" "mode s = InField"
  shows "csv_run s (mark_lines (f @ rest)) =
         csv_run (s\<lparr>field_acc := field_acc s @ f\<rparr>) (mark_lines rest)"
  using assms(1,3)
proof (induction f arbitrary: s)
  case (Cons c f)
  then show ?case
    using assms(2) Cons.IH [of "add_char InField c s"]
    by (simp add: needs_quotes_def mark_lines_Cons csv_step_defs mode_id)
qed simp

text \<open>
  After a rendered field the machine has the field in its accumulator, and a comma or a
  line end saves it.
\<close>

definition field_end :: "string \<Rightarrow> csv_mode \<Rightarrow> csv_state \<Rightarrow> csv_state" where
  "field_end f m s =
     (if needs_quotes f then s\<lparr>mode := QuoteInQuoted, field_acc := f\<rparr>
      else if f = [] then s\<lparr>mode := m\<rparr> else s\<lparr>mode := InField, field_acc := f\<rparr>)"

lemma run_field:
  assumes "mode s = m" "m = StartField \<or> m = StartRecord" "field_acc s = []" "rest \<noteq> []"
  shows "csv_run s (mark_lines (csv_field f @ rest)) = csv_run (field_end f m s) (mark_lines rest)"
proof (cases "needs_quotes f")
  case True
  have "csv_run s (mark_lines (DQ # double_in DQ f @ DQ # rest)) =
      csv_run (s\<lparr>mode := InQuoted\<rparr>) (mark_lines (double_in DQ f @ DQ # rest))"
    using assms by (auto simp: mark_lines_Cons csv_step_defs)
  also have "\<dots> = csv_run (s\<lparr>mode := QuoteInQuoted, field_acc := f\<rparr>) (mark_lines rest)"
    using assms by (subst run_quoted) simp_all
  finally show ?thesis using True by (simp add: csv_field_def field_end_def)
next
  case False
  show ?thesis
  proof (cases f)
    case Nil
    then show ?thesis using assms(1) False by (simp add: csv_field_def field_end_def mode_id)
  next
    case (Cons c g)
    have g: "\<not> needs_quotes g" and c: "c \<noteq> COMMA" "c \<noteq> DQ" "c \<noteq> CR" "c \<noteq> LF"
      using False Cons by (auto simp: needs_quotes_def)
    have "csv_run s (mark_lines (c # g @ rest)) =
        csv_run (s\<lparr>mode := InField, field_acc := [c]\<rparr>) (mark_lines (g @ rest))"
      using assms c by (auto simp: mark_lines_Cons csv_step_defs)
    also have "\<dots> = csv_run (s\<lparr>mode := InField, field_acc := c # g\<rparr>) (mark_lines rest)"
      using run_plain [OF g assms(4), of "s\<lparr>mode := InField, field_acc := [c]\<rparr>"] by simp
    finally show ?thesis using False Cons by (simp add: csv_field_def field_end_def)
  qed
qed

lemma run_row_end:
  assumes "mode s = StartField \<or> mode s = InField \<or> mode s = QuoteInQuoted"
  shows "csv_run s (mark_lines (CR # LF # rest)) =
         map_option ((#) (fields_acc s @ [field_acc s])) (csv_run csv_init (mark_lines rest))"
  using assms by (cases rest) (auto simp: csv_step_defs)

lemma run_join:
  assumes "mode s = StartField" "field_acc s = []" "fs \<noteq> []"
  shows "csv_run s (mark_lines (csv_join fs @ CR # LF # rest)) =
         map_option ((#) (fields_acc s @ fs)) (csv_run csv_init (mark_lines rest))"
  using assms
proof (induction fs arbitrary: s rule: csv_join.induct)
  case (2 f)
  then have "csv_run s (mark_lines (csv_field f @ CR # LF # rest)) =
      csv_run (field_end f StartField s) (mark_lines (CR # LF # rest))"
    by (intro run_field) simp_all
  also have "\<dots> = map_option ((#) (fields_acc s @ [f])) (csv_run csv_init (mark_lines rest))"
    using 2 by (subst run_row_end) (simp_all add: field_end_def)
  finally show ?case by simp
next
  case (3 f g gs)
  let ?e = "field_end f StartField s" and ?s' = "s\<lparr>mode := StartField, field_acc := [], fields_acc := fields_acc s @ [f]\<rparr>"
  have "csv_run s (mark_lines (csv_field f @ COMMA # csv_join (g # gs) @ CR # LF # rest)) =
      csv_run ?e (mark_lines (COMMA # csv_join (g # gs) @ CR # LF # rest))"
    using 3 by (intro run_field) simp_all
  also have "\<dots> = csv_run ?s' (mark_lines (csv_join (g # gs) @ CR # LF # rest))"
    using 3 by (auto simp: mark_lines_Cons field_end_def csv_step_defs)
  also have "\<dots> = map_option ((#) (fields_acc s @ f # g # gs)) (csv_run csv_init (mark_lines rest))"
    using "3.IH" [of ?s'] by simp
  finally show ?case by simp
qed simp

text \<open>A record that starts with an unquoted empty field and a comma is read from StartRecord as from StartField.\<close>

lemma run_start_record:
  "c \<noteq> CR \<Longrightarrow> c \<noteq> LF \<Longrightarrow> csv_run csv_init (Some c # evs) = csv_run (csv_init\<lparr>mode := StartField\<rparr>) (Some c # evs)"
  by (simp add: csv_step_defs)

lemma csv_join_head:
  assumes "fs \<noteq> [[]]" "fs \<noteq> []"
  shows "\<exists>c cs. csv_join fs @ [CR] = c # cs \<and> c \<noteq> CR \<and> c \<noteq> LF \<and> cs \<noteq> []"
  using assms
  by (cases fs rule: csv_join.cases; cases "hd fs")
    (auto simp: csv_field_def needs_quotes_def)

lemma csv_read_row:
  assumes "fs \<noteq> []"
  shows "csv_run csv_init (mark_lines (csv_row fs @ rest)) =
         map_option ((#) fs) (csv_run csv_init (mark_lines rest))"
proof (cases "fs = [[]]")
  case True
  have "csv_run csv_init (mark_lines (DQ # DQ # CR # LF # rest)) =
      csv_run (csv_init\<lparr>mode := QuoteInQuoted\<rparr>) (mark_lines (CR # LF # rest))"
    by (simp add: csv_step_defs)
  also have "\<dots> = map_option ((#) fs) (csv_run csv_init (mark_lines rest))"
    by (subst run_row_end) (simp_all add: csv_init_def True)
  finally show ?thesis using True by (simp add: csv_row_def)
next
  case False
  obtain c cs where c: "csv_join fs @ [CR] = c # cs" "c \<noteq> CR" "c \<noteq> LF" "cs \<noteq> []"
    using csv_join_head [OF False assms] by blast
  have whole: "csv_join fs @ CR # LF # rest = c # cs @ LF # rest"
    using c(1) by (metis append_Cons append_assoc append_Nil)
  have "csv_run csv_init (mark_lines (c # cs @ LF # rest)) =
      csv_run (csv_init\<lparr>mode := StartField\<rparr>) (mark_lines (c # cs @ LF # rest))"
    using c by (simp add: mark_lines_Cons run_start_record del: csv_run.simps)
  also have "\<dots> = map_option ((#) fs) (csv_run csv_init (mark_lines rest))"
    unfolding whole [symmetric] by (subst run_join) (simp_all add: csv_init_def assms)
  finally have "csv_run csv_init (mark_lines (csv_join fs @ CR # LF # rest)) =
      map_option ((#) fs) (csv_run csv_init (mark_lines rest))"
    unfolding whole .
  then show ?thesis using False by (simp add: csv_row_def del: mark_lines.simps)
qed

lemma csv_read_text: "\<forall>fs \<in> set rows. fs \<noteq> [] \<Longrightarrow> csv_read (csv_text rows) = Some rows"
proof (induction rows)
  case Nil
  then show ?case by (simp add: csv_read_def csv_text_def csv_init_def)
next
  case (Cons fs rows)
  then show ?case by (simp add: csv_read_def csv_text_def csv_read_row)
qed

end
