(* ===== verification/StateStore.thy ===== *)
theory StateStore
  imports Jobs Csv
begin

text \<open>
  \<open>fakeforce/state.py\<close>: the operational metadata kept in one DuckDB file. Every
  table is the list of its rows, every method is an operation on the record of tables that
  may raise. \<open>current_timestamp\<close> is the argument \<open>now\<close> (microseconds),
  generated identifiers are arguments. A column that holds JSON holds the value the JSON
  text encodes; columns that no method writes keep the default they are created with.
\<close>

section \<open>Tables\<close>

record snapshot_row =
  sn_id :: string
  sn_catalog_hash :: string
  sn_created_at :: timestamp

record cursor_row =
  cu_locator :: string
  cu_api_version :: string
  cu_query :: string
  cu_query_hash :: string
  cu_object :: string
  cu_snapshot :: string
  cu_batch_size :: int
  cu_offset :: int
  cu_total :: int
  cu_artifact :: string
  cu_status :: string
  cu_created_at :: timestamp
  cu_last_accessed_at :: timestamp
  cu_expires_at :: timestamp

record job_row =
  jr_id :: string
  jr_type :: bulk_job_type
  jr_api_version :: string
  jr_state :: bulk_job_state
  jr_object_name :: "string option"
  jr_operation :: "string option"
  jr_query_text :: "string option"
  jr_snapshot_id :: "string option"
  jr_created_at :: timestamp
  jr_updated_at :: timestamp
  jr_expires_at :: "timestamp option"
  jr_error_code :: "string option"
  jr_error_message :: "string option"
  jr_options :: "(string, string) dict option"

record checkpoint_row =
  cp_job_id :: string
  cp_number :: int
  cp_csv_row :: "int option"
  cp_processed :: int
  cp_failed :: int
  cp_bytes :: int
  cp_artifact :: "string option"
  cp_committed_at :: timestamp

record artifact_row =
  ar_id :: string
  ar_owner_type :: string
  ar_owner_id :: string
  ar_path :: string

record usage_row =
  us_id :: string
  us_occurred_at :: timestamp
  us_route :: string

record result_row =
  rr_job_id :: string
  rr_csv_row :: int
  rr_status :: string
  rr_record_id :: "string option"
  rr_error :: "string option"
  rr_source :: "(string, string option) dict"

record store =
  st_migrations :: "string list"
  st_snapshots :: "snapshot_row list"
  st_cursors :: "cursor_row list"
  st_jobs :: "job_row list"
  st_checkpoints :: "checkpoint_row list"
  st_artifacts :: "artifact_row list"
  st_usage :: "usage_row list"
  st_results :: "result_row list"

definition empty_store :: store where
  "empty_store = \<lparr>st_migrations = [], st_snapshots = [], st_cursors = [], st_jobs = [],
     st_checkpoints = [], st_artifacts = [], st_usage = [], st_results = []\<rparr>"

text \<open>
  The exceptions the methods raise: a violated primary key, the \<open>KeyError\<close> and
  \<open>InvalidJobTransition\<close> of \<open>transition_job\<close>, and its failed assertion.
\<close>

datatype store_error =
  ConstraintError string
| JobKeyError string
| TransitionError bulk_job_state bulk_job_state
| JobAssertionError

type_synonym 'a store_op = "(store, store_error, 'a) eff"

section \<open>Schema and snapshots\<close>

definition schema_version :: string where
  "schema_version = ''0001_initial_operational_state''"

definition days_us :: "int \<Rightarrow> int" where "days_us n = n * 86400000000"

definition hours_us :: "int \<Rightarrow> int" where "hours_us n = n * 3600000000"

definition migrate_job_row :: "job_row \<Rightarrow> job_row" where
  "migrate_job_row r =
     (let r1 = (if jr_options r = None then r\<lparr>jr_options := Some []\<rparr> else r)
      in if jr_expires_at r1 = None
         then r1\<lparr>jr_expires_at := Some (jr_created_at r1 + days_us 7)\<rparr> else r1)"

definition initialize :: "unit store_op" where
  "initialize = emodify (\<lambda>s. s\<lparr>st_jobs := map migrate_job_row (st_jobs s),
     st_migrations := insert_or_ignore id schema_version (st_migrations s)\<rparr>)"

definition register_snapshot :: "timestamp \<Rightarrow> string \<Rightarrow> string \<Rightarrow> unit store_op" where
  "register_snapshot now snapshot_id catalog_hash = emodify (\<lambda>s. s\<lparr>st_snapshots :=
     insert_or_ignore sn_id \<lparr>sn_id = snapshot_id, sn_catalog_hash = catalog_hash, sn_created_at = now\<rparr>
       (st_snapshots s)\<rparr>)"

section \<open>Cursors\<close>

definition create_cursor ::
  "timestamp \<Rightarrow> string \<Rightarrow> string \<Rightarrow> string \<Rightarrow> string \<Rightarrow> string \<Rightarrow> string \<Rightarrow> int \<Rightarrow> int \<Rightarrow> int \<Rightarrow> string
   \<Rightarrow> timestamp \<Rightarrow> unit store_op" where
  "create_cursor now locator_id api_version normalized_query query_hash object_name
     dataset_snapshot_id batch_size page_offset total_size result_artifact expires_at s =
     (if locator_id \<in> set (map cu_locator (st_cursors s)) then (Err (ConstraintError locator_id), s)
      else (Ok (), s\<lparr>st_cursors := st_cursors s @
        [\<lparr>cu_locator = locator_id, cu_api_version = api_version, cu_query = normalized_query,
          cu_query_hash = query_hash, cu_object = object_name, cu_snapshot = dataset_snapshot_id,
          cu_batch_size = batch_size, cu_offset = page_offset, cu_total = total_size,
          cu_artifact = result_artifact, cu_status = ''open'', cu_created_at = now,
          cu_last_accessed_at = now, cu_expires_at = expires_at\<rparr>]\<rparr>))"

record stored_cursor =
  sc_query :: string
  sc_api_version :: string
  sc_page_offset :: int
  sc_batch_size :: int
  sc_total_size :: int
  sc_artifact :: string
  sc_snapshot :: string

definition cursor_live :: "timestamp \<Rightarrow> cursor_row \<Rightarrow> bool" where
  "cursor_live now r \<longleftrightarrow> cu_status r = ''open'' \<and> cu_expires_at r > now"

definition get_cursor :: "timestamp \<Rightarrow> string \<Rightarrow> store \<Rightarrow> stored_cursor option" where
  "get_cursor now locator_id s =
     map_option (\<lambda>r. \<lparr>sc_query = cu_query r, sc_api_version = cu_api_version r,
         sc_page_offset = cu_offset r, sc_batch_size = cu_batch_size r,
         sc_total_size = cu_total r, sc_artifact = cu_artifact r, sc_snapshot = cu_snapshot r\<rparr>)
       (first_opt (filter (\<lambda>r. cu_locator r = locator_id \<and> cursor_live now r) (st_cursors s)))"

definition count_open_cursors :: "timestamp \<Rightarrow> store \<Rightarrow> nat" where
  "count_open_cursors now s = length (filter (cursor_live now) (st_cursors s))"

definition expire_cursors :: "timestamp \<Rightarrow> string list store_op" where
  "expire_cursors now s =
     (Ok (map cu_artifact (filter (\<lambda>r. cu_expires_at r \<le> now) (st_cursors s))),
      s\<lparr>st_cursors := filter (\<lambda>r. \<not> cu_expires_at r \<le> now) (st_cursors s)\<rparr>)"

definition active_cursor_artifacts :: "timestamp \<Rightarrow> store \<Rightarrow> string list" where
  "active_cursor_artifacts now s = map cu_artifact (filter (cursor_live now) (st_cursors s))"

section \<open>API usage\<close>

definition record_api_usage :: "timestamp \<Rightarrow> string \<Rightarrow> string \<Rightarrow> nat store_op" where
  "record_api_usage now event_id route s =
     (let kept = filter (\<lambda>r. \<not> us_occurred_at r \<le> now - hours_us 24) (st_usage s);
          s1 = s\<lparr>st_usage := kept\<rparr>
      in if event_id \<in> set (map us_id kept) then (Err (ConstraintError event_id), s1)
         else let rows = kept @ [\<lparr>us_id = event_id, us_occurred_at = now, us_route = route\<rparr>]
              in (Ok (length rows), s1\<lparr>st_usage := rows\<rparr>))"

definition api_usage_last_24_hours :: "timestamp \<Rightarrow> store \<Rightarrow> nat" where
  "api_usage_last_24_hours now s =
     length (filter (\<lambda>r. us_occurred_at r > now - hours_us 24) (st_usage s))"

section \<open>Jobs\<close>

definition sort_dict :: "(string, 'v) dict \<Rightarrow> (string, 'v) dict" where
  "sort_dict d = sort_key fst d"

definition create_job :: "timestamp \<Rightarrow> bulk_job \<Rightarrow> unit store_op" where
  "create_job now job s =
     (if bj_id job \<in> set (map jr_id (st_jobs s)) then (Err (ConstraintError (bj_id job)), s)
      else (Ok (), s\<lparr>st_jobs := st_jobs s @
        [\<lparr>jr_id = bj_id job, jr_type = bj_type job, jr_api_version = bj_api_version job,
          jr_state = bj_state job, jr_object_name = bj_object_name job,
          jr_operation = bj_operation job, jr_query_text = bj_query_text job,
          jr_snapshot_id = bj_snapshot_id job, jr_created_at = now, jr_updated_at = now,
          jr_expires_at = bj_expires_at job, jr_error_code = bj_error_code job,
          jr_error_message = bj_error_message job,
          jr_options = Some (sort_dict (bj_options job))\<rparr>]\<rparr>))"

definition job_live :: "timestamp \<Rightarrow> job_row \<Rightarrow> bool" where
  "job_live now r \<longleftrightarrow> (case jr_expires_at r of None \<Rightarrow> True | Some e \<Rightarrow> e > now)"

definition job_of_row :: "job_row \<Rightarrow> bulk_job" where
  "job_of_row r = \<lparr>bj_id = jr_id r, bj_type = jr_type r, bj_api_version = jr_api_version r,
     bj_state = jr_state r, bj_object_name = jr_object_name r, bj_operation = jr_operation r,
     bj_query_text = jr_query_text r, bj_snapshot_id = jr_snapshot_id r,
     bj_error_code = jr_error_code r, bj_error_message = jr_error_message r,
     bj_expires_at = None,
     bj_options = (case jr_options r of None \<Rightarrow> [] | Some d \<Rightarrow> d)\<rparr>"

definition get_job :: "timestamp \<Rightarrow> string \<Rightarrow> store \<Rightarrow> bulk_job option" where
  "get_job now job_id s =
     map_option job_of_row
       (first_opt (filter (\<lambda>r. jr_id r = job_id \<and> job_live now r) (st_jobs s)))"

definition set_job_state ::
  "timestamp \<Rightarrow> string \<Rightarrow> bulk_job_state \<Rightarrow> string option \<Rightarrow> string option \<Rightarrow> store \<Rightarrow> store" where
  "set_job_state now job_id next_state error_code error_message s =
     s\<lparr>st_jobs := map (\<lambda>r. if jr_id r = job_id
          then r\<lparr>jr_state := next_state, jr_error_code := error_code,
                 jr_error_message := error_message, jr_updated_at := now\<rparr> else r) (st_jobs s)\<rparr>"

definition transition_job ::
  "timestamp \<Rightarrow> string \<Rightarrow> bulk_job_state \<Rightarrow> string option \<Rightarrow> string option \<Rightarrow> bulk_job store_op" where
  "transition_job now job_id next_state error_code error_message =
     ebind
       (transaction
         (ebind (eget (\<lambda>s. lookup_by jr_id job_id (st_jobs s)))
           (\<lambda>row. case row of
              None \<Rightarrow> eraise (JobKeyError job_id)
            | Some r \<Rightarrow>
                (case validate_transition (jr_state r) next_state of
                   Err (InvalidJobTransition a b) \<Rightarrow> eraise (TransitionError a b)
                 | Ok _ \<Rightarrow> emodify (set_job_state now job_id next_state error_code error_message)))))
       (\<lambda>_. ebind (eget (get_job now job_id))
          (\<lambda>job. case job of None \<Rightarrow> eraise JobAssertionError | Some j \<Rightarrow> eret j))"

section \<open>Checkpoints and row results\<close>

definition next_checkpoint_number :: "string \<Rightarrow> checkpoint_row list \<Rightarrow> int" where
  "next_checkpoint_number job_id cps =
     (case map cp_number (filter (\<lambda>c. cp_job_id c = job_id) cps) of
        [] \<Rightarrow> 0 | n # ns \<Rightarrow> fold max ns n + 1)"

definition add_job_checkpoint ::
  "timestamp \<Rightarrow> string \<Rightarrow> int \<Rightarrow> int \<Rightarrow> string option \<Rightarrow> int \<Rightarrow> int option \<Rightarrow> unit store_op" where
  "add_job_checkpoint now job_id records_processed bytes_written artifact_path records_failed
     csv_row_number =
     emodify (\<lambda>s. s\<lparr>st_checkpoints := st_checkpoints s @
       [\<lparr>cp_job_id = job_id, cp_number = next_checkpoint_number job_id (st_checkpoints s),
         cp_csv_row = csv_row_number, cp_processed = records_processed,
         cp_failed = records_failed, cp_bytes = bytes_written, cp_artifact = artifact_path,
         cp_committed_at = now\<rparr>]\<rparr>)"

definition latest_job_checkpoint_records :: "string \<Rightarrow> store \<Rightarrow> int" where
  "latest_job_checkpoint_records job_id s =
     (case map cp_processed (filter (\<lambda>c. cp_job_id c = job_id) (st_checkpoints s)) of
        [] \<Rightarrow> 0 | n # ns \<Rightarrow> fold max ns n)"

record ingest_progress_rec =
  ip_processed :: int
  ip_failed :: int
  ip_csv_row :: int

definition progress_of :: "checkpoint_row \<Rightarrow> ingest_progress_rec" where
  "progress_of c = \<lparr>ip_processed = cp_processed c, ip_failed = cp_failed c,
     ip_csv_row = (case cp_csv_row c of None \<Rightarrow> 0 | Some n \<Rightarrow> n)\<rparr>"

definition ingest_progress :: "string \<Rightarrow> store \<Rightarrow> ingest_progress_rec" where
  "ingest_progress job_id s =
     (case rev (sort_key cp_number (filter (\<lambda>c. cp_job_id c = job_id) (st_checkpoints s))) of
        [] \<Rightarrow> \<lparr>ip_processed = 0, ip_failed = 0, ip_csv_row = 0\<rparr>
      | c # _ \<Rightarrow> progress_of c)"

definition ingest_result_count :: "string \<Rightarrow> string \<Rightarrow> store \<Rightarrow> nat" where
  "ingest_result_count job_id status s =
     length (filter (\<lambda>r. rr_job_id r = job_id \<and> rr_status r = status) (st_results s))"

definition result_header :: "string \<Rightarrow> string list \<Rightarrow> string list" where
  "result_header status source_fields =
     (if status = ''success'' then [''sf__Id'', ''sf__Created'', ''sf__Error'']
      else [''sf__Id'', ''sf__Error''] @ source_fields)"

definition or_empty :: "string option \<Rightarrow> string" where
  "or_empty v = (case v of None \<Rightarrow> [] | Some t \<Rightarrow> t)"

definition result_line :: "string \<Rightarrow> string list \<Rightarrow> result_row \<Rightarrow> string list" where
  "result_line status source_fields r =
     (if status = ''success'' then [or_empty (rr_record_id r), ''true'', '''']
      else [or_empty (rr_record_id r), or_empty (rr_error r)]
        @ map (\<lambda>f. or_empty (dict_get_or (rr_source r) f (Some []))) source_fields)"

text \<open>The chunks of the generator, in order: the header, then one chunk per row.\<close>

definition stream_ingest_results :: "string \<Rightarrow> string \<Rightarrow> string list \<Rightarrow> store \<Rightarrow> string list" where
  "stream_ingest_results job_id status source_fields s =
     csv_row (result_header status source_fields)
     # map (\<lambda>r. csv_row (result_line status source_fields r))
         (sort_key rr_csv_row
           (filter (\<lambda>r. rr_job_id r = job_id \<and> rr_status r = status) (st_results s)))"

section \<open>Restart and expiry\<close>

definition resumable :: "timestamp \<Rightarrow> bulk_job_type \<Rightarrow> job_row \<Rightarrow> bool" where
  "resumable now t r \<longleftrightarrow>
     jr_type r = t \<and> jr_state r \<in> {UPLOAD_COMPLETE, IN_PROGRESS} \<and> job_live now r"

definition resumable_query_jobs :: "timestamp \<Rightarrow> store \<Rightarrow> string list" where
  "resumable_query_jobs now s = map jr_id (filter (resumable now QUERY) (st_jobs s))"

definition resumable_ingest_jobs :: "timestamp \<Rightarrow> store \<Rightarrow> string list" where
  "resumable_ingest_jobs now s = map jr_id (filter (resumable now INGEST) (st_jobs s))"

definition job_expired :: "timestamp \<Rightarrow> job_row \<Rightarrow> bool" where
  "job_expired now r \<longleftrightarrow> (case jr_expires_at r of None \<Rightarrow> False | Some e \<Rightarrow> e \<le> now)"

definition expire_jobs :: "timestamp \<Rightarrow> string list store_op" where
  "expire_jobs now =
     transaction
       (ebind (eget (\<lambda>s. map jr_id (filter (job_expired now) (st_jobs s))))
         (\<lambda>job_ids.
            if job_ids = [] then eret []
            else ebind
              (emodify (\<lambda>s. s\<lparr>
                 st_artifacts := filter (\<lambda>a. \<not> (ar_owner_type a = ''job'' \<and> ar_owner_id a \<in> set job_ids))
                   (st_artifacts s),
                 st_checkpoints := filter (\<lambda>c. cp_job_id c \<notin> set job_ids) (st_checkpoints s),
                 st_jobs := filter (\<lambda>r. jr_id r \<notin> set job_ids) (st_jobs s)\<rparr>))
              (\<lambda>_. eret job_ids)))"

end
