(* ===== verification/StateStoreProps.thy ===== *)
theory StateStoreProps
  imports StateStore
begin

text \<open>
  What the operations of \<open>StateStore\<close> guarantee: the well-formedness invariant of
  the tables and its preservation, the behaviour of each operation branch by branch, the
  life of a job over any run of store operations, and the CSV stream of ingest results.
\<close>

section \<open>Well-formed tables\<close>

definition checkpoint_numbers :: "string \<Rightarrow> store \<Rightarrow> int list" where
  "checkpoint_numbers job_id s =
     map cp_number (filter (\<lambda>c. cp_job_id c = job_id) (st_checkpoints s))"

definition contiguous :: "int list \<Rightarrow> bool" where
  "contiguous ns \<longleftrightarrow> ns = map int [0 ..< length ns]"

definition store_wf :: "store \<Rightarrow> bool" where
  "store_wf s \<longleftrightarrow> distinct (map jr_id (st_jobs s)) \<and> distinct (map cu_locator (st_cursors s))
     \<and> distinct (map us_id (st_usage s)) \<and> distinct (map sn_id (st_snapshots s))
     \<and> (\<forall>j. contiguous (checkpoint_numbers j s))"

lemma contiguous_snoc: "contiguous ns \<Longrightarrow> contiguous (ns @ [int (length ns)])"
  by (simp add: contiguous_def)

lemma fold_max_upt: "fold max (map int [1 ..< Suc n]) 0 = int n"
  by (induction n) auto

lemma contiguous_next:
  "contiguous ns \<Longrightarrow> (case ns of [] \<Rightarrow> 0 | n # rest \<Rightarrow> fold max rest n + 1) = int (length ns)"
proof (cases ns)
  case (Cons n rest)
  assume "contiguous ns"
  with Cons have "n # rest = map int (0 # [1 ..< Suc (length rest)])"
    by (simp add: contiguous_def upt_conv_Cons del: upt_Suc)
  then have "n = 0" "rest = map int [1 ..< Suc (length rest)]" by simp_all
  with Cons show ?thesis using fold_max_upt [of "length rest"] by (metis length_Cons list.simps(5) of_nat_Suc add.commute)
qed simp

lemma next_checkpoint_contiguous:
  "contiguous (checkpoint_numbers j s) \<Longrightarrow>
   next_checkpoint_number j (st_checkpoints s) = int (length (checkpoint_numbers j s))"
  unfolding next_checkpoint_number_def checkpoint_numbers_def by (rule contiguous_next)

lemma distinct_map_filter_key: "distinct (map f xs) \<Longrightarrow> distinct (map f (filter P xs))"
  by (simp add: distinct_map_filter)

lemma migrate_job_row_frame [simp]:
  "jr_id (migrate_job_row r) = jr_id r" "jr_state (migrate_job_row r) = jr_state r"
  by (simp_all add: migrate_job_row_def Let_def)

lemma wf_initialize [inv_intros]: "keeps store_wf initialize"
  by (simp add: keeps_def initialize_def emodify_def store_wf_def checkpoint_numbers_def comp_def)

lemma wf_register_snapshot [inv_intros]: "keeps store_wf (register_snapshot now a b)"
  by (simp add: keeps_def register_snapshot_def emodify_def store_wf_def checkpoint_numbers_def
      distinct_insert_or_ignore)

lemma wf_create_cursor [inv_intros]:
  "keeps store_wf (create_cursor now l a q h ob sn b off t art e)"
  by (simp add: keeps_def create_cursor_def store_wf_def checkpoint_numbers_def)

lemma wf_expire_cursors [inv_intros]: "keeps store_wf (expire_cursors now)"
  by (simp add: keeps_def expire_cursors_def store_wf_def checkpoint_numbers_def distinct_map_filter_key)

lemma wf_record_api_usage [inv_intros]: "keeps store_wf (record_api_usage now i r)"
  by (simp add: keeps_def record_api_usage_def store_wf_def checkpoint_numbers_def Let_def
      distinct_map_filter_key)

lemma wf_create_job [inv_intros]: "keeps store_wf (create_job now j)"
  by (simp add: keeps_def create_job_def store_wf_def checkpoint_numbers_def)

lemma set_job_state_ids [simp]: "map jr_id (st_jobs (set_job_state now i st ec em s)) = map jr_id (st_jobs s)"
  by (simp add: set_job_state_def)

lemma wf_set_job_state: "store_wf s \<Longrightarrow> store_wf (set_job_state now i st ec em s)"
  unfolding store_wf_def checkpoint_numbers_def set_job_state_ids by (simp add: set_job_state_def)

lemma wf_transition_job [inv_intros]: "keeps store_wf (transition_job now i st ec em)"
  unfolding transition_job_def
  by (auto intro!: inv_intros wf_set_job_state split: option.split sum.split invalid_job_transition.split)

lemma wf_add_job_checkpoint [inv_intros]:
  "keeps store_wf (add_job_checkpoint now j p b a f r)"
proof (rule keepsI)
  fix s t and res :: "store_error + unit"
  assume wf: "store_wf s" and step: "add_job_checkpoint now j p b a f r s = (res, t)"
  let ?n = "next_checkpoint_number j (st_checkpoints s)"
  have nums: "checkpoint_numbers i t = checkpoint_numbers i s @ (if i = j then [?n] else [])" for i
    using step by (auto simp: add_job_checkpoint_def emodify_def checkpoint_numbers_def)
  have "contiguous (checkpoint_numbers i t)" for i
    using wf next_checkpoint_contiguous [of j s] contiguous_snoc [of "checkpoint_numbers i s"]
    by (auto simp: nums store_wf_def)
  then show "store_wf t"
    using wf step by (auto simp: store_wf_def add_job_checkpoint_def emodify_def)
qed

lemma wf_expire_jobs [inv_intros]: "keeps store_wf (expire_jobs now)"
proof -
  have purge: "keeps store_wf (emodify (\<lambda>s. s\<lparr>
      st_artifacts := filter P (st_artifacts s),
      st_checkpoints := filter (\<lambda>c. cp_job_id c \<notin> set ids) (st_checkpoints s),
      st_jobs := filter (\<lambda>r. jr_id r \<notin> set ids) (st_jobs s)\<rparr>))" for P ids
  proof (rule keeps_emodify)
    fix s assume wf: "store_wf s"
    let ?t = "s\<lparr>st_artifacts := filter P (st_artifacts s),
      st_checkpoints := filter (\<lambda>c. cp_job_id c \<notin> set ids) (st_checkpoints s),
      st_jobs := filter (\<lambda>r. jr_id r \<notin> set ids) (st_jobs s)\<rparr>"
    have "checkpoint_numbers j ?t = (if j \<in> set ids then [] else checkpoint_numbers j s)" for j
      by (auto simp: checkpoint_numbers_def filter_empty_conv intro!: arg_cong [where f = "map cp_number"] filter_cong)
    with wf show "store_wf ?t"
      by (simp add: store_wf_def distinct_map_filter_key contiguous_def)
  qed
  then show ?thesis
    unfolding expire_jobs_def
    by (intro keeps_transaction keeps_ebind keeps_eff) (simp add: keeps_eff keeps_ebind purge)
qed

section \<open>Job transitions\<close>

lemma transition_job_eq:
  "transition_job now i st ec em s =
     (case lookup_by jr_id i (st_jobs s) of
        None \<Rightarrow> (Err (JobKeyError i), s)
      | Some r \<Rightarrow>
          if \<not> job_step (jr_state r) st then (Err (TransitionError (jr_state r) st), s)
          else let t = set_job_state now i st ec em s
               in ((case get_job now i t of None \<Rightarrow> Err JobAssertionError | Some j \<Rightarrow> Ok j), t))"
proof (cases "lookup_by jr_id i (st_jobs s)")
  case None
  then show ?thesis by (simp add: transition_job_def eff_defs)
next
  case (Some r)
  show ?thesis
  proof (cases "job_step (jr_state r) st")
    case True
    then have "validate_transition (jr_state r) st = Ok ()" by (simp add: validate_transition_iff)
    with Some True show ?thesis
      by (simp add: transition_job_def eff_defs Let_def split: option.split)
  next
    case False
    then have "validate_transition (jr_state r) st = Err (InvalidJobTransition (jr_state r) st)"
      by (simp add: validate_transition_err)
    with Some False show ?thesis by (simp add: transition_job_def eff_defs)
  qed
qed

definition job_state_of :: "string \<Rightarrow> store \<Rightarrow> bulk_job_state option" where
  "job_state_of i s = map_option jr_state (lookup_by jr_id i (st_jobs s))"

lemma lookup_set_job_state:
  "lookup_by jr_id i (st_jobs (set_job_state now j st ec em s)) =
     map_option (\<lambda>r. if jr_id r = j
        then r\<lparr>jr_state := st, jr_error_code := ec, jr_error_message := em, jr_updated_at := now\<rparr> else r)
       (lookup_by jr_id i (st_jobs s))"
  unfolding set_job_state_def by (simp add: lookup_by_map)

lemma job_state_of_set:
  "job_state_of i (set_job_state now j st ec em s) =
     (if i = j \<and> job_state_of i s \<noteq> None then Some st else job_state_of i s)"
proof (cases "lookup_by jr_id i (st_jobs s)")
  case None
  then show ?thesis by (simp add: job_state_of_def lookup_set_job_state)
next
  case (Some r)
  moreover have "jr_id r = i" using Some by (auto dest: lookup_by_Some)
  ultimately show ?thesis by (auto simp: job_state_of_def lookup_set_job_state)
qed

lemma transition_job_state:
  "job_state_of i (snd (transition_job now j st ec em s)) = job_state_of i s
   \<or> (\<exists>a. i = j \<and> job_state_of i s = Some a \<and> job_step a st
        \<and> job_state_of i (snd (transition_job now j st ec em s)) = Some st)"
proof (cases "lookup_by jr_id j (st_jobs s)")
  case None
  then show ?thesis by (simp add: transition_job_eq)
next
  case (Some r)
  then have "job_state_of j s = Some (jr_state r)" by (simp add: job_state_of_def)
  with Some show ?thesis by (auto simp: transition_job_eq job_state_of_set Let_def)
qed

section \<open>Expiry\<close>

definition expired_job_ids :: "timestamp \<Rightarrow> store \<Rightarrow> string list" where
  "expired_job_ids now s = map jr_id (filter (job_expired now) (st_jobs s))"

lemma expire_jobs_eq:
  "expire_jobs now s = (Ok (expired_job_ids now s),
     s\<lparr>st_artifacts := filter (\<lambda>a. \<not> (ar_owner_type a = ''job'' \<and> ar_owner_id a \<in> set (expired_job_ids now s)))
         (st_artifacts s),
       st_checkpoints := filter (\<lambda>c. cp_job_id c \<notin> set (expired_job_ids now s)) (st_checkpoints s),
       st_jobs := filter (\<lambda>r. jr_id r \<notin> set (expired_job_ids now s)) (st_jobs s)\<rparr>)"
proof (cases "expired_job_ids now s = []")
  case True
  then show ?thesis by (cases s) (simp add: expire_jobs_def eff_defs expired_job_ids_def)
next
  case False
  then show ?thesis by (simp add: expire_jobs_def eff_defs expired_job_ids_def del: map_is_Nil_conv)
qed

section \<open>Runs of store operations\<close>

datatype store_cmd =
  Initialize
| RegisterSnapshot string string
| CreateCursor string string string string string string int int int string timestamp
| ExpireCursors
| RecordApiUsage string string
| CreateJob bulk_job
| TransitionJob string bulk_job_state "string option" "string option"
| AddJobCheckpoint string int int "string option" int "int option"
| ExpireJobs

fun store_exec :: "timestamp \<Rightarrow> store_cmd \<Rightarrow> store \<Rightarrow> store" where
  "store_exec now Initialize s = snd (initialize s)"
| "store_exec now (RegisterSnapshot a b) s = snd (register_snapshot now a b s)"
| "store_exec now (CreateCursor l a q h ob sn b off t art e) s =
     snd (create_cursor now l a q h ob sn b off t art e s)"
| "store_exec now ExpireCursors s = snd (expire_cursors now s)"
| "store_exec now (RecordApiUsage i r) s = snd (record_api_usage now i r s)"
| "store_exec now (CreateJob j) s = snd (create_job now j s)"
| "store_exec now (TransitionJob i st ec em) s = snd (transition_job now i st ec em s)"
| "store_exec now (AddJobCheckpoint j p b a f r) s = snd (add_job_checkpoint now j p b a f r s)"
| "store_exec now ExpireJobs s = snd (expire_jobs now s)"

fun store_run :: "(timestamp \<times> store_cmd) list \<Rightarrow> store \<Rightarrow> store" where
  "store_run [] s = s"
| "store_run ((now, c) # cs) s = store_run cs (store_exec now c s)"

fun creates :: "string \<Rightarrow> store_cmd \<Rightarrow> bool" where
  "creates i (CreateJob j) = (bj_id j = i)"
| "creates i _ = False"

lemma store_exec_wf: "store_wf s \<Longrightarrow> store_wf (store_exec now c s)"
  by (cases c) (simp_all only: store_exec.simps, (rule keeps_snd, intro inv_intros, assumption)+)

lemma store_run_wf: "store_wf s \<Longrightarrow> store_wf (store_run cs s)"
  by (induction cs s rule: store_run.induct) (simp_all add: store_exec_wf)

lemma store_exec_job:
  assumes "\<not> creates i c" "job_state_of i (store_exec now c s) = Some b"
  shows "\<exists>a. job_state_of i s = Some a \<and> (a = b \<or> job_step a b)"
proof (cases c)
  case Initialize
  with assms show ?thesis
    by (auto simp: initialize_def emodify_def job_state_of_def lookup_by_map)
next
  case (CreateJob j)
  with assms show ?thesis
    by (auto simp: create_job_def job_state_of_def lookup_by_append lookup_by_singleton
        split: if_splits option.splits)
next
  case (TransitionJob j st ec em)
  then have "job_state_of i (snd (transition_job now j st ec em s)) = Some b" using assms by simp
  with transition_job_state [of i now j st ec em s] show ?thesis
    by (elim disjE exE conjE) simp_all
next
  case ExpireJobs
  let ?P = "\<lambda>r. jr_id r \<notin> set (expired_job_ids now s)"
  from ExpireJobs assms obtain r where r: "lookup_by jr_id i (filter ?P (st_jobs s)) = Some r" "jr_state r = b"
    by (auto simp: expire_jobs_eq job_state_of_def)
  then have "i \<notin> set (expired_job_ids now s)" by (auto dest!: lookup_by_Some)
  with r show ?thesis by (auto simp: job_state_of_def lookup_by_filter)
qed (use assms in \<open>auto simp: register_snapshot_def create_cursor_def expire_cursors_def
      record_api_usage_def add_job_checkpoint_def emodify_def job_state_of_def Let_def
      split: if_splits\<close>)

lemma store_run_job:
  assumes "\<forall>(now, c) \<in> set cs. \<not> creates i c" "job_state_of i (store_run cs s) = Some b"
  shows "\<exists>a. job_state_of i s = Some a \<and> job_step\<^sup>*\<^sup>* a b"
  using assms
proof (induction cs s rule: store_run.induct)
  case (2 now c cs s)
  then obtain m where m: "job_state_of i (store_exec now c s) = Some m" "job_step\<^sup>*\<^sup>* m b" by auto
  then obtain a where "job_state_of i s = Some a" "a = m \<or> job_step a m"
    using store_exec_job [of i c now s m] 2(2) by auto
  with m(2) show ?case by (auto intro: converse_rtranclp_into_rtranclp)
qed auto

section \<open>Cursors and usage\<close>

lemma first_opt_filter_unique:
  assumes "distinct (map key xs)" "r \<in> set xs" "P r"
  shows "first_opt (filter (\<lambda>x. key x = key r \<and> P x) xs) = Some r"
  using assms by (induction xs) auto

lemma get_cursor_iff:
  assumes "store_wf s"
  shows "get_cursor now l s \<noteq> None \<longleftrightarrow> (\<exists>r \<in> set (st_cursors s). cu_locator r = l \<and> cursor_live now r)"
  using assms by (auto simp: get_cursor_def filter_empty_conv)

lemma get_after_expire:
  assumes "now \<le> later"
  shows "get_cursor later l (snd (expire_cursors now s)) = get_cursor later l s"
proof -
  have "filter (\<lambda>r. cu_locator r = l \<and> cursor_live later r) (filter (\<lambda>r. \<not> cu_expires_at r \<le> now) cs)
      = filter (\<lambda>r. cu_locator r = l \<and> cursor_live later r) cs" for cs
    using assms by (auto simp: cursor_live_def filter_filter intro!: filter_cong)
  then show ?thesis by (simp add: get_cursor_def expire_cursors_def)
qed

lemma count_after_expire: "count_open_cursors now (snd (expire_cursors now s)) = count_open_cursors now s"
proof -
  have "filter (cursor_live now) (filter (\<lambda>r. \<not> cu_expires_at r \<le> now) cs) = filter (cursor_live now) cs"
    for cs by (auto simp: cursor_live_def filter_filter intro!: filter_cong)
  then show ?thesis by (simp add: count_open_cursors_def expire_cursors_def)
qed

lemma hours_us_pos [simp]: "hours_us 24 > 0" by (simp add: hours_us_def)

section \<open>Properties\<close>

text \<open>C1:
  whatever sequence of store operations runs, in whatever order and with
  whatever results, a stored job that was not re-created in the run ends in a state
  reachable from its earlier one by the transitions of the job state machine, and a job that
  had reached a terminal state is still in exactly that state if it is still stored.\<close>

theorem store_run_job_path:
  assumes "\<forall>(now, c) \<in> set cs. \<not> creates i c" "job_state_of i (store_run cs s) = Some b"
  shows "\<exists>a. job_state_of i s = Some a \<and> job_step\<^sup>*\<^sup>* a b \<and> (terminal_state a \<longrightarrow> b = a)"
  using store_run_job [OF assms] terminal_steps by blast

definition wit_row :: job_row where
  "wit_row = \<lparr>jr_id = ''j1'', jr_type = INGEST, jr_api_version = ''v66.0'', jr_state = OPEN,
     jr_object_name = Some ''Account'', jr_operation = Some ''insert'', jr_query_text = None,
     jr_snapshot_id = None, jr_created_at = 0, jr_updated_at = 0, jr_expires_at = Some 1000,
     jr_error_code = None, jr_error_message = None, jr_options = Some []\<rparr>"

definition wit_store :: store where
  "wit_store = empty_store\<lparr>st_jobs := [wit_row]\<rparr>"

definition wit_cmds :: "(timestamp \<times> store_cmd) list" where
  "wit_cmds = [(1, TransitionJob ''j1'' UPLOAD_COMPLETE None None),
     (2, TransitionJob ''j1'' IN_PROGRESS None None), (3, TransitionJob ''j1'' ABORTED None None),
     (4, TransitionJob ''j1'' OPEN None None)]"

lemma wit_run_state: "job_state_of ''j1'' (store_run wit_cmds wit_store) = Some ABORTED"
  by code_simp

theorem store_run_job_path_witness:
  "\<exists>a. job_state_of ''j1'' wit_store = Some a \<and> job_step\<^sup>*\<^sup>* a ABORTED
     \<and> (terminal_state a \<longrightarrow> ABORTED = a)"
  using store_run_job_path [OF _ wit_run_state] by (simp add: wit_cmds_def)

text \<open>C23:
  started on the empty database, every run of store operations keeps the tables
  well formed: job ids, locators, usage events and snapshots stay unique, and the checkpoints
  of every job are numbered 0, 1, 2, ... without gap.\<close>

theorem store_run_well_formed: "store_wf (store_run cs empty_store)"
  by (rule store_run_wf) (simp add: store_wf_def empty_store_def checkpoint_numbers_def contiguous_def)


text \<open>
  a freshly created cursor is found with exactly the values it was stored with until
  its expiry time, and not from then on.\<close>

theorem create_then_get_cursor:
  assumes "store_wf s" "create_cursor now l a q h ob sn b off t art e s = (Ok (), s')"
  shows "get_cursor later l s' =
    (if e > later then Some \<lparr>sc_query = q, sc_api_version = a, sc_page_offset = off, sc_batch_size = b,
        sc_total_size = t, sc_artifact = art, sc_snapshot = sn\<rparr> else None)"
proof -
  from assms(2) have new: "l \<notin> cu_locator ` set (st_cursors s)"
    and cs: "st_cursors s' = st_cursors s @ [\<lparr>cu_locator = l, cu_api_version = a, cu_query = q,
          cu_query_hash = h, cu_object = ob, cu_snapshot = sn,
          cu_batch_size = b, cu_offset = off, cu_total = t,
          cu_artifact = art, cu_status = ''open'', cu_created_at = now,
          cu_last_accessed_at = now, cu_expires_at = e\<rparr>]"
    by (auto simp: create_cursor_def split: if_splits)
  have "filter (\<lambda>r. cu_locator r = l \<and> cursor_live later r) (st_cursors s) = []"
    using new by (auto simp: filter_empty_conv)
  then show ?thesis by (simp add: get_cursor_def cs cursor_live_def)
qed

theorem create_then_get_cursor_witness:
  "get_cursor 9 ''loc'' (snd (create_cursor 1 ''loc'' ''v66.0'' ''SELECT Id'' ''h'' ''Account'' ''snap'' 200 200 450 ''p'' 10 empty_store))
   = Some \<lparr>sc_query = ''SELECT Id'', sc_api_version = ''v66.0'', sc_page_offset = 200, sc_batch_size = 200,
        sc_total_size = 450, sc_artifact = ''p'', sc_snapshot = ''snap''\<rparr>"
proof -
  have "store_wf empty_store" by (simp add: store_wf_def empty_store_def checkpoint_numbers_def contiguous_def)
  from create_then_get_cursor [OF this, of 1 "''loc''" "''v66.0''" "''SELECT Id''" "''h''" "''Account''" "''snap''" 200 200 450 "''p''" 10 _ 9]
  show ?thesis by (simp add: create_cursor_def empty_store_def)
qed

text \<open>
  the number \<open>record_api_usage\<close> returns is the number of calls the rolling
  24 hour window holds after the insertion, as \<open>api_usage_last_24_hours\<close> counts it.\<close>

theorem record_api_usage_count:
  assumes "record_api_usage now i route s = (Ok n, s')"
  shows "n = api_usage_last_24_hours now s' \<and> n = api_usage_last_24_hours now s + 1"
proof -
  let ?kept = "filter (\<lambda>r. \<not> us_occurred_at r \<le> now - hours_us 24) (st_usage s)"
  from assms have "st_usage s' = ?kept @ [\<lparr>us_id = i, us_occurred_at = now, us_route = route\<rparr>]"
    and "n = Suc (length ?kept)"
    by (auto simp: record_api_usage_def Let_def split: if_splits)
  then show ?thesis by (simp add: api_usage_last_24_hours_def not_le)
qed

theorem record_api_usage_count_witness:
  "api_usage_last_24_hours 7 (snd (record_api_usage 7 ''e2'' ''/query'' (snd (record_api_usage 5 ''e1'' ''/query'' empty_store)))) = 2"
  using record_api_usage_count [of 7 "''e2''" "''/query''" "snd (record_api_usage 5 ''e1'' ''/query'' empty_store)" 2]
  by (simp add: record_api_usage_def empty_store_def hours_us_def api_usage_last_24_hours_def)

text \<open>
  \<open>expire_jobs\<close> removes exactly the jobs whose expiry time has passed, with
  their checkpoints, and leaves every live job as it was; it leaves the rows of
  \<open>job_row_results\<close> of the removed jobs behind.\<close>

theorem expire_jobs_exact:
  assumes "store_wf s" "expire_jobs now s = (Ok ids, s')"
  shows "set ids = jr_id ` {r \<in> set (st_jobs s). job_expired now r}
    \<and> st_jobs s' = filter (\<lambda>r. \<not> job_expired now r) (st_jobs s)
    \<and> (\<forall>c \<in> set (st_checkpoints s'). cp_job_id c \<notin> set ids)
    \<and> st_results s' = st_results s"
proof -
  have "jr_id r \<in> set (expired_job_ids now s) \<longleftrightarrow> job_expired now r" if "r \<in> set (st_jobs s)" for r
    using assms(1) that by (force simp: expired_job_ids_def store_wf_def distinct_map inj_on_def)
  then have "filter (\<lambda>r. jr_id r \<notin> set (expired_job_ids now s)) (st_jobs s)
      = filter (\<lambda>r. \<not> job_expired now r) (st_jobs s)"
    by (auto intro: filter_cong)
  with assms(2) show ?thesis by (auto simp: expire_jobs_eq expired_job_ids_def)
qed

definition wit_result :: result_row where
  "wit_result = \<lparr>rr_job_id = ''j1'', rr_csv_row = 1, rr_status = ''error'', rr_record_id = None,
     rr_error = Some ''bad, value'', rr_source = [(''Name'', Some ''a\"b'')]\<rparr>"

theorem expire_jobs_exact_witness:
  "st_jobs (snd (expire_jobs 2000 (wit_store\<lparr>st_results := [wit_result]\<rparr>))) = []
   \<and> st_results (snd (expire_jobs 2000 (wit_store\<lparr>st_results := [wit_result]\<rparr>))) = [wit_result]"
proof -
  let ?s = "wit_store\<lparr>st_results := [wit_result]\<rparr>"
  have wf: "store_wf ?s"
    by (simp add: store_wf_def wit_store_def empty_store_def checkpoint_numbers_def contiguous_def)
  have jobs: "filter (\<lambda>r. \<not> job_expired 2000 r) (st_jobs ?s) = []"
    by (simp add: wit_store_def wit_row_def empty_store_def job_expired_def)
  have run: "expire_jobs 2000 ?s = (Ok (expired_job_ids 2000 ?s), snd (expire_jobs 2000 ?s))"
    by (simp only: expire_jobs_eq snd_conv)
  have "st_results ?s = [wit_result]" by simp
  with expire_jobs_exact [OF wf run] jobs show ?thesis by (simp only: simp_thms)
qed

text \<open>
  the result stream of a bulk ingest job is valid CSV: reading the concatenated
  chunks back gives the header and one line per matching result row, in row order, with
  every field as it was stored, whatever characters it holds.\<close>

theorem stream_ingest_results_read_back:
  "csv_read (concat (stream_ingest_results job_id status cols s)) =
     Some (result_header status cols # map (result_line status cols)
       (sort_key rr_csv_row (filter (\<lambda>r. rr_job_id r = job_id \<and> rr_status r = status) (st_results s))))"
proof -
  let ?rows = "result_header status cols # map (result_line status cols)
       (sort_key rr_csv_row (filter (\<lambda>r. rr_job_id r = job_id \<and> rr_status r = status) (st_results s)))"
  have "concat (stream_ingest_results job_id status cols s) = csv_text ?rows"
    by (simp add: stream_ingest_results_def csv_text_def comp_def)
  moreover have "\<forall>fs \<in> set ?rows. fs \<noteq> []" by (auto simp: result_header_def result_line_def)
  ultimately show ?thesis using csv_read_text [of ?rows] by simp
qed

end
