(* ===== verification/Soql.thy ===== *)
theory Soql
  imports PyStr
begin

text \<open>
  \<open>fakeforce/soql.py\<close>: the tokenizer, the recursive descent parser and its AST. The
  parser's state (the token tuple and the index) is the list of the tokens that remain. Every
  \<open>SoqlSyntaxError\<close> is a constructor that carries what its message reports. A numeric
  literal with a decimal point or an exponent is kept as its text.
\<close>

section \<open>Syntax\<close>

datatype literal = LStr string | LNull | LBool bool | LInt int | LFloat string

datatype predicate =
  Comparison string string literal
| InComparison string "literal list"

record order_by =
  ob_field :: string
  ob_direction :: string
  ob_nulls :: string

record select_query =
  q_fields :: "string list"
  q_object :: string
  q_predicates :: "predicate list"
  q_order_by :: "order_by option"
  q_limit :: "int option"
  q_offset :: int

datatype token_kind = STRING | COMMA | LPAREN | RPAREN | STAR | OPERATOR | KEYWORD | WORD

record token =
  tk_kind :: token_kind
  tk_value :: string
  tk_position :: nat

datatype soql_error =
  UnterminatedString nat
| InvalidOperator string nat
| UnexpectedCharacter char nat
| UnexpectedToken string nat
| ExpectedKeyword "string list" "nat option"
| ExpectedKind token_kind "nat option"
| ExpectedLiteral "nat option"
| RequiresInteger string

section \<open>Tokens\<close>

definition soql_keywords :: "string list" where
  "soql_keywords = [''SELECT'', ''FROM'', ''WHERE'', ''AND'', ''IN'', ''LIKE'', ''ORDER'', ''BY'', ''ASC'',
     ''DESC'', ''NULLS'', ''FIRST'', ''LAST'', ''LIMIT'', ''OFFSET'']"

definition punctuation :: "char \<Rightarrow> token_kind option" where
  "punctuation c =
     (if c = CHR '','' then Some COMMA else if c = CHR ''('' then Some LPAREN
      else if c = CHR '')'' then Some RPAREN else if c = CHR ''*'' then Some STAR else None)"

definition operator_char :: "char \<Rightarrow> bool" where
  "operator_char c \<longleftrightarrow> c = CHR ''<'' \<or> c = CHR ''>'' \<or> c = CHR ''='' \<or> c = CHR ''!''"

definition operators :: "string list" where
  "operators = [''='', ''!='', ''>'', ''>='', ''<'', ''<='']"

definition word_char :: "char \<Rightarrow> bool" where
  "word_char c \<longleftrightarrow> \<not> is_space c \<and> c \<noteq> CHR 0x27 \<and> punctuation c = None \<and> \<not> operator_char c"

text \<open>The value of a string literal and the number of characters up to and with the closing quote.\<close>

fun scan_string :: "string \<Rightarrow> (string \<times> nat) option" where
  "scan_string [] = None"
| "scan_string (c # cs) =
     (if c \<noteq> CHR 0x27 then map_option (\<lambda>(v, n). (c # v, Suc n)) (scan_string cs)
      else (case cs of
              [] \<Rightarrow> Some ([], 1)
            | d # ds \<Rightarrow>
                if d = CHR 0x27 then map_option (\<lambda>(v, n). (CHR 0x27 # v, Suc (Suc n))) (scan_string ds)
                else Some ([], 1)))"

definition word_token :: "string \<Rightarrow> nat \<Rightarrow> token" where
  "word_token v i =
     (let u = str_upper v in
      if u \<in> set soql_keywords then \<lparr>tk_kind = KEYWORD, tk_value = u, tk_position = i\<rparr>
      else \<lparr>tk_kind = WORD, tk_value = v, tk_position = i\<rparr>)"

definition operator_at :: "char \<Rightarrow> string \<Rightarrow> string" where
  "operator_at c cs = (case cs of [] \<Rightarrow> [c] | d # _ \<Rightarrow> if d = CHR ''='' then [c, d] else [c])"

definition cons_token :: "token \<Rightarrow> soql_error + token list \<Rightarrow> soql_error + token list" where
  "cons_token t r = rbind r (\<lambda>ts. Ok (t # ts))"

function tokenize_at :: "nat \<Rightarrow> string \<Rightarrow> soql_error + token list" where
  "tokenize_at i [] = Ok []"
| "tokenize_at i (c # cs) =
     (if is_space c then tokenize_at (Suc i) cs
      else if c = CHR 0x27 then
        (case scan_string cs of
           None \<Rightarrow> Err (UnterminatedString i)
         | Some (v, n) \<Rightarrow>
             cons_token \<lparr>tk_kind = STRING, tk_value = v, tk_position = i\<rparr>
               (tokenize_at (Suc (i + n)) (drop n cs)))
      else (case punctuation c of
         Some k \<Rightarrow> cons_token \<lparr>tk_kind = k, tk_value = [c], tk_position = i\<rparr> (tokenize_at (Suc i) cs)
       | None \<Rightarrow>
           if operator_char c then
             (let op = operator_at c cs in
              if op \<notin> set operators then Err (InvalidOperator op i)
              else cons_token \<lparr>tk_kind = OPERATOR, tk_value = op, tk_position = i\<rparr>
                     (tokenize_at (i + length op) (drop (length op - 1) cs)))
           else
             (let v = takeWhile word_char (c # cs) in
              if v = [] then Err (UnexpectedCharacter c i)
              else cons_token (word_token v i)
                     (tokenize_at (i + length v) (drop (length v - 1) cs)))))"
  by pat_completeness auto
termination by (relation "measure (\<lambda>(i, s). length s)") (auto simp: Let_def)

definition tokenize :: "string \<Rightarrow> soql_error + token list" where
  "tokenize s = tokenize_at 0 s"

section \<open>Numeric literals\<close>

definition exponent_ok :: "string \<Rightarrow> bool" where
  "exponent_ok s =
     (case s of
        [] \<Rightarrow> True
      | e # r \<Rightarrow>
          (e = CHR ''e'' \<or> e = CHR ''E'') \<and>
          (case r of
             [] \<Rightarrow> False
           | d # r' \<Rightarrow> is_decimal (if d = CHR ''+'' \<or> d = CHR ''-'' then r' else r)))"

definition mantissa_ok :: "string \<Rightarrow> bool" where
  "mantissa_ok s =
     (let ds = takeWhile is_digit s; r = dropWhile is_digit s in
      case r of
        [] \<Rightarrow> ds \<noteq> []
      | c # r' \<Rightarrow>
          if c = CHR ''.'' then
            (ds \<noteq> [] \<or> takeWhile is_digit r' \<noteq> []) \<and> exponent_ok (dropWhile is_digit r')
          else ds \<noteq> [] \<and> exponent_ok r)"

definition numeric_literal :: "string \<Rightarrow> bool" where
  "numeric_literal s =
     mantissa_ok (case s of [] \<Rightarrow> [] | c # r \<Rightarrow> if c = CHR ''-'' then r else s)"

definition float_marked :: "string \<Rightarrow> bool" where
  "float_marked s \<longleftrightarrow> (\<exists>c \<in> set s. c = CHR ''.'' \<or> c = CHR ''e'' \<or> c = CHR ''E'')"

section \<open>Parser\<close>

type_synonym 'a parser = "token list \<Rightarrow> soql_error + 'a \<times> token list"

definition advance :: "token list \<Rightarrow> token option \<times> token list" where
  "advance ts = (case ts of [] \<Rightarrow> (None, []) | t # r \<Rightarrow> (Some t, r))"

definition peek_keyword :: "string \<Rightarrow> token list \<Rightarrow> bool" where
  "peek_keyword v ts = (case ts of [] \<Rightarrow> False | t # _ \<Rightarrow> tk_kind t = KEYWORD \<and> tk_value t = v)"

definition peek_kind :: "token_kind \<Rightarrow> token list \<Rightarrow> bool" where
  "peek_kind k ts = (case ts of [] \<Rightarrow> False | t # _ \<Rightarrow> tk_kind t = k)"

definition expect_keyword :: "string list \<Rightarrow> token parser" where
  "expect_keyword vs ts =
     (case advance ts of
        (None, _) \<Rightarrow> Err (ExpectedKeyword vs None)
      | (Some t, r) \<Rightarrow> if tk_kind t = KEYWORD \<and> tk_value t \<in> set vs then Ok (t, r)
                       else Err (ExpectedKeyword vs (Some (tk_position t))))"

definition expect :: "token_kind \<Rightarrow> token parser" where
  "expect k ts =
     (case advance ts of
        (None, _) \<Rightarrow> Err (ExpectedKind k None)
      | (Some t, r) \<Rightarrow> if tk_kind t = k then Ok (t, r) else Err (ExpectedKind k (Some (tk_position t))))"

definition p_identifier :: "string parser" where
  "p_identifier ts = rbind (expect WORD ts) (\<lambda>(t, r). Ok (tk_value t, r))"

definition literal_of_word :: "string \<Rightarrow> literal" where
  "literal_of_word v =
     (let u = str_upper v in
      if u = ''NULL'' then LNull
      else if u = ''TRUE'' then LBool True
      else if u = ''FALSE'' then LBool False
      else if numeric_literal v then
        (if float_marked v then LFloat v
         else (case py_int v of None \<Rightarrow> LStr v | Some n \<Rightarrow> LInt n))
      else LStr v)"

definition p_literal :: "literal parser" where
  "p_literal ts =
     (case advance ts of
        (None, _) \<Rightarrow> Err (ExpectedLiteral None)
      | (Some t, r) \<Rightarrow>
          if tk_kind t = STRING then Ok (LStr (tk_value t), r)
          else if tk_kind t \<noteq> WORD then Err (ExpectedLiteral (Some (tk_position t)))
          else Ok (literal_of_word (tk_value t), r))"

definition p_integer :: "string \<Rightarrow> int parser" where
  "p_integer clause ts =
     rbind (p_literal ts) (\<lambda>(v, r).
       case v of LInt n \<Rightarrow> if n < 0 then Err (RequiresInteger clause) else Ok (n, r)
       | _ \<Rightarrow> Err (RequiresInteger clause))"

text \<open>The comma loops: the items that follow the first one.\<close>

fun p_more :: "nat \<Rightarrow> 'a parser \<Rightarrow> 'a list parser" where
  "p_more 0 p ts = Ok ([], ts)"
| "p_more (Suc n) p ts =
     (if peek_kind COMMA ts
      then rbind (p (tl ts)) (\<lambda>(x, r). rbind (p_more n p r) (\<lambda>(xs, r'). Ok (x # xs, r')))
      else Ok ([], ts))"

definition p_items :: "'a parser \<Rightarrow> 'a list parser" where
  "p_items p ts =
     rbind (p ts) (\<lambda>(x, r). rbind (p_more (length r) p r) (\<lambda>(xs, r'). Ok (x # xs, r')))"

definition p_fields :: "string list parser" where
  "p_fields ts = (if peek_kind STAR ts then Ok ([''*''], tl ts) else p_items p_identifier ts)"

definition p_predicate :: "predicate parser" where
  "p_predicate ts =
     rbind (p_identifier ts) (\<lambda>(field, r).
       if peek_keyword ''IN'' r then
         rbind (expect LPAREN (tl r)) (\<lambda>(_, r1).
         rbind (p_items p_literal r1) (\<lambda>(vs, r2).
         rbind (expect RPAREN r2) (\<lambda>(_, r3). Ok (InComparison field vs, r3))))
       else if peek_keyword ''LIKE'' r then
         rbind (p_literal (tl r)) (\<lambda>(v, r1). Ok (Comparison field ''LIKE'' v, r1))
       else
         rbind (expect OPERATOR r) (\<lambda>(op, r1).
         rbind (p_literal r1) (\<lambda>(v, r2). Ok (Comparison field (tk_value op) v, r2))))"

fun p_and :: "nat \<Rightarrow> predicate list parser" where
  "p_and 0 ts = Ok ([], ts)"
| "p_and (Suc n) ts =
     (if peek_keyword ''AND'' ts
      then rbind (p_predicate (tl ts)) (\<lambda>(p, r). rbind (p_and n r) (\<lambda>(ps, r'). Ok (p # ps, r')))
      else Ok ([], ts))"

definition p_where :: "predicate list parser" where
  "p_where ts =
     (if peek_keyword ''WHERE'' ts
      then rbind (p_predicate (tl ts)) (\<lambda>(p, r).
           rbind (p_and (length r) r) (\<lambda>(ps, r'). Ok (p # ps, r')))
      else Ok ([], ts))"

definition p_direction :: "string parser" where
  "p_direction ts =
     (if peek_keyword ''ASC'' ts \<or> peek_keyword ''DESC'' ts then Ok (tk_value (hd ts), tl ts)
      else Ok (''ASC'', ts))"

definition p_nulls :: "string parser" where
  "p_nulls ts =
     (if peek_keyword ''NULLS'' ts
      then rbind (expect_keyword [''FIRST'', ''LAST''] (tl ts)) (\<lambda>(t, r). Ok (tk_value t, r))
      else Ok (''LAST'', ts))"

definition p_order :: "order_by option parser" where
  "p_order ts =
     (if peek_keyword ''ORDER'' ts
      then rbind (expect_keyword [''BY''] (tl ts)) (\<lambda>(_, r).
           rbind (p_identifier r) (\<lambda>(f, r1).
           rbind (p_direction r1) (\<lambda>(d, r2).
           rbind (p_nulls r2) (\<lambda>(n, r3).
             Ok (Some \<lparr>ob_field = f, ob_direction = d, ob_nulls = n\<rparr>, r3)))))
      else Ok (None, ts))"

definition p_clause :: "string \<Rightarrow> int option parser" where
  "p_clause kw ts =
     (if peek_keyword kw ts then rbind (p_integer kw (tl ts)) (\<lambda>(n, r). Ok (Some n, r))
      else Ok (None, ts))"

definition parse_query :: "token list \<Rightarrow> soql_error + select_query" where
  "parse_query ts =
     rbind (expect_keyword [''SELECT''] ts) (\<lambda>(_, r).
     rbind (p_fields r) (\<lambda>(fs, r1).
     rbind (expect_keyword [''FROM''] r1) (\<lambda>(_, r2).
     rbind (p_identifier r2) (\<lambda>(obj, r3).
     rbind (p_where r3) (\<lambda>(ps, r4).
     rbind (p_order r4) (\<lambda>(ob, r5).
     rbind (p_clause ''LIMIT'' r5) (\<lambda>(lim, r6).
     rbind (p_clause ''OFFSET'' r6) (\<lambda>(off, r7).
       case r7 of
         t # _ \<Rightarrow> Err (UnexpectedToken (tk_value t) (tk_position t))
       | [] \<Rightarrow> Ok \<lparr>q_fields = fs, q_object = obj, q_predicates = ps, q_order_by = ob,
                  q_limit = lim, q_offset = (case off of None \<Rightarrow> 0 | Some n \<Rightarrow> n)\<rparr>))))))))"

definition parse_soql :: "string \<Rightarrow> soql_error + select_query" where
  "parse_soql s = rbind (tokenize s) parse_query"

end
