(* ===== verification/SoqlProps.thy ===== *)
theory SoqlProps
  imports Soql
begin

text \<open>
  The SOQL front end: a printer for the AST, the tokenizer on printed text, the parser on
  printed tokens, and from them that printing and parsing are inverse on every query the
  parser can return.
\<close>

section \<open>Printing\<close>

type_synonym lexeme = "token_kind \<times> string"

definition lexeme_text :: "lexeme \<Rightarrow> string" where
  "lexeme_text l = (case l of (k, v) \<Rightarrow>
     if k = STRING then CHR 0x27 # double_in (CHR 0x27) v @ [CHR 0x27] else v)"

definition literal_lexeme :: "literal \<Rightarrow> lexeme" where
  "literal_lexeme v = (case v of
     LStr s \<Rightarrow> (STRING, s) | LNull \<Rightarrow> (WORD, ''null'')
   | LBool b \<Rightarrow> (WORD, if b then ''true'' else ''false'')
   | LInt n \<Rightarrow> (WORD, int_str n) | LFloat t \<Rightarrow> (WORD, t))"

fun comma_lexemes :: "('a \<Rightarrow> lexeme) \<Rightarrow> 'a list \<Rightarrow> lexeme list" where
  "comma_lexemes f [] = []"
| "comma_lexemes f (x # xs) = (COMMA, '','') # f x # comma_lexemes f xs"

definition items_lexemes :: "('a \<Rightarrow> lexeme) \<Rightarrow> 'a list \<Rightarrow> lexeme list" where
  "items_lexemes f xs = (case xs of [] \<Rightarrow> [] | x # r \<Rightarrow> f x # comma_lexemes f r)"

definition kw :: "string \<Rightarrow> lexeme" where "kw v = (KEYWORD, v)"

definition fields_lexemes :: "string list \<Rightarrow> lexeme list" where
  "fields_lexemes fs = (if fs = [''*''] then [(STAR, ''*'')] else items_lexemes (Pair WORD) fs)"

fun predicate_lexemes :: "predicate \<Rightarrow> lexeme list" where
  "predicate_lexemes (Comparison f op v) =
     [(WORD, f), if op = ''LIKE'' then kw ''LIKE'' else (OPERATOR, op), literal_lexeme v]"
| "predicate_lexemes (InComparison f vs) =
     [(WORD, f), kw ''IN'', (LPAREN, ''('')] @ items_lexemes literal_lexeme vs @ [(RPAREN, '')'')]"

fun and_lexemes :: "predicate list \<Rightarrow> lexeme list" where
  "and_lexemes [] = []"
| "and_lexemes (p # ps) = kw ''AND'' # predicate_lexemes p @ and_lexemes ps"

definition where_lexemes :: "predicate list \<Rightarrow> lexeme list" where
  "where_lexemes ps = (case ps of [] \<Rightarrow> [] | p # r \<Rightarrow> kw ''WHERE'' # predicate_lexemes p @ and_lexemes r)"

definition order_lexemes :: "order_by option \<Rightarrow> lexeme list" where
  "order_lexemes ob = (case ob of None \<Rightarrow> [] | Some b \<Rightarrow>
     [kw ''ORDER'', kw ''BY'', (WORD, ob_field b), kw (ob_direction b), kw ''NULLS'', kw (ob_nulls b)])"

definition clause_lexemes :: "string \<Rightarrow> int option \<Rightarrow> lexeme list" where
  "clause_lexemes w n = (case n of None \<Rightarrow> [] | Some i \<Rightarrow> [kw w, (WORD, int_str i)])"

definition query_lexemes :: "select_query \<Rightarrow> lexeme list" where
  "query_lexemes q = kw ''SELECT'' # fields_lexemes (q_fields q) @ [kw ''FROM'', (WORD, q_object q)]
     @ where_lexemes (q_predicates q) @ order_lexemes (q_order_by q)
     @ clause_lexemes ''LIMIT'' (q_limit q) @ clause_lexemes ''OFFSET'' (Some (q_offset q))"

definition lexemes_text :: "lexeme list \<Rightarrow> string" where
  "lexemes_text ls = concat (map (\<lambda>l. lexeme_text l @ '' '') ls)"

definition print_query :: "select_query \<Rightarrow> string" where
  "print_query q = lexemes_text (query_lexemes q)"

section \<open>Printable queries\<close>

definition word_text :: "string \<Rightarrow> bool" where
  "word_text v \<longleftrightarrow> v \<noteq> [] \<and> list_all word_char v \<and> str_upper v \<notin> set soql_keywords"

definition literal_ok :: "literal \<Rightarrow> bool" where
  "literal_ok v = (case v of LFloat t \<Rightarrow> numeric_literal t \<and> float_marked t | _ \<Rightarrow> True)"

fun predicate_ok :: "predicate \<Rightarrow> bool" where
  "predicate_ok (Comparison f op v) \<longleftrightarrow> word_text f \<and> (op = ''LIKE'' \<or> op \<in> set operators) \<and> literal_ok v"
| "predicate_ok (InComparison f vs) \<longleftrightarrow> word_text f \<and> vs \<noteq> [] \<and> list_all literal_ok vs"

definition order_ok :: "order_by \<Rightarrow> bool" where
  "order_ok b \<longleftrightarrow> word_text (ob_field b) \<and> ob_direction b \<in> {''ASC'', ''DESC''}
     \<and> ob_nulls b \<in> {''FIRST'', ''LAST''}"

definition query_ok :: "select_query \<Rightarrow> bool" where
  "query_ok q \<longleftrightarrow> (q_fields q = [''*''] \<or> q_fields q \<noteq> [] \<and> list_all word_text (q_fields q))
     \<and> word_text (q_object q) \<and> list_all predicate_ok (q_predicates q)
     \<and> (\<forall>b. q_order_by q = Some b \<longrightarrow> order_ok b)
     \<and> (\<forall>n. q_limit q = Some n \<longrightarrow> 0 \<le> n) \<and> 0 \<le> q_offset q"

definition lexeme_ok :: "lexeme \<Rightarrow> bool" where
  "lexeme_ok l = (case l of (k, v) \<Rightarrow>
     (case k of
        STRING \<Rightarrow> True
      | COMMA \<Rightarrow> v = '','' | LPAREN \<Rightarrow> v = ''('' | RPAREN \<Rightarrow> v = '')'' | STAR \<Rightarrow> v = ''*''
      | OPERATOR \<Rightarrow> v \<in> set operators
      | KEYWORD \<Rightarrow> v \<in> set soql_keywords
      | WORD \<Rightarrow> word_text v))"

section \<open>The tokenizer on printed text\<close>

fun place :: "nat \<Rightarrow> lexeme list \<Rightarrow> token list" where
  "place i [] = []"
| "place i (l # ls) = \<lparr>tk_kind = fst l, tk_value = snd l, tk_position = i\<rparr>
     # place (i + length (lexeme_text l) + 1) ls"

lemma is_space_blank [simp]: "is_space (CHR '' '')"
  by (simp add: is_space_def chr_between_def)

lemma not_word_char_blank [simp]: "\<not> word_char (CHR '' '')"
  by (simp add: word_char_def)

lemma scan_string_quoted:
  "rest = [] \<or> hd rest \<noteq> CHR 0x27 \<Longrightarrow>
   scan_string (double_in (CHR 0x27) v @ CHR 0x27 # rest) =
     Some (v, length (double_in (CHR 0x27) v) + 1)"
  by (induction v) (auto split: list.splits)

lemma keyword_words: "v \<in> set soql_keywords \<Longrightarrow> v \<noteq> [] \<and> list_all word_char v \<and> str_upper v = v"
  unfolding soql_keywords_def
  by (simp only: set_simps insert_iff empty_iff disj_not1 HOL.simp_thms)
    (elim disjE; hypsubst; code_simp)

declare tokenize_at.simps(2) [simp del]

lemma tokenize_word:
  assumes "v \<noteq> []" "list_all word_char v" "rest = [] \<or> \<not> word_char (hd rest)"
  shows "tokenize_at i (v @ rest) = cons_token (word_token v i) (tokenize_at (i + length v) rest)"
proof -
  obtain c cs where v: "v = c # cs" using assms(1) by (cases v) auto
  have tw: "takeWhile word_char (v @ rest) = v"
    using assms(2,3) by (subst takeWhile_append2) (auto simp: list_all_iff takeWhile_eq_Nil_iff)
  have c: "\<not> is_space c" "c \<noteq> CHR 0x27" "punctuation c = None" "\<not> operator_char c"
    using assms(2) v by (auto simp: word_char_def)
  show ?thesis
    using tw v c by (simp add: Let_def tokenize_at.simps(2))
qed

lemma tokenize_punct:
  "punctuation c = Some k \<Longrightarrow> tokenize_at i (c # rest) =
     cons_token \<lparr>tk_kind = k, tk_value = [c], tk_position = i\<rparr> (tokenize_at (Suc i) rest)"
  by (auto simp: tokenize_at.simps(2) punctuation_def is_space_def chr_between_def split: if_splits)

lemma tokenize_operator:
  assumes "op \<in> set operators"
  shows "tokenize_at i (op @ CHR '' '' # rest) =
     cons_token \<lparr>tk_kind = OPERATOR, tk_value = op, tk_position = i\<rparr>
       (tokenize_at (i + length op) (CHR '' '' # rest))"
proof -
  from assms have "op = ''='' \<or> op = ''!='' \<or> op = ''>'' \<or> op = ''>='' \<or> op = ''<'' \<or> op = ''<=''"
    by (simp add: operators_def)
  then show ?thesis
    by (elim disjE; hypsubst; subst append.simps, subst tokenize_at.simps(2))
      (simp_all add: operators_def operator_at_def operator_char_def punctuation_def is_space_def
        chr_between_def Let_def tokenize_at.simps(2))
qed

lemma tokenize_blank [simp]: "tokenize_at i (CHR '' '' # rest) = tokenize_at (Suc i) rest"
  by (simp add: tokenize_at.simps(2))

lemma tokenize_quoted:
  assumes "rest = [] \<or> hd rest \<noteq> CHR 0x27"
  shows "tokenize_at i (lexeme_text (STRING, v) @ rest) =
     cons_token \<lparr>tk_kind = STRING, tk_value = v, tk_position = i\<rparr>
       (tokenize_at (i + length (lexeme_text (STRING, v))) rest)"
  using scan_string_quoted [OF assms, of v]
  by (simp add: lexeme_text_def tokenize_at.simps(2) is_space_def chr_between_def)

lemma tokenize_lexeme:
  assumes "lexeme_ok l"
  shows "tokenize_at i (lexeme_text l @ CHR '' '' # rest) =
     cons_token \<lparr>tk_kind = fst l, tk_value = snd l, tk_position = i\<rparr>
       (tokenize_at (i + length (lexeme_text l) + 1) rest)"
proof -
  obtain k v where l: "l = (k, v)" by (cases l)
  have word: ?thesis if "k \<noteq> STRING" "v \<noteq> []" "list_all word_char v"
      "word_token v i = \<lparr>tk_kind = k, tk_value = v, tk_position = i\<rparr>"
    using tokenize_word [of v "CHR '' '' # rest" i] that l by (simp add: lexeme_text_def)
  have punct: ?thesis if "k \<noteq> STRING" "v = [c]" "punctuation c = Some k" for c
    using tokenize_punct [OF that(3)] that l by (simp add: lexeme_text_def)
  show ?thesis
  proof (cases k)
    case STRING
    with l show ?thesis using tokenize_quoted [of "CHR '' '' # rest" i v] by simp
  next
    case OPERATOR
    with l assms show ?thesis
      using tokenize_operator [of v i rest] by (simp add: lexeme_ok_def lexeme_text_def)
  next
    case KEYWORD
    with l assms show ?thesis
      by (intro word) (use keyword_words [of v] in \<open>auto simp: lexeme_ok_def word_token_def Let_def\<close>)
  next
    case WORD
    with l assms show ?thesis
      by (intro word) (auto simp: lexeme_ok_def word_text_def word_token_def Let_def)
  qed (use l assms punct in \<open>auto simp: lexeme_ok_def punctuation_def\<close>)
qed

lemma tokenize_lexemes:
  "list_all lexeme_ok ls \<Longrightarrow> tokenize_at i (lexemes_text ls) = Ok (place i ls)"
proof (induction ls arbitrary: i)
  case (Cons l ls)
  then show ?case
    using tokenize_lexeme [of l i "lexemes_text ls"]
    by (simp add: lexemes_text_def cons_token_def)
qed (simp add: lexemes_text_def)

section \<open>Numeric words\<close>

definition numeric_char :: "char \<Rightarrow> bool" where
  "numeric_char c \<longleftrightarrow> c \<in> set ''0123456789-+.eE''"

lemma numeric_char_digit: "is_digit c \<Longrightarrow> numeric_char c"
  unfolding digit_chars numeric_char_def by auto

lemma numeric_char_marks [simp]:
  "numeric_char (CHR ''-'')" "numeric_char (CHR ''+'')" "numeric_char (CHR ''.'')"
  "numeric_char (CHR ''e'')" "numeric_char (CHR ''E'')"
  by (simp_all add: numeric_char_def)

lemma numeric_word_char: "numeric_char c \<Longrightarrow> word_char c"
proof -
  have "list_all word_char ''0123456789-+.eE''" by code_simp
  then show "numeric_char c \<Longrightarrow> word_char c" by (simp only: list_all_iff numeric_char_def)
qed

definition numeric_start :: "char \<Rightarrow> bool" where
  "numeric_start c \<longleftrightarrow> is_digit c \<or> c = CHR ''.'' \<or> c = CHR ''-''"

lemma numeric_start_chars: "numeric_start c \<longleftrightarrow> c \<in> set ''0123456789.-''"
  unfolding numeric_start_def digit_chars by auto

lemma upper_numeric_start: "numeric_start c \<Longrightarrow> upper_char c = c"
proof -
  have "list_all (\<lambda>c. upper_char c = c) ''0123456789.-''" by code_simp
  then show "numeric_start c \<Longrightarrow> upper_char c = c" by (simp only: list_all_iff numeric_start_chars)
qed

lemma exponent_chars: "exponent_ok s \<Longrightarrow> list_all numeric_char s"
proof (cases s)
  case (Cons e r)
  assume ok: "exponent_ok s"
  with Cons obtain d r' where r: "r = d # r'" and e: "e = CHR ''e'' \<or> e = CHR ''E''"
    by (auto simp: exponent_ok_def split: list.splits)
  from ok Cons r have "is_decimal (if d = CHR ''+'' \<or> d = CHR ''-'' then r' else r)"
    by (auto simp: exponent_ok_def)
  then have "list_all numeric_char r"
    by (auto simp: r is_decimal_def list_all_iff numeric_char_digit split: if_splits)
  with e Cons show ?thesis by auto
qed simp

lemma takeWhile_digits: "list_all numeric_char (takeWhile is_digit s)"
  by (auto simp: list_all_iff numeric_char_digit dest: set_takeWhileD)

lemma chars_by_digits:
  "list_all numeric_char (dropWhile is_digit s) \<Longrightarrow> list_all numeric_char s"
  using takeWhile_digits [of s] by (metis list_all_append takeWhile_dropWhile_id)

lemma mantissa_cases:
  assumes "mantissa_ok s"
  obtains "dropWhile is_digit s = []"
  | r where "dropWhile is_digit s = CHR ''.'' # r" "exponent_ok (dropWhile is_digit r)"
  | "exponent_ok (dropWhile is_digit s)"
  using assms by (auto simp: mantissa_ok_def Let_def split: list.splits if_splits)

lemma mantissa_chars: "mantissa_ok s \<Longrightarrow> list_all numeric_char s"
proof (erule mantissa_cases)
  fix r assume r: "dropWhile is_digit s = CHR ''.'' # r" "exponent_ok (dropWhile is_digit r)"
  then have "list_all numeric_char r" using chars_by_digits exponent_chars by blast
  with r(1) show "list_all numeric_char s" using chars_by_digits [of s] by simp
next
  show "exponent_ok (dropWhile is_digit s) \<Longrightarrow> list_all numeric_char s"
    by (rule chars_by_digits, erule exponent_chars)
qed (auto simp: list_all_iff numeric_char_digit)

lemma mantissa_head:
  assumes "mantissa_ok s"
  obtains c cs where "s = c # cs" "numeric_start c"
proof (cases s)
  case (Cons c cs)
  with assms that show ?thesis
    by (auto simp: mantissa_ok_def Let_def numeric_start_def split: if_splits)
qed (use assms in \<open>auto simp: mantissa_ok_def\<close>)

lemma numeric_cases:
  assumes "numeric_literal s"
  obtains "mantissa_ok s" | r where "s = CHR ''-'' # r" "mantissa_ok r"
proof (cases s)
  case Nil
  with assms that show ?thesis by (simp add: numeric_literal_def)
next
  case (Cons c r)
  with assms that show ?thesis by (cases "c = CHR ''-''") (auto simp: numeric_literal_def)
qed

lemma numeric_chars: "numeric_literal s \<Longrightarrow> list_all numeric_char s"
  by (erule numeric_cases) (simp_all add: mantissa_chars)

lemma numeric_head:
  assumes "numeric_literal s"
  obtains c cs where "s = c # cs" "numeric_start c"
proof (rule numeric_cases [OF assms])
  assume "mantissa_ok s"
  then show ?thesis by (rule mantissa_head) (rule that)
next
  fix r assume "s = CHR ''-'' # r"
  then show ?thesis by (rule that) (simp add: numeric_start_def)
qed

definition named_words :: "string list" where
  "named_words = [''NULL'', ''TRUE'', ''FALSE''] @ soql_keywords"

lemma numeric_not_named:
  assumes "numeric_literal s"
  shows "str_upper s \<notin> set named_words"
proof
  assume named: "str_upper s \<in> set named_words"
  from assms obtain c cs where s: "s = c # cs" "numeric_start c" by (rule numeric_head)
  then have up: "hd (str_upper s) = c" by (simp add: str_upper_def upper_numeric_start)
  have "list_all (\<lambda>w. \<not> numeric_start (hd w)) named_words" by code_simp
  with named up s(2) show False by (auto simp: list_all_iff)
qed

lemma numeric_word_text: "numeric_literal s \<Longrightarrow> word_text s"
  using numeric_chars [of s] numeric_not_named [of s]
  by (auto simp: word_text_def named_words_def list_all_iff numeric_word_char elim: numeric_head)

lemma digits_mantissa: "is_decimal s \<Longrightarrow> mantissa_ok s"
proof -
  assume d: "is_decimal s"
  then have all: "\<forall>x \<in> set s. is_digit x" "s \<noteq> []" by (simp_all add: is_decimal_def list_all_iff)
  then have dw: "dropWhile is_digit s = []" and tw: "takeWhile is_digit s = s" by simp_all
  show ?thesis unfolding mantissa_ok_def Let_def dw tw using all by simp
qed

lemma digits_not_marked: "list_all is_digit s \<Longrightarrow> \<not> float_marked s"
proof -
  have "\<not> is_digit (CHR ''.'')" "\<not> is_digit (CHR ''e'')" "\<not> is_digit (CHR ''E'')" by code_simp+
  then show "list_all is_digit s \<Longrightarrow> \<not> float_marked s" by (auto simp: list_all_iff float_marked_def)
qed

lemma int_str_numeric: "numeric_literal (int_str n)" "\<not> float_marked (int_str n)"
proof -
  have m: "mantissa_ok (nat_digits k)" for k by (simp add: digits_mantissa)
  have h: "nat_digits k = c # cs \<Longrightarrow> c \<noteq> CHR ''-''" for k c cs
    using nat_digits_all [of k] by (auto dest: is_digit_imp)
  have f: "\<not> float_marked (nat_digits k)" for k by (simp add: digits_not_marked nat_digits_all)
  show "numeric_literal (int_str n)"
    using m [of "nat n"] m [of "nat (- n)"] h by (auto simp: int_str_def numeric_literal_def split: list.splits)
  show "\<not> float_marked (int_str n)"
    using f [of "nat n"] f [of "nat (- n)"] by (auto simp: int_str_def float_marked_def)
qed

lemma literal_of_numeric:
  "numeric_literal s \<Longrightarrow> literal_of_word s =
     (if float_marked s then LFloat s else (case py_int s of None \<Rightarrow> LStr s | Some n \<Rightarrow> LInt n))"
  using numeric_not_named [of s] by (auto simp: literal_of_word_def named_words_def Let_def)

lemma literal_of_int_str [simp]: "literal_of_word (int_str n) = LInt n"
  by (simp add: literal_of_numeric int_str_numeric)

section \<open>The parser on printed tokens\<close>

definition strip_pos :: "token list \<Rightarrow> lexeme list" where
  "strip_pos ts = map (\<lambda>t. (tk_kind t, tk_value t)) ts"

lemma strip_place [simp]: "strip_pos (place i ls) = ls"
  by (induction ls arbitrary: i) (auto simp: strip_pos_def)

lemma strip_Nil [simp]: "strip_pos ts = [] \<longleftrightarrow> ts = []" "[] = strip_pos ts \<longleftrightarrow> ts = []"
  by (auto simp: strip_pos_def)

lemma strip_ConsE:
  assumes "strip_pos ts = l # r"
  obtains t ts' where "ts = t # ts'" "tk_kind t = fst l" "tk_value t = snd l" "strip_pos ts' = r"
  using assms by (cases ts) (auto simp: strip_pos_def)

lemma length_strip: "length ts = length (strip_pos ts)"
  by (simp add: strip_pos_def)

lemma peek_kind_strip: "peek_kind k ts = (case strip_pos ts of [] \<Rightarrow> False | l # _ \<Rightarrow> fst l = k)"
  by (cases ts) (simp_all add: peek_kind_def strip_pos_def)

lemma peek_keyword_strip:
  "peek_keyword v ts = (case strip_pos ts of [] \<Rightarrow> False | l # _ \<Rightarrow> l = (KEYWORD, v))"
  by (cases ts) (simp_all add: peek_keyword_def strip_pos_def)

text \<open>On tokens that begin with the lexemes \<open>ls\<close> and go on with a tail that satisfies
  \<open>F\<close>, the parser returns \<open>x\<close> and leaves the tail.\<close>

definition reads :: "'a parser \<Rightarrow> lexeme list \<Rightarrow> 'a \<Rightarrow> (lexeme list \<Rightarrow> bool) \<Rightarrow> bool" where
  "reads p ls x F \<longleftrightarrow> (\<forall>ts r. strip_pos ts = ls @ r \<longrightarrow> F r \<longrightarrow>
     (\<exists>ts'. p ts = Ok (x, ts') \<and> strip_pos ts' = r))"

lemma readsI:
  "(\<And>ts r. strip_pos ts = ls @ r \<Longrightarrow> F r \<Longrightarrow> \<exists>ts'. p ts = Ok (x, ts') \<and> strip_pos ts' = r) \<Longrightarrow> reads p ls x F"
  by (simp add: reads_def)

lemma readsE:
  assumes "reads p ls x F" "strip_pos ts = ls @ r" "F r"
  obtains ts' where "p ts = Ok (x, ts')" "strip_pos ts' = r"
  using assms by (auto simp: reads_def)

abbreviation any_tail :: "lexeme list \<Rightarrow> bool" where "any_tail \<equiv> \<lambda>_. True"

definition no_kind :: "token_kind \<Rightarrow> lexeme list \<Rightarrow> bool" where
  "no_kind k r = (case r of [] \<Rightarrow> True | l # _ \<Rightarrow> fst l \<noteq> k)"

definition no_kw :: "string list \<Rightarrow> lexeme list \<Rightarrow> bool" where
  "no_kw vs r = (case r of [] \<Rightarrow> True | l # _ \<Rightarrow> \<not> (fst l = KEYWORD \<and> snd l \<in> set vs))"

lemma reads_expect: "reads (\<lambda>ts. rbind (expect k ts) (\<lambda>(t, r). Ok (tk_value t, r))) [(k, v)] v any_tail"
  by (rule readsI) (auto elim!: strip_ConsE simp: expect_def advance_def)

lemma reads_identifier: "reads p_identifier [(WORD, v)] v any_tail"
  using reads_expect [of WORD v] by (simp add: p_identifier_def [abs_def])

lemma reads_literal: "literal_ok v \<Longrightarrow> reads p_literal [literal_lexeme v] v any_tail"
proof (rule readsI)
  fix ts r assume ok: "literal_ok v" and ts: "strip_pos ts = [literal_lexeme v] @ r"
  have "literal_of_word ''null'' = LNull" "literal_of_word ''true'' = LBool True"
    "literal_of_word ''false'' = LBool False" by code_simp+
  with ok ts show "\<exists>ts'. p_literal ts = Ok (v, ts') \<and> strip_pos ts' = r"
    by (cases v) (auto elim!: strip_ConsE simp: p_literal_def advance_def literal_lexeme_def
      literal_ok_def literal_of_numeric)
qed

lemma reads_more:
  assumes "\<And>x. x \<in> set xs \<Longrightarrow> reads p [f x] x any_tail" "length xs \<le> n"
  shows "reads (p_more n p) (comma_lexemes f xs) xs (no_kind COMMA)"
  using assms
proof (induction xs arbitrary: n)
  case Nil
  show ?case
    by (rule readsI, cases n) (auto simp: peek_kind_strip no_kind_def split: list.splits)
next
  case (Cons x xs)
  then obtain m where n: "n = Suc m" by (cases n) auto
  show ?case
  proof (rule readsI)
    fix ts r assume ts: "strip_pos ts = comma_lexemes f (x # xs) @ r" and F: "no_kind COMMA r"
    from ts have "strip_pos ts = (COMMA, '','') # ([f x] @ comma_lexemes f xs @ r)" by simp
    then obtain t ts1 where t: "ts = t # ts1" "tk_kind t = COMMA"
      and ts1: "strip_pos ts1 = [f x] @ comma_lexemes f xs @ r" by (rule strip_ConsE) simp
    obtain ts2 where x: "p ts1 = Ok (x, ts2)" and ts2: "strip_pos ts2 = comma_lexemes f xs @ r"
      using Cons.prems(1) [of x] ts1 by (auto elim: readsE)
    have "reads (p_more m p) (comma_lexemes f xs) xs (no_kind COMMA)"
      using Cons n by simp
    then obtain ts3 where "p_more m p ts2 = Ok (xs, ts3)" "strip_pos ts3 = r"
      using ts2 F by (auto elim: readsE)
    with t x show "\<exists>ts'. p_more n p ts = Ok (x # xs, ts') \<and> strip_pos ts' = r"
      by (simp add: n peek_kind_def)
  qed
qed

lemma length_comma_lexemes: "length (comma_lexemes f xs) = 2 * length xs"
  by (induction xs) auto

lemma reads_items:
  assumes "\<And>x. x \<in> set xs \<Longrightarrow> reads p [f x] x any_tail" "xs \<noteq> []"
  shows "reads (p_items p) (items_lexemes f xs) xs (no_kind COMMA)"
proof -
  obtain y ys where xs: "xs = y # ys" using assms(2) by (cases xs) auto
  show ?thesis
  proof (rule readsI)
    fix ts r assume ts: "strip_pos ts = items_lexemes f xs @ r" and F: "no_kind COMMA r"
    obtain ts1 where y: "p ts = Ok (y, ts1)" and ts1: "strip_pos ts1 = comma_lexemes f ys @ r"
      using assms(1) [of y] ts by (auto simp: xs items_lexemes_def elim: readsE)
    have "reads (p_more (length ts1) p) (comma_lexemes f ys) ys (no_kind COMMA)"
      by (rule reads_more)
        (use assms(1) in \<open>auto simp: xs length_strip [of ts1] ts1 length_comma_lexemes\<close>)
    then obtain ts2 where "p_more (length ts1) p ts1 = Ok (ys, ts2)" "strip_pos ts2 = r"
      using ts1 F by (auto elim: readsE)
    with y show "\<exists>ts'. p_items p ts = Ok (xs, ts') \<and> strip_pos ts' = r"
      by (simp add: p_items_def xs)
  qed
qed

lemma reads_bind:
  assumes "reads p l1 x F1" "reads (k x) l2 y F2" "\<And>r. F2 r \<Longrightarrow> F1 (l2 @ r)" "ls = l1 @ l2"
  shows "reads (\<lambda>ts. rbind (p ts) (case_prod k)) ls y F2"
proof (rule readsI)
  fix ts r assume ts: "strip_pos ts = ls @ r" and F: "F2 r"
  obtain ts1 where 1: "p ts = Ok (x, ts1)" "strip_pos ts1 = l2 @ r"
    using assms ts F by (auto elim: readsE)
  obtain ts2 where "k x ts1 = Ok (y, ts2)" "strip_pos ts2 = r"
    using assms(2) 1(2) F by (auto elim: readsE)
  with 1 show "\<exists>ts'. rbind (p ts) (case_prod k) = Ok (y, ts') \<and> strip_pos ts' = r" by simp
qed

lemma reads_ret: "reads (\<lambda>ts. Ok (y, ts)) [] y F"
  by (rule readsI) simp

lemma reads_map: "reads p ls x F \<Longrightarrow> reads (\<lambda>ts. rbind (p ts) (\<lambda>(x, r). Ok (g x, r))) ls (g x) F"
  by (fastforce simp: reads_def)

lemma reads_if_kw:
  "reads p ls x F \<Longrightarrow> reads (\<lambda>ts. if peek_keyword v ts then p (tl ts) else q ts) (kw v # ls) x F"
  by (rule readsI) (auto elim!: strip_ConsE readsE simp: peek_keyword_def kw_def)

lemma reads_unless_kw:
  assumes "reads q ls x F" "\<And>r. F r \<Longrightarrow> no_kw [v] (ls @ r)"
  shows "reads (\<lambda>ts. if peek_keyword v ts then p (tl ts) else q ts) ls x F"
proof (rule readsI)
  fix ts r assume ts: "strip_pos ts = ls @ r" and F: "F r"
  have "\<not> peek_keyword v ts" using assms(2) [OF F]
    by (auto simp: peek_keyword_strip ts no_kw_def split: list.splits)
  with assms(1) ts F show "\<exists>ts'. (if peek_keyword v ts then p (tl ts) else q ts) = Ok (x, ts') \<and> strip_pos ts' = r"
    by (auto elim: readsE)
qed

lemma reads_weaken: "reads p ls x F \<Longrightarrow> (\<And>r. G r \<Longrightarrow> F r) \<Longrightarrow> reads p ls x G"
  by (simp add: reads_def)

lemma reads_expect_kw:
  "v \<in> set vs \<Longrightarrow> reads (\<lambda>ts. rbind (expect_keyword vs ts) (\<lambda>(t, r). Ok (tk_value t, r))) [kw v] v any_tail"
  by (rule readsI) (auto elim!: strip_ConsE simp: expect_keyword_def advance_def kw_def)

lemma reads_after_expect:
  assumes "reads p ls x F"
  shows "reads (\<lambda>ts. rbind (expect k ts) (\<lambda>(t, r). p r)) ((k, v) # ls) x F"
proof (rule readsI)
  fix ts r assume ts: "strip_pos ts = ((k, v) # ls) @ r" and F: "F r"
  from ts have "strip_pos ts = (k, v) # (ls @ r)" by simp
  then obtain t ts1 where "ts = t # ts1" "tk_kind t = k" "strip_pos ts1 = ls @ r"
    by (rule strip_ConsE) simp
  with assms F show "\<exists>ts'. rbind (expect k ts) (\<lambda>(t, r). p r) = Ok (x, ts') \<and> strip_pos ts' = r"
    by (auto simp: expect_def advance_def reads_def)
qed

lemma reads_after_kw:
  assumes "reads p ls x F" "v \<in> set vs"
  shows "reads (\<lambda>ts. rbind (expect_keyword vs ts) (\<lambda>(t, r). p r)) (kw v # ls) x F"
proof (rule readsI)
  fix ts r assume ts: "strip_pos ts = (kw v # ls) @ r" and F: "F r"
  from ts have "strip_pos ts = kw v # (ls @ r)" by simp
  then obtain t ts1 where "ts = t # ts1" "tk_kind t = KEYWORD" "tk_value t = v" "strip_pos ts1 = ls @ r"
    by (rule strip_ConsE) (simp add: kw_def)
  with assms F show "\<exists>ts'. rbind (expect_keyword vs ts) (\<lambda>(t, r). p r) = Ok (x, ts') \<and> strip_pos ts' = r"
    by (auto simp: expect_keyword_def advance_def reads_def)
qed

lemma no_kind_simps [simp]:
  "no_kind k []" "no_kind k (l # r) \<longleftrightarrow> fst l \<noteq> k"
  "no_kw vs []" "no_kw vs (l # r) \<longleftrightarrow> \<not> (fst l = KEYWORD \<and> snd l \<in> set vs)"
  "fst (kw v) = KEYWORD" "snd (kw v) = v"
  by (simp_all add: no_kind_def no_kw_def kw_def)

lemma reads_fields:
  assumes "fs = [''*''] \<or> fs \<noteq> [] \<and> list_all word_text fs"
  shows "reads p_fields (fields_lexemes fs) fs (no_kind COMMA)"
proof (rule readsI)
  fix ts r assume ts: "strip_pos ts = fields_lexemes fs @ r" and F: "no_kind COMMA r"
  show "\<exists>ts'. p_fields ts = Ok (fs, ts') \<and> strip_pos ts' = r"
  proof (cases "fs = [''*'']")
    case True
    with ts show ?thesis
      by (auto simp: fields_lexemes_def p_fields_def peek_kind_def elim!: strip_ConsE)
  next
    case False
    with assms have fs: "fs \<noteq> []" by simp
    with False ts F have "\<not> peek_kind STAR ts"
      by (cases fs) (auto simp: fields_lexemes_def items_lexemes_def peek_kind_def elim!: strip_ConsE)
    moreover have "reads (p_items p_identifier) (items_lexemes (Pair WORD) fs) fs (no_kind COMMA)"
      by (rule reads_items) (simp_all add: reads_identifier fs)
    ultimately show ?thesis
      using ts F False by (auto simp: p_fields_def fields_lexemes_def elim: readsE)
  qed
qed

lemma reads_predicate: "predicate_ok p \<Longrightarrow> reads p_predicate (predicate_lexemes p) p any_tail"
proof (cases p)
  case (Comparison f op v)
  assume ok: "predicate_ok p"
  have lit: "reads (\<lambda>ts. rbind (p_literal ts) (\<lambda>(x, r). Ok (Comparison f g x, r))) [literal_lexeme v]
      (Comparison f g v) any_tail" for g
    using ok Comparison by (intro reads_map reads_literal) simp
  let ?oper = "\<lambda>ts. rbind (expect OPERATOR ts) (\<lambda>(op, r1).
      rbind (p_literal r1) (\<lambda>(v, r2). Ok (Comparison f (tk_value op) v, r2)))"
  have oper: "reads ?oper [(OPERATOR, op), literal_lexeme v] (Comparison f op v) any_tail"
  proof (rule readsI)
    fix ts r assume "strip_pos ts = [(OPERATOR, op), literal_lexeme v] @ r"
    then have "strip_pos ts = (OPERATOR, op) # ([literal_lexeme v] @ r)" by simp
    then obtain t ts1 where "ts = t # ts1" "tk_kind t = OPERATOR" "tk_value t = op"
      "strip_pos ts1 = [literal_lexeme v] @ r" by (rule strip_ConsE) simp
    with lit [of op] show "\<exists>ts'. ?oper ts = Ok (Comparison f op v, ts') \<and> strip_pos ts' = r"
      by (auto simp: expect_def advance_def elim: readsE)
  qed
  show ?thesis
  proof (cases "op = ''LIKE''")
    case True
    with lit [of "''LIKE''"] have like: "reads (\<lambda>ts. if peek_keyword ''LIKE'' ts
        then (\<lambda>ts. rbind (p_literal ts) (\<lambda>(x, r). Ok (Comparison f ''LIKE'' x, r))) (tl ts) else ?oper ts)
      [kw ''LIKE'', literal_lexeme v] p any_tail"
      using Comparison by (intro reads_if_kw) simp
    show ?thesis
      unfolding p_predicate_def [abs_def]
      by (rule reads_bind [OF reads_identifier [of f]], rule reads_unless_kw, rule like)
        (simp_all add: Comparison True kw_def)
  next
    case False
    with oper Comparison show ?thesis
      unfolding p_predicate_def [abs_def]
      by (auto intro!: reads_bind [OF reads_identifier, where x = f] reads_unless_kw)
  qed
next
  case (InComparison f vs)
  assume ok: "predicate_ok p"
  have "reads (p_items p_literal) (items_lexemes literal_lexeme vs) vs (no_kind COMMA)"
    by (rule reads_items) (use ok InComparison in \<open>auto simp: list_all_iff intro: reads_literal\<close>)
  moreover have "reads (\<lambda>r2. rbind (expect RPAREN r2) (\<lambda>(_, r3). Ok (InComparison f vs, r3)))
     [(RPAREN, '')'')] (InComparison f vs) any_tail"
    by (rule reads_after_expect) (rule reads_ret)
  ultimately have "reads (\<lambda>ts. rbind (p_items p_literal ts) (\<lambda>(vs, r2).
       rbind (expect RPAREN r2) (\<lambda>(_, r3). Ok (InComparison f vs, r3))))
     (items_lexemes literal_lexeme vs @ [(RPAREN, '')'')]) (InComparison f vs) any_tail"
    by (rule reads_bind) auto
  with InComparison show ?thesis
    unfolding p_predicate_def [abs_def]
    by (auto intro!: reads_bind [OF reads_identifier, where x = f] reads_if_kw reads_after_expect)
qed

lemma length_and_lexemes: "length ps \<le> length (and_lexemes ps)"
  by (induction ps) auto

lemma reads_and:
  assumes "list_all predicate_ok ps" "length ps \<le> n"
  shows "reads (p_and n) (and_lexemes ps) ps (no_kw [''AND''])"
  using assms
proof (induction ps arbitrary: n)
  case Nil
  show ?case
    by (rule readsI, cases n) (auto simp: peek_keyword_strip no_kw_def split: list.splits)
next
  case (Cons p ps)
  then obtain m where n: "n = Suc m" by (cases n) auto
  have tail: "reads (p_and m) (and_lexemes ps) ps (no_kw [''AND''])" using Cons n by simp
  have one: "reads (\<lambda>ts. rbind (p_predicate ts) (\<lambda>(p, r). rbind (p_and m r) (\<lambda>(ps, r'). Ok (p # ps, r'))))
      (predicate_lexemes p @ and_lexemes ps) (p # ps) (no_kw [''AND''])"
    by (rule reads_bind [OF reads_predicate]) (use Cons.prems in \<open>auto intro: reads_map [OF tail]\<close>)
  have "reads (\<lambda>ts. if peek_keyword ''AND'' ts
      then (\<lambda>ts. rbind (p_predicate ts) (\<lambda>(p, r). rbind (p_and m r) (\<lambda>(ps, r'). Ok (p # ps, r')))) (tl ts)
      else Ok ([], ts)) (kw ''AND'' # predicate_lexemes p @ and_lexemes ps) (p # ps) (no_kw [''AND''])"
    by (rule reads_if_kw [OF one])
  then show ?case by (simp add: n reads_def)
qed

lemma reads_where:
  assumes "list_all predicate_ok ps"
  shows "reads p_where (where_lexemes ps) ps (no_kw [''WHERE'', ''AND''])"
proof (cases ps)
  case Nil
  then show ?thesis
    by (intro readsI) (auto simp: p_where_def where_lexemes_def peek_keyword_strip no_kw_def split: list.splits)
next
  case (Cons p qs)
  show ?thesis
  proof (rule readsI)
    fix ts r assume ts: "strip_pos ts = where_lexemes ps @ r" and F: "no_kw [''WHERE'', ''AND''] r"
    from ts have "strip_pos ts = kw ''WHERE'' # (predicate_lexemes p @ and_lexemes qs @ r)"
      by (simp add: Cons where_lexemes_def)
    then obtain t ts1 where t: "ts = t # ts1" "tk_kind t = KEYWORD" "tk_value t = ''WHERE''"
      and ts1: "strip_pos ts1 = predicate_lexemes p @ and_lexemes qs @ r"
      by (rule strip_ConsE) (simp add: kw_def)
    have "predicate_ok p" using assms Cons by simp
    then obtain ts2 where p: "p_predicate ts1 = Ok (p, ts2)" and ts2: "strip_pos ts2 = and_lexemes qs @ r"
      using ts1 by (auto elim: readsE [OF reads_predicate])
    have "reads (p_and (length ts2)) (and_lexemes qs) qs (no_kw [''AND''])"
      by (rule reads_and) (use assms Cons length_and_lexemes [of qs] in \<open>simp_all add: length_strip [of ts2] ts2\<close>)
    moreover have "no_kw [''AND''] r" using F by (cases r) auto
    ultimately obtain ts3 where "p_and (length ts2) ts2 = Ok (qs, ts3)" "strip_pos ts3 = r"
      using ts2 by (auto elim: readsE)
    with t p Cons show "\<exists>ts'. p_where ts = Ok (ps, ts') \<and> strip_pos ts' = r"
      by (simp add: p_where_def peek_keyword_def)
  qed
qed

lemma reads_order:
  assumes "\<forall>b. ob = Some b \<longrightarrow> order_ok b"
  shows "reads p_order (order_lexemes ob) ob (no_kw [''ORDER''])"
proof (cases ob)
  case None
  then show ?thesis
    by (intro readsI) (auto simp: p_order_def order_lexemes_def peek_keyword_strip no_kw_def split: list.splits)
next
  case (Some b)
  with assms have ok: "order_ok b" by simp
  show ?thesis
  proof (rule readsI)
    fix ts r assume ts: "strip_pos ts = order_lexemes ob @ r"
    then have "\<exists>t1 t2 t3 t4 t5 t6 us. ts = [t1, t2, t3, t4, t5, t6] @ us \<and> strip_pos us = r
      \<and> map (\<lambda>t. (tk_kind t, tk_value t)) [t1, t2, t3, t4, t5, t6] = order_lexemes ob"
      by (auto simp: Some order_lexemes_def strip_pos_def kw_def Cons_eq_map_conv)
    then obtain t1 t2 t3 t4 t5 t6 us where eq: "ts = [t1, t2, t3, t4, t5, t6] @ us" "strip_pos us = r"
      "map (\<lambda>t. (tk_kind t, tk_value t)) [t1, t2, t3, t4, t5, t6] = order_lexemes ob" by blast
    have "p_order ts = Ok (ob, us)"
      using eq(1,3) ok
      by (cases b) (auto simp: Some order_lexemes_def kw_def p_order_def peek_keyword_def expect_keyword_def
        advance_def p_identifier_def expect_def p_direction_def p_nulls_def order_ok_def)
    with eq(2) show "\<exists>ts'. p_order ts = Ok (ob, ts') \<and> strip_pos ts' = r" by blast
  qed
qed

lemma reads_clause:
  assumes "\<forall>k. n = Some k \<longrightarrow> 0 \<le> k"
  shows "reads (p_clause w) (clause_lexemes w n) n (no_kw [w])"
proof (cases n)
  case None
  then show ?thesis
    by (intro readsI) (auto simp: p_clause_def clause_lexemes_def peek_keyword_strip no_kw_def split: list.splits)
next
  case (Some k)
  show ?thesis
  proof (rule readsI)
    fix ts r assume "strip_pos ts = clause_lexemes w n @ r"
    then have "\<exists>t1 t2 us. ts = [t1, t2] @ us \<and> strip_pos us = r
      \<and> map (\<lambda>t. (tk_kind t, tk_value t)) [t1, t2] = clause_lexemes w n"
      by (auto simp: Some clause_lexemes_def strip_pos_def kw_def Cons_eq_map_conv)
    then obtain t1 t2 us where eq: "ts = [t1, t2] @ us" "strip_pos us = r"
      "map (\<lambda>t. (tk_kind t, tk_value t)) [t1, t2] = clause_lexemes w n" by blast
    have "p_clause w ts = Ok (n, us)"
      using eq(1,3) assms
      by (auto simp: Some clause_lexemes_def kw_def p_clause_def peek_keyword_def p_integer_def
        p_literal_def advance_def)
    with eq(2) show "\<exists>ts'. p_clause w ts = Ok (n, ts') \<and> strip_pos ts' = r" by blast
  qed
qed

section \<open>Printing and parsing\<close>

lemma reads_from:
  assumes "reads p ls x F" "strip_pos ts = ls @ r" "F r"
  shows "\<exists>ts'. p ts = Ok (x, ts') \<and> strip_pos ts' = r"
  using assms by (simp add: reads_def)

lemma where_head: "fst (hd (where_lexemes (p # ps))) = KEYWORD" 
  by (simp add: where_lexemes_def)

definition tail_lexemes :: "select_query \<Rightarrow> nat \<Rightarrow> lexeme list" where
  "tail_lexemes q n = concat (drop n [where_lexemes (q_predicates q), order_lexemes (q_order_by q),
     clause_lexemes ''LIMIT'' (q_limit q), clause_lexemes ''OFFSET'' (Some (q_offset q))])"

lemma tail_follow:
  "no_kw [''WHERE'', ''AND''] (tail_lexemes q 1)" "no_kw [''ORDER''] (tail_lexemes q 2)"
  "no_kw [''LIMIT''] (tail_lexemes q 3)" "tail_lexemes q 4 = []"
  by (auto simp: tail_lexemes_def order_lexemes_def clause_lexemes_def split: option.splits)

lemma tail_unfold:
  "tail_lexemes q 0 = where_lexemes (q_predicates q) @ tail_lexemes q 1"
  "tail_lexemes q 1 = order_lexemes (q_order_by q) @ tail_lexemes q 2"
  "tail_lexemes q 2 = clause_lexemes ''LIMIT'' (q_limit q) @ tail_lexemes q 3"
  "tail_lexemes q 3 = clause_lexemes ''OFFSET'' (Some (q_offset q)) @ []"
  by (simp_all add: tail_lexemes_def eval_nat_numeral)

lemma parse_query_lexemes:
  assumes ok: "query_ok q" and ts: "strip_pos ts = query_lexemes q"
  shows "parse_query ts = Ok q"
proof -
  have "strip_pos ts = kw ''SELECT'' # (fields_lexemes (q_fields q) @ kw ''FROM'' # (WORD, q_object q) # tail_lexemes q 0)"
    using ts by (simp add: query_lexemes_def tail_lexemes_def)
  then obtain t ts0 where select: "ts = t # ts0" "tk_kind t = KEYWORD" "tk_value t = ''SELECT''"
    and ts0: "strip_pos ts0 = fields_lexemes (q_fields q) @ kw ''FROM'' # (WORD, q_object q) # tail_lexemes q 0"
    by (rule strip_ConsE) (simp add: kw_def)
  obtain ts1 where fields: "p_fields ts0 = Ok (q_fields q, ts1)"
    and "strip_pos ts1 = kw ''FROM'' # (WORD, q_object q) # tail_lexemes q 0"
    using reads_from [OF reads_fields ts0] ok by (auto simp: query_ok_def)
  then obtain t2 ts2 where from_kw: "ts1 = t2 # ts2" "tk_kind t2 = KEYWORD" "tk_value t2 = ''FROM''"
    and ts2: "strip_pos ts2 = (WORD, q_object q) # tail_lexemes q 0"
    by - (erule strip_ConsE, simp add: kw_def)
  then obtain ts3 where obj: "p_identifier ts2 = Ok (q_object q, ts3)"
    and ts3: "strip_pos ts3 = where_lexemes (q_predicates q) @ tail_lexemes q 1"
    using reads_from [OF reads_identifier, of ts2] by (auto simp: tail_unfold(1))
  obtain ts4 where preds: "p_where ts3 = Ok (q_predicates q, ts4)"
    and ts4: "strip_pos ts4 = order_lexemes (q_order_by q) @ tail_lexemes q 2"
    using reads_from [OF reads_where ts3 tail_follow(1)] ok
    by (auto simp: query_ok_def tail_unfold(2) [unfolded One_nat_def])
  obtain ts5 where order: "p_order ts4 = Ok (q_order_by q, ts5)"
    and ts5: "strip_pos ts5 = clause_lexemes ''LIMIT'' (q_limit q) @ tail_lexemes q 3"
    using reads_from [OF reads_order ts4 tail_follow(2)] ok by (auto simp: query_ok_def tail_unfold(3))
  obtain ts6 where limit: "p_clause ''LIMIT'' ts5 = Ok (q_limit q, ts6)"
    and ts6: "strip_pos ts6 = clause_lexemes ''OFFSET'' (Some (q_offset q)) @ []"
    using reads_from [OF reads_clause ts5 tail_follow(3)] ok by (auto simp: query_ok_def tail_unfold(4))
  have offset: "p_clause ''OFFSET'' ts6 = Ok (Some (q_offset q), [])"
    using reads_from [OF reads_clause ts6] ok by (auto simp: query_ok_def)
  show ?thesis
    using select from_kw fields obj preds order limit offset
    by (simp add: parse_query_def expect_keyword_def advance_def)
qed

lemma literal_lexeme_ok: "literal_ok v \<Longrightarrow> lexeme_ok (literal_lexeme v)"
proof -
  have "word_text ''null''" "word_text ''true''" "word_text ''false''" by code_simp+
  then show "literal_ok v \<Longrightarrow> lexeme_ok (literal_lexeme v)"
    by (cases v) (auto simp: literal_lexeme_def lexeme_ok_def literal_ok_def numeric_word_text int_str_numeric)
qed

lemma kw_ok: "lexeme_ok (kw v) \<longleftrightarrow> v \<in> set soql_keywords"
  by (simp add: lexeme_ok_def kw_def)

lemma comma_lexemes_ok: "(\<And>x. x \<in> set xs \<Longrightarrow> lexeme_ok (f x)) \<Longrightarrow> list_all lexeme_ok (comma_lexemes f xs)"
  by (induction xs) (auto simp: lexeme_ok_def)

lemma items_lexemes_ok: "(\<And>x. x \<in> set xs \<Longrightarrow> lexeme_ok (f x)) \<Longrightarrow> list_all lexeme_ok (items_lexemes f xs)"
  by (cases xs) (auto simp: items_lexemes_def comma_lexemes_ok)

lemma predicate_lexemes_ok: "predicate_ok p \<Longrightarrow> list_all lexeme_ok (predicate_lexemes p)"
proof (cases p)
  case (InComparison f vs)
  assume "predicate_ok p"
  with InComparison have "list_all lexeme_ok (items_lexemes literal_lexeme vs)"
    by (intro items_lexemes_ok literal_lexeme_ok) (simp add: list_all_iff)
  with \<open>predicate_ok p\<close> InComparison show ?thesis
    by (simp add: kw_ok lexeme_ok_def [of "(_, _)"] soql_keywords_def)
qed (auto simp: kw_ok soql_keywords_def literal_lexeme_ok lexeme_ok_def [of "(_, _)"])

lemma and_lexemes_ok: "list_all predicate_ok ps \<Longrightarrow> list_all lexeme_ok (and_lexemes ps)"
  by (induction ps) (auto simp: predicate_lexemes_ok kw_ok soql_keywords_def)

lemma query_lexemes_ok: "query_ok q \<Longrightarrow> list_all lexeme_ok (query_lexemes q)"
proof -
  assume ok: "query_ok q"
  have "list_all lexeme_ok (fields_lexemes (q_fields q))"
  proof (cases "q_fields q = [''*'']")
    case True
    then show ?thesis by (simp add: fields_lexemes_def lexeme_ok_def)
  next
    case False
    with ok have "list_all lexeme_ok (items_lexemes (Pair WORD) (q_fields q))"
      by (intro items_lexemes_ok) (simp add: query_ok_def list_all_iff lexeme_ok_def)
    with False show ?thesis by (simp add: fields_lexemes_def)
  qed
  moreover have "list_all lexeme_ok (where_lexemes (q_predicates q))"
    using ok by (auto simp: where_lexemes_def query_ok_def kw_ok soql_keywords_def predicate_lexemes_ok
        and_lexemes_ok split: list.splits)
  moreover have "list_all lexeme_ok (order_lexemes (q_order_by q))"
    using ok by (auto simp: order_lexemes_def query_ok_def order_ok_def kw_ok soql_keywords_def
        lexeme_ok_def [of "(_, _)"] split: option.splits)
  moreover have "list_all lexeme_ok (clause_lexemes w n)" if "w \<in> set soql_keywords" for w n
    using that by (auto simp: clause_lexemes_def kw_ok lexeme_ok_def [of "(_, _)"] numeric_word_text
        int_str_numeric split: option.splits)
  ultimately show ?thesis
    using ok by (simp add: query_lexemes_def kw_ok lexeme_ok_def [of "(_, _)"] query_ok_def soql_keywords_def)
qed

lemma parse_print: "query_ok q \<Longrightarrow> parse_soql (print_query q) = Ok q"
  by (simp add: parse_soql_def print_query_def tokenize_def tokenize_lexemes query_lexemes_ok parse_query_lexemes)

section \<open>What the parser returns\<close>

definition good :: "token list \<Rightarrow> bool" where
  "good ts \<longleftrightarrow> list_all lexeme_ok (strip_pos ts)"

lemma good_simps [simp]:
  "good []" "good (t # ts) \<longleftrightarrow> lexeme_ok (tk_kind t, tk_value t) \<and> good ts"
  by (simp_all add: good_def strip_pos_def)

lemma good_tl: "good ts \<Longrightarrow> good (tl ts)"
  by (cases ts) simp_all

lemma cons_token_Ok: "cons_token t r = Ok ts \<longleftrightarrow> (\<exists>us. r = Ok us \<and> ts = t # us)"
  by (auto simp: cons_token_def rbind_eq_Inr)

lemma word_token_ok:
  "v \<noteq> [] \<Longrightarrow> list_all word_char v \<Longrightarrow> lexeme_ok (tk_kind (word_token v i), tk_value (word_token v i))"
  by (auto simp: word_token_def lexeme_ok_def word_text_def Let_def)

lemma punctuation_ok: "punctuation c = Some k \<Longrightarrow> lexeme_ok (k, [c])"
  by (auto simp: punctuation_def lexeme_ok_def split: if_splits)

lemma tokenize_good: "tokenize_at i s = Ok ts \<Longrightarrow> good ts"
proof (induction i s arbitrary: ts rule: tokenize_at.induct)
  case (2 i c cs)
  let ?v = "takeWhile word_char (c # cs)"
  have word: "?v \<noteq> [] \<Longrightarrow> lexeme_ok (tk_kind (word_token ?v i), tk_value (word_token ?v i))"
    by (rule word_token_ok) (auto simp: list_all_iff dest: set_takeWhileD split: if_splits)
  consider (space) "is_space c" | (quote) "\<not> is_space c" "c = CHR 0x27"
    | (punct) k where "\<not> is_space c" "c \<noteq> CHR 0x27" "punctuation c = Some k"
    | (oper) "\<not> is_space c" "c \<noteq> CHR 0x27" "punctuation c = None" "operator_char c"
    | (other) "\<not> is_space c" "c \<noteq> CHR 0x27" "punctuation c = None" "\<not> operator_char c" by auto
  then show ?case
  proof cases
    case space
    with 2 show ?thesis by (simp add: tokenize_at.simps(2))
  next
    case quote
    with "2.prems" "2.IH"(2) show ?thesis
      by (auto simp: tokenize_at.simps(2) cons_token_Ok lexeme_ok_def split: option.splits)
  next
    case punct
    with "2.prems" "2.IH"(5) [OF punct] show ?thesis
      by (auto simp: tokenize_at.simps(2) cons_token_Ok punctuation_ok)
  next
    case oper
    with "2.prems" "2.IH"(3) [OF oper refl] show ?thesis
      by (auto simp: tokenize_at.simps(2) cons_token_Ok lexeme_ok_def Let_def split: if_splits)
  next
    case other
    then have nonempty: "?v \<noteq> []" by (simp add: word_char_def)
    with other "2.prems" "2.IH"(4) [OF other refl] word show ?thesis
      by (auto simp: tokenize_at.simps(2) cons_token_Ok Let_def split: if_splits)
  qed
qed simp

definition yields :: "'a parser \<Rightarrow> ('a \<Rightarrow> bool) \<Rightarrow> bool" where
  "yields p P \<longleftrightarrow> (\<forall>ts x ts'. good ts \<longrightarrow> p ts = Ok (x, ts') \<longrightarrow> P x \<and> good ts')"

lemma yieldsI: "(\<And>ts x ts'. good ts \<Longrightarrow> p ts = Ok (x, ts') \<Longrightarrow> P x \<and> good ts') \<Longrightarrow> yields p P"
  by (simp add: yields_def)

lemma yieldsD: "yields p P \<Longrightarrow> p ts = Ok (x, ts') \<Longrightarrow> good ts \<Longrightarrow> P x \<and> good ts'"
  by (simp add: yields_def)

lemma yields_bind:
  "yields p P \<Longrightarrow> (\<And>x. P x \<Longrightarrow> yields (k x) Q) \<Longrightarrow> yields (\<lambda>ts. rbind (p ts) (case_prod k)) Q"
proof (rule yieldsI)
  fix ts y ts' assume p: "yields p P" and k: "\<And>x. P x \<Longrightarrow> yields (k x) Q"
    and ts: "good ts" and run: "rbind (p ts) (case_prod k) = Ok (y, ts')"
  from run obtain x r where "p ts = Ok (x, r)" "k x r = Ok (y, ts')" by (auto simp: rbind_eq_Inr)
  with yieldsD [OF p _ ts] yieldsD [OF k] show "Q y \<and> good ts'" by blast
qed

lemma yields_ret: "P x \<Longrightarrow> yields (\<lambda>ts. Ok (x, ts)) P"
  by (simp add: yields_def)

lemma yields_err: "yields (\<lambda>ts. Err e) P"
  by (simp add: yields_def)

lemma yields_if: "yields p P \<Longrightarrow> yields q P \<Longrightarrow> yields (\<lambda>ts. if b ts then p (tl ts) else q ts) P"
  by (rule yieldsI) (metis good_tl yieldsD)

lemma yields_expect: "yields (expect k) (\<lambda>t. tk_kind t = k \<and> lexeme_ok (tk_kind t, tk_value t))"
  by (rule yieldsI) (auto simp: expect_def advance_def split: list.splits if_splits)

lemma yields_expect_kw: "yields (expect_keyword vs) (\<lambda>t. tk_value t \<in> set vs)"
  by (rule yieldsI) (auto simp: expect_keyword_def advance_def split: list.splits if_splits)

lemma yields_identifier: "yields p_identifier word_text"
  unfolding p_identifier_def [abs_def]
  by (rule yields_bind [OF yields_expect yields_ret]) (auto simp: lexeme_ok_def)

lemma literal_of_word_ok: "literal_ok (literal_of_word v)"
  by (auto simp: literal_of_word_def literal_ok_def Let_def split: option.splits)

lemma yields_literal: "yields p_literal literal_ok"
proof (rule yieldsI)
  fix ts x ts' assume "good ts" "p_literal ts = Ok (x, ts')"
  then show "literal_ok x \<and> good ts'"
    by (cases ts) (auto simp: p_literal_def advance_def literal_of_word_ok split: if_splits,
      simp add: literal_ok_def)
qed

lemma yields_more: "yields p P \<Longrightarrow> yields (p_more n p) (list_all P)"
proof (induction n)
  case (Suc n)
  then have "yields (\<lambda>ts. rbind (p ts) (\<lambda>(x, r). rbind (p_more n p r) (\<lambda>(xs, r'). Ok (x # xs, r')))) (list_all P)"
    by (intro yields_bind [of p P] yields_bind [of "p_more n p" "list_all P"] yields_ret) simp_all
  from yields_if [OF this yields_ret [of "list_all P" "[]"]] show ?case
    by (simp add: yields_def)
qed (simp add: yields_def)

lemma yields_items: "yields p P \<Longrightarrow> yields (p_items p) (\<lambda>xs. xs \<noteq> [] \<and> list_all P xs)"
proof (rule yieldsI)
  fix ts x ts' assume p: "yields p P" and "good ts" "p_items p ts = Ok (x, ts')"
  then obtain y r ys where "p ts = Ok (y, r)" "p_more (length r) p r = Ok (ys, ts')" "x = y # ys"
    by (auto simp: p_items_def rbind_eq_Inr)
  with \<open>good ts\<close> yieldsD [OF p] yieldsD [OF yields_more [OF p]]
  show "(x \<noteq> [] \<and> list_all P x) \<and> good ts'" by fastforce
qed

lemma yields_predicate: "yields p_predicate predicate_ok"
  unfolding p_predicate_def [abs_def]
  apply (rule yields_bind [OF yields_identifier])
  apply (intro yields_if)
    apply (rule yields_bind [OF yields_expect])
    apply (rule yields_bind [OF yields_items [OF yields_literal]])
    apply (rule yields_bind [OF yields_expect])
    apply (rule yields_ret, simp)
   apply (rule yields_bind [OF yields_literal])
   apply (rule yields_ret, simp)
  apply (rule yields_bind [OF yields_expect])
  apply (rule yields_bind [OF yields_literal])
  apply (rule yields_ret, auto simp: lexeme_ok_def)
  done

lemma yields_and: "yields (p_and n) (list_all predicate_ok)"
proof (induction n)
  case (Suc n)
  have "yields (\<lambda>ts. rbind (p_predicate ts) (\<lambda>(p, r). rbind (p_and n r) (\<lambda>(ps, r'). Ok (p # ps, r'))))
      (list_all predicate_ok)"
    by (intro yields_bind [OF yields_predicate] yields_bind [OF Suc] yields_ret) simp
  from yields_if [OF this yields_ret [of "list_all predicate_ok" "[]"]] show ?case
    by (simp add: yields_def)
qed (simp add: yields_def)

lemma yields_where: "yields p_where (list_all predicate_ok)"
proof -
  have "yields (\<lambda>ts. rbind (p_predicate ts) (\<lambda>(p, r). rbind (p_and (length r) r) (\<lambda>(ps, r'). Ok (p # ps, r'))))
      (list_all predicate_ok)"
    by (intro yields_bind [OF yields_predicate] yieldsI)
      (auto simp: rbind_eq_Inr dest: yieldsD [OF yields_and])
  from yields_if [OF this yields_ret [of "list_all predicate_ok" "[]"]] show ?thesis
    by (simp add: yields_def p_where_def)
qed

lemma yields_order: "yields p_order (\<lambda>ob. \<forall>b. ob = Some b \<longrightarrow> order_ok b)"
proof -
  have dir: "yields p_direction (\<lambda>d. d \<in> {''ASC'', ''DESC''})"
    by (rule yieldsI) (auto simp: p_direction_def peek_keyword_def good_tl split: if_splits list.splits)
  have nulls: "yields p_nulls (\<lambda>n. n \<in> {''FIRST'', ''LAST''})"
    unfolding p_nulls_def [abs_def]
    by (intro yields_if yields_bind [OF yields_expect_kw] yields_ret) auto
  show ?thesis
    unfolding p_order_def [abs_def]
    by (intro yields_if yields_bind [OF yields_expect_kw] yields_bind [OF yields_identifier]
        yields_bind [OF dir] yields_bind [OF nulls] yields_ret) (auto simp: order_ok_def)
qed

lemma yields_clause: "yields (p_clause w) (\<lambda>n. \<forall>k. n = Some k \<longrightarrow> 0 \<le> k)"
proof -
  have "yields (p_integer c) (\<lambda>k. 0 \<le> k)" for c
  proof (rule yieldsI)
    fix ts k ts' assume ts: "good ts" and run: "p_integer c ts = Ok (k, ts')"
    then obtain v r where v: "p_literal ts = Ok (v, r)" by (auto simp: p_integer_def rbind_eq_Inr)
    with run have "v = LInt k \<and> 0 \<le> k \<and> ts' = r" by (cases v) (auto simp: p_integer_def split: if_splits)
    with yieldsD [OF yields_literal v ts] show "0 \<le> k \<and> good ts'" by simp
  qed
  then show ?thesis
    unfolding p_clause_def [abs_def] by (intro yields_if yields_bind yields_ret) auto
qed

lemma yields_fields: "yields p_fields (\<lambda>fs. fs = [''*''] \<or> fs \<noteq> [] \<and> list_all word_text fs)"
  unfolding p_fields_def [abs_def]
  by (rule yieldsI) (auto dest: yieldsD [OF yields_items [OF yields_identifier]] good_tl split: if_splits)

lemma not_Cons: "(\<forall>x xs. ys \<noteq> x # xs) \<longleftrightarrow> ys = []"
  by (cases ys) auto

lemma parse_query_ok:
  assumes "good ts" "parse_query ts = Ok q"
  shows "query_ok q"
proof -
  from assms(2) obtain t r where 1: "expect_keyword [''SELECT''] ts = Ok (t, r)"
    and run: "rbind (p_fields r) (\<lambda>(fs, r1).
     rbind (expect_keyword [''FROM''] r1) (\<lambda>(_, r2).
     rbind (p_identifier r2) (\<lambda>(obj, r3).
     rbind (p_where r3) (\<lambda>(ps, r4).
     rbind (p_order r4) (\<lambda>(ob, r5).
     rbind (p_clause ''LIMIT'' r5) (\<lambda>(lim, r6).
     rbind (p_clause ''OFFSET'' r6) (\<lambda>(off, r7).
       case r7 of
         t # _ \<Rightarrow> Err (UnexpectedToken (tk_value t) (tk_position t))
       | [] \<Rightarrow> Ok \<lparr>q_fields = fs, q_object = obj, q_predicates = ps, q_order_by = ob,
                  q_limit = lim, q_offset = (case off of None \<Rightarrow> 0 | Some n \<Rightarrow> n)\<rparr>))))))) = Ok q"
    by (auto simp: parse_query_def rbind_eq_Inr)
  from run obtain fs r1 t2 r2 obj r3 ps r4 ob r5 lim r6 off where
    steps: "p_fields r = Ok (fs, r1)" "expect_keyword [''FROM''] r1 = Ok (t2, r2)"
      "p_identifier r2 = Ok (obj, r3)" "p_where r3 = Ok (ps, r4)" "p_order r4 = Ok (ob, r5)"
      "p_clause ''LIMIT'' r5 = Ok (lim, r6)" "p_clause ''OFFSET'' r6 = Ok (off, [])"
    and q: "q = \<lparr>q_fields = fs, q_object = obj, q_predicates = ps, q_order_by = ob,
                  q_limit = lim, q_offset = (case off of None \<Rightarrow> 0 | Some n \<Rightarrow> n)\<rparr>"
    by (auto simp: rbind_eq_Inr not_Cons split: list.split_asm)
  have "good r" using yieldsD [OF yields_expect_kw 1 assms(1)] by simp
  note f = yieldsD [OF yields_fields steps(1) this]
  note g = yieldsD [OF yields_expect_kw steps(2) conjunct2 [OF f]]
  note i = yieldsD [OF yields_identifier steps(3) conjunct2 [OF g]]
  note w = yieldsD [OF yields_where steps(4) conjunct2 [OF i]]
  note o = yieldsD [OF yields_order steps(5) conjunct2 [OF w]]
  note l = yieldsD [OF yields_clause steps(6) conjunct2 [OF o]]
  note m = yieldsD [OF yields_clause steps(7) conjunct2 [OF l]]
  show ?thesis
    using f i w o l m by (simp add: query_ok_def q split: option.split)
qed

lemma parse_soql_ok: "parse_soql s = Ok q \<Longrightarrow> query_ok q"
  by (auto simp: parse_soql_def tokenize_def rbind_eq_Inr intro: parse_query_ok tokenize_good)

section \<open>Fuel and unreachable branches\<close>

lemma p_more_exhausts:
  assumes "\<And>ts x ts'. p ts = Ok (x, ts') \<Longrightarrow> length ts' < length ts"
    "p_more n p ts = Ok (xs, ts')" "length ts \<le> n"
  shows "\<not> peek_kind COMMA ts'"
  using assms(2,3)
proof (induction n arbitrary: ts xs)
  case 0
  then show ?case by (simp add: peek_kind_def)
next
  case (Suc n)
  show ?case
  proof (cases "peek_kind COMMA ts")
    case True
    with Suc.prems obtain x r ys where "p (tl ts) = Ok (x, r)" and r: "p_more n p r = Ok (ys, ts')"
      by (auto simp: rbind_eq_Inr)
    then have "length r < length (tl ts)" using assms(1) by blast
    with Suc.prems(2) have "length r \<le> n" by simp
    with r show ?thesis by (rule Suc.IH)
  next
    case False
    with Suc.prems show ?thesis by simp
  qed
qed

lemma p_identifier_shrinks: "p_identifier ts = Ok (x, ts') \<Longrightarrow> length ts' < length ts"
  by (cases ts) (auto simp: p_identifier_def expect_def advance_def rbind_eq_Inr split: if_splits)

lemma p_literal_shrinks: "p_literal ts = Ok (x, ts') \<Longrightarrow> length ts' < length ts"
  by (cases ts) (auto simp: p_literal_def advance_def split: if_splits)

lemma p_items_exhausts:
  assumes "\<And>ts x ts'. p ts = Ok (x, ts') \<Longrightarrow> length ts' < length ts" "p_items p ts = Ok (xs, ts')"
  shows "\<not> peek_kind COMMA ts'"
proof -
  from assms(2) obtain r ys where "p_more (length r) p r = Ok (ys, ts')"
    by (auto simp: p_items_def rbind_eq_Inr)
  from p_more_exhausts [OF assms(1) this] show ?thesis by simp
qed

lemma word_start: "\<not> is_space c \<Longrightarrow> c \<noteq> CHR 0x27 \<Longrightarrow> punctuation c = None \<Longrightarrow> \<not> operator_char c \<Longrightarrow>
  takeWhile word_char (c # cs) \<noteq> []"
  by (simp add: word_char_def)

lemma tokenize_no_unexpected: "tokenize_at i s \<noteq> Err (UnexpectedCharacter c j)"
proof (induction i s rule: tokenize_at.induct)
  case (2 i d ds)
  then show ?case
    using word_start [of d ds]
    by (auto simp: tokenize_at.simps(2) cons_token_def rbind_eq_Inl Let_def split: option.splits if_splits)
qed simp

lemma positions_bounded:
  "tokenize_at i s = Ok ts \<Longrightarrow> t \<in> set ts \<Longrightarrow> i \<le> tk_position t \<and> tk_position t < i + length s"
proof (induction i s arbitrary: ts t rule: tokenize_at.induct)
  case (2 i c cs)
  let ?goal = "i \<le> tk_position t \<and> tk_position t < i + length (c # cs)"
  have rest: ?goal if "tokenize_at j (drop n cs) = Ok us" "t \<in> set us" "j = Suc (i + n)"
    "tokenize_at j (drop n cs) = Ok us \<Longrightarrow> t \<in> set us \<Longrightarrow> j \<le> tk_position t \<and> tk_position t < j + length (drop n cs)"
    for j n us
    using that(4) [OF that(1,2)] that(3) by auto
  consider (space) "is_space c" | (quote) "\<not> is_space c" "c = CHR 0x27"
    | (punct) k where "\<not> is_space c" "c \<noteq> CHR 0x27" "punctuation c = Some k"
    | (oper) "\<not> is_space c" "c \<noteq> CHR 0x27" "punctuation c = None" "operator_char c"
    | (other) "\<not> is_space c" "c \<noteq> CHR 0x27" "punctuation c = None" "\<not> operator_char c" by auto
  then show ?case
  proof cases
    case space
    with "2.prems" "2.IH"(1) show ?thesis by (force simp: tokenize_at.simps(2))
  next
    case quote
    from "2.prems"(1) quote obtain v n us where v: "scan_string cs = Some (v, n)"
      and us: "tokenize_at (Suc (i + n)) (drop n cs) = Ok us"
      and ts: "ts = \<lparr>tk_kind = STRING, tk_value = v, tk_position = i\<rparr> # us"
      by (auto simp: tokenize_at.simps(2) cons_token_Ok split: option.splits)
    show ?thesis
      using "2.prems"(2) rest [OF us _ refl "2.IH"(2) [OF quote v refl]] ts by auto
  next
    case punct
    from "2.prems"(1) punct obtain us where us: "tokenize_at (Suc i) cs = Ok us"
      and ts: "ts = \<lparr>tk_kind = k, tk_value = [c], tk_position = i\<rparr> # us"
      by (auto simp: tokenize_at.simps(2) cons_token_Ok)
    show ?thesis using "2.prems"(2) "2.IH"(5) [OF punct us] ts by (auto dest: Suc_leD)
  next
    case oper
    let ?op = "operator_at c cs"
    have pos: "i + length ?op = Suc (i + (length ?op - 1))"
      by (simp add: operator_at_def split: list.split)
    from "2.prems"(1) oper obtain us where us: "tokenize_at (i + length ?op) (drop (length ?op - 1) cs) = Ok us"
      and op: "\<not> ?op \<notin> set operators"
      and ts: "ts = \<lparr>tk_kind = OPERATOR, tk_value = ?op, tk_position = i\<rparr> # us"
      by (auto simp: tokenize_at.simps(2) cons_token_Ok Let_def split: if_splits)
    show ?thesis
      using "2.prems"(2) rest [OF us _ pos "2.IH"(3) [OF oper refl op]] ts by auto
  next
    case other
    let ?v = "takeWhile word_char (c # cs)"
    have ne: "?v \<noteq> []" using word_start other by blast
    then have pos: "i + length ?v = Suc (i + (length ?v - 1))" by (cases ?v) simp_all
    from "2.prems"(1) other ne obtain us where us: "tokenize_at (i + length ?v) (drop (length ?v - 1) cs) = Ok us"
      and ts: "ts = word_token ?v i # us"
      by (auto simp: tokenize_at.simps(2) cons_token_Ok Let_def split: if_splits)
    have "tk_position (word_token ?v i) = i" by (simp add: word_token_def Let_def)
    then show ?thesis
      using "2.prems"(2) rest [OF us _ pos "2.IH"(4) [OF other refl ne]] ts by auto
  qed
qed simp

section \<open>Properties\<close>

text \<open>C4:
  printing is a right inverse of parsing on every query that can be written down:
  the printed text of a well-formed AST, with its string literals quoted and its fields,
  predicates, ordering and bounds spelled out, parses to exactly that AST.\<close>

theorem parse_printed_query:
  assumes "query_ok q"
  shows "parse_soql (print_query q) = Ok q"
  using assms by (rule parse_print)

definition wit_query :: select_query where
  "wit_query = \<lparr>q_fields = [''Id'', ''Name''], q_object = ''Account'',
     q_predicates = [Comparison ''Name'' ''LIKE'' (LStr ''O'Neil %''),
       InComparison ''Tier'' [LInt (- 3), LNull, LFloat ''1.5e3'']],
     q_order_by = Some \<lparr>ob_field = ''Name'', ob_direction = ''DESC'', ob_nulls = ''FIRST''\<rparr>,
     q_limit = Some 10, q_offset = 20\<rparr>"

lemma wit_query_ok: "query_ok wit_query"
  by (simp add: query_ok_def wit_query_def order_ok_def) code_simp

theorem parse_printed_query_witness: "parse_soql (print_query wit_query) = Ok wit_query"
  by (rule parse_printed_query) (rule wit_query_ok)

text \<open>C5:
  whatever text a query is written in, what the parser returns satisfies the
  grammar's static conditions (fields, object and predicate fields are non-keyword words,
  operators are among the six or LIKE, bounds are not negative) and its printed form parses
  back to the same AST, so printing a parsed query changes nothing the service sees.\<close>

theorem parsed_query_normal_form:
  assumes "parse_soql s = Ok q"
  shows "query_ok q \<and> parse_soql (print_query q) = Ok q"
  using parse_soql_ok [OF assms] parse_print by blast

theorem parsed_query_normal_form_witness:
  "\<exists>q. parse_soql ''select Id from Account where Name = 'Neil' limit 5'' = Ok q
     \<and> query_ok q \<and> parse_soql (print_query q) = Ok q"
proof -
  have "parse_soql ''select Id from Account where Name = 'Neil' limit 5'' =
    Ok \<lparr>q_fields = [''Id''], q_object = ''Account'',
     q_predicates = [Comparison ''Name'' ''='' (LStr ''Neil'')],
     q_order_by = None, q_limit = Some 5, q_offset = 0\<rparr>" by code_simp
  from this parsed_query_normal_form [OF this] show ?thesis by blast
qed

text \<open>The branch for an unexpected character is dead code, and a token's position is an
  index into the source.\<close>

lemma tokenize_total_on_characters:
  "(\<forall>c j. tokenize s \<noteq> Err (UnexpectedCharacter c j))
   \<and> (\<forall>ts. tokenize s = Ok ts \<longrightarrow> (\<forall>t \<in> set ts. tk_position t < length s))"
  using tokenize_no_unexpected positions_bounded [of 0 s] by (fastforce simp: tokenize_def)

end
