(* ===== verification/Json.thy ===== *)
theory Json
  imports PyStr Complex_Main
begin

text \<open>
  The values \<open>json.loads\<close> returns, Python's \<open>dict.get\<close> and truth value on
  them, and file paths as the lists of their segments, ordered as \<open>pathlib\<close> orders
  them.
\<close>

datatype json =
  JNull | JBool bool | JInt int | JFloat rat | JStr string | JList "json list"
| JObj "(string \<times> json) list"

definition jget_or :: "string \<Rightarrow> json \<Rightarrow> (string \<times> json) list \<Rightarrow> json" where
  "jget_or k d obj = dict_get_or obj k d"

abbreviation jget :: "string \<Rightarrow> (string \<times> json) list \<Rightarrow> json" where
  "jget k obj \<equiv> jget_or k JNull obj"

fun truthy :: "json \<Rightarrow> bool" where
  "truthy JNull = False"
| "truthy (JBool b) = b"
| "truthy (JInt i) = (i \<noteq> 0)"
| "truthy (JFloat r) = (r \<noteq> 0)"
| "truthy (JStr s) = (s \<noteq> [])"
| "truthy (JList l) = (l \<noteq> [])"
| "truthy (JObj d) = (d \<noteq> [])"

text \<open>\<open>v == 1\<close> in Python, where \<open>True\<close> and \<open>1.0\<close> equal 1.\<close>

definition json_is_one :: "json \<Rightarrow> bool" where
  "json_is_one v \<longleftrightarrow> v = JInt 1 \<or> v = JBool True \<or> v = JFloat 1"

fun json_str :: "json \<Rightarrow> string option" where
  "json_str (JStr s) = Some s"
| "json_str _ = None"

text \<open>All elements, when every one passes.\<close>

fun all_some :: "'a option list \<Rightarrow> 'a list option" where
  "all_some [] = Some []"
| "all_some (None # xs) = None"
| "all_some (Some x # xs) = map_option (Cons x) (all_some xs)"

type_synonym path = "string list"

definition path_name :: "path \<Rightarrow> string" where
  "path_name p = (if p = [] then [] else last p)"

definition path_parent :: "path \<Rightarrow> path" where
  "path_parent p = butlast p"

definition path_str :: "path \<Rightarrow> string" where
  "path_str p = CHR ''/'' # join_with ''/'' p"

definition path_under :: "path \<Rightarrow> path \<Rightarrow> bool" where
  "path_under p dir \<longleftrightarrow> take (length dir) p = dir"

text \<open>\<open>PurePosixPath(pattern).parts\<close> and \<open>dir.joinpath(*parts)\<close>.\<close>

definition posix_parts :: "string \<Rightarrow> string list" where
  "posix_parts s = (if starts_with s ''/'' then [''/''] else [])
     @ filter (\<lambda>p. p \<noteq> [] \<and> p \<noteq> ''.'') (split_chr (CHR ''/'') s)"

fun join_path :: "path \<Rightarrow> string list \<Rightarrow> path" where
  "join_path dir [] = dir"
| "join_path dir (p # ps) = join_path (if p = ''/'' then [] else dir @ [p]) ps"

end
