(* ===== verification/Sql.thy ===== *)
theory Sql
  imports PyStr Complex_Main
begin

text \<open>
  What the FakeForce components share about SQL: the quoting helpers of
  \<open>fakeforce/engine.py\<close>, the values a column can hold with their order, rows as
  column dictionaries, and a scanner that counts the placeholders of a statement outside
  quoted identifiers.
\<close>

section \<open>Quoting\<close>

abbreviation dquote :: char where "dquote \<equiv> CHR 0x22"
abbreviation squote :: char where "squote \<equiv> CHR 0x27"

definition quote_identifier :: "string \<Rightarrow> string" where
  "quote_identifier v = dquote # double_in dquote v @ [dquote]"

definition quote_literal :: "string \<Rightarrow> string" where
  "quote_literal v = squote # double_in squote v @ [squote]"

lemma quote_identifier_inj: "quote_identifier a = quote_identifier b \<longleftrightarrow> a = b"
  by (auto simp: quote_identifier_def double_in_inj)

lemma quote_literal_inj: "quote_literal a = quote_literal b \<longleftrightarrow> a = b"
  by (auto simp: quote_literal_def double_in_inj)

text \<open>The number of \<open>?\<close> placeholders outside double quotes; the flag says whether the
  scan is inside a quoted identifier.\<close>

fun placeholders :: "bool \<Rightarrow> string \<Rightarrow> nat" where
  "placeholders q [] = 0"
| "placeholders q (c # cs) =
     (if c = dquote then placeholders (\<not> q) cs
      else (if c = CHR ''?'' \<and> \<not> q then 1 else 0) + placeholders q cs)"

text \<open>Text that leaves the scanner outside quotes.\<close>

fun quote_parity :: "bool \<Rightarrow> string \<Rightarrow> bool" where
  "quote_parity q [] = q"
| "quote_parity q (c # cs) = quote_parity (if c = dquote then \<not> q else q) cs"

lemma placeholders_append:
  "placeholders q (xs @ ys) = placeholders q xs + placeholders (quote_parity q xs) ys"
  by (induction xs arbitrary: q) auto

lemma quote_parity_append: "quote_parity q (xs @ ys) = quote_parity (quote_parity q xs) ys"
  by (induction xs arbitrary: q) auto

lemma parity_double_in [simp]: "quote_parity q (double_in dquote s) = q"
  by (induction s arbitrary: q) auto

lemma placeholders_double_in [simp]: "placeholders True (double_in dquote s) = 0"
  by (induction s) auto

lemma placeholders_identifier [simp]:
  "placeholders False (quote_identifier v) = 0" "quote_parity False (quote_identifier v) = False"
  by (simp_all add: quote_identifier_def placeholders_append quote_parity_append)

lemma placeholders_plain:
  "dquote \<notin> set s \<Longrightarrow> quote_parity q s = q"
  "dquote \<notin> set s \<Longrightarrow> CHR ''?'' \<notin> set s \<Longrightarrow> placeholders q s = 0"
  by (induction s arbitrary: q) auto

text \<open>Balanced text: it holds \<open>n\<close> placeholders and ends outside quotes.\<close>

definition binds :: "string \<Rightarrow> nat \<Rightarrow> bool" where
  "binds s n \<longleftrightarrow> placeholders False s = n \<and> \<not> quote_parity False s"

lemma binds_append: "binds s m \<Longrightarrow> binds t n \<Longrightarrow> binds (s @ t) (m + n)"
  by (simp add: binds_def placeholders_append quote_parity_append)

lemma binds_append0: "binds s 0 \<Longrightarrow> binds t n \<Longrightarrow> binds (s @ t) n"
  using binds_append [of s 0 t n] by simp

lemma binds_append_0: "binds s n \<Longrightarrow> binds t 0 \<Longrightarrow> binds (s @ t) n"
  using binds_append [of s n t 0] by simp

lemma binds_identifier [simp]: "binds (quote_identifier v) 0"
  by (simp add: binds_def)

lemma binds_Nil [simp]: "binds [] n \<longleftrightarrow> n = 0"
  by (auto simp: binds_def)

lemma binds_plain: "dquote \<notin> set s \<Longrightarrow> CHR ''?'' \<notin> set s \<Longrightarrow> binds s 0"
  by (simp add: binds_def placeholders_plain)

lemma binds_join:
  "binds sep 0 \<Longrightarrow> list_all2 binds xs ns \<Longrightarrow> binds (join_with sep xs) (sum_list ns)"
proof (induction xs arbitrary: ns rule: join_with.induct [of _ sep])
  case (2 sep x)
  then show ?case by (auto simp: list_all2_Cons1)
next
  case (3 sep x y zs)
  then obtain m ms where ns: "ns = m # ms" "binds x m" "list_all2 binds (y # zs) ms"
    by (auto simp: list_all2_Cons1)
  with 3 have "binds (join_with sep (y # zs)) (sum_list ms)" by blast
  then have "binds (x @ sep @ join_with sep (y # zs)) (m + (0 + sum_list ms))"
    using ns 3 by (intro binds_append) auto
  then show ?case using ns by simp
qed auto

section \<open>Values and rows\<close>

datatype sql_value =
  NullV | BoolV bool | IntV int | NumV rat | TextV string | DateV int | TimeV int

fun sql_key :: "sql_value \<Rightarrow> nat \<times> rat \<times> string" where
  "sql_key NullV = (0, 0, [])"
| "sql_key (BoolV b) = (1, if b then 1 else 0, [])"
| "sql_key (IntV i) = (2, of_int i, [])"
| "sql_key (NumV r) = (3, r, [])"
| "sql_key (TextV s) = (4, 0, s)"
| "sql_key (DateV d) = (5, of_int d, [])"
| "sql_key (TimeV t) = (6, of_int t, [])"

lemma sql_key_inj: "sql_key a = sql_key b \<longleftrightarrow> a = b"
  by (cases a; cases b) (auto split: if_splits)

text \<open>The values of one column have one type; NULL is below every other value, so that a
  descending order puts it last.\<close>

instantiation sql_value :: linorder
begin

definition less_eq_sql_value :: "sql_value \<Rightarrow> sql_value \<Rightarrow> bool" where
  "less_eq_sql_value a b \<longleftrightarrow> sql_key a \<le> sql_key b"

definition less_sql_value :: "sql_value \<Rightarrow> sql_value \<Rightarrow> bool" where
  "less_sql_value a b \<longleftrightarrow> sql_key a < sql_key b"

instance
  by standard (auto simp: less_eq_sql_value_def less_sql_value_def sql_key_inj less_le_not_le
    intro: antisym order_trans)

end

type_synonym sql_row = "(string, sql_value) dict"

definition col :: "string \<Rightarrow> sql_row \<Rightarrow> sql_value" where
  "col f r = dict_get_or r f NullV"

text \<open>SQL equality: NULL equals nothing.\<close>

definition sql_eq :: "sql_value \<Rightarrow> sql_value \<Rightarrow> bool" where
  "sql_eq a b \<longleftrightarrow> a \<noteq> NullV \<and> a = b"

end
