(* ===== verification/Catalog.thy ===== *)
theory Catalog
  imports Json Sql
begin

text \<open>
  \<open>fakeforce/catalog.py\<close>: dataset specifications, their validation from the catalog
  file, the memo cache and the fingerprints that guard it, source resolution, the two
  computed metadata objects and the snapshot identifier. The file system, Parquet and CSV
  readers and SHA-256 are the argument \<open>disk\<close>: what the code observes of them.
\<close>

section \<open>Data\<close>

datatype arrow_type =
  ArrowString | ArrowLargeString | ArrowBool | ArrowInt | ArrowFloat | ArrowDate
| ArrowTimestamp bool | ArrowOther string

type_synonym schema = "(string \<times> arrow_type) list"

record disk =
  dk_glob :: "path \<Rightarrow> string \<Rightarrow> path list"
  dk_resolve :: "path \<Rightarrow> path"
  dk_is_file :: "path \<Rightarrow> bool"
  dk_stat :: "path \<Rightarrow> (int \<times> int) option"
  dk_scandir :: "path \<Rightarrow> (string \<times> int option) list option"
  dk_parquet_schema :: "path \<Rightarrow> schema"
  dk_csv_header :: "path \<Rightarrow> string list option"
  dk_first_value :: "path \<Rightarrow> string \<Rightarrow> string option"
  dk_mtime_us :: "path \<Rightarrow> int"

record dataset_spec =
  ds_object_name :: string
  ds_sources :: "path list"
  ds_id_field :: string
  ds_soft_delete_field :: "string option"
  ds_mode :: string
  ds_schema :: schema
  ds_data_roots :: "path list"
  ds_delta_patterns :: "string list"
  ds_version_field :: "string option"
  ds_aliases :: "(string \<times> string) list"
  ds_computed_table :: "sql_row list option"
  ds_supports_limit :: bool
  ds_supports_ne :: bool
  ds_required_filter_fields :: "string list"

datatype catalog_error =
  NoObjects | NamesNotUniqueWithoutCase | FileMissing | InvalidJson | BadVersion
| ObjectsNotAList | NoRoots | NamesNotUnique | EntryNotObject | InvalidObjectName
| SourcesNotAList string | SourceNotString string | SourceMatchesNothing string
| SchemaNotMapping string | SchemaFieldName string | SchemaFieldType string
| BadIdField string | BadSoftDelete string | BadMode string | UnhashableMode string | BadDeltas string
| BadVersionField string | BadAliases string | DeltasNeedVersion string
| DeltasNeedParquet string | IdFieldAbsent string | SoftDeleteAbsent string
| AliasSourceAbsent string string | VersionFieldAbsent string | UnsupportedFormat path
| BadCsvHeader path | NotAMapping | SourceVanished path

section \<open>Memoization\<close>

record ('f, 'v) cache =
  ca_entry :: "('f \<times> 'v) option"

definition empty_cache :: "('f, 'v) cache" where
  "empty_cache = \<lparr>ca_entry = None\<rparr>"

definition cache_get :: "'f \<Rightarrow> ('e + 'v) \<Rightarrow> (('f, 'v) cache, 'e, 'v) eff" where
  "cache_get fp computed c =
     (case ca_entry c of
        Some (f, v) \<Rightarrow>
          if f = fp then (Ok v, c)
          else (case computed of Err e \<Rightarrow> (Err e, c) | Ok w \<Rightarrow> (Ok w, \<lparr>ca_entry = Some (fp, w)\<rparr>))
      | None \<Rightarrow>
          (case computed of Err e \<Rightarrow> (Err e, c) | Ok w \<Rightarrow> (Ok w, \<lparr>ca_entry = Some (fp, w)\<rparr>)))"

definition cache_peek :: "('f, 'v) cache \<Rightarrow> 'v option" where
  "cache_peek c = map_option snd (ca_entry c)"

definition cache_invalidate :: "(('f, 'v) cache, 'e, unit) eff" where
  "cache_invalidate = emodify (\<lambda>_. empty_cache)"

section \<open>Source resolution\<close>

definition supported_suffix :: "string \<Rightarrow> bool" where
  "supported_suffix n \<longleftrightarrow> ends_with n ''.parquet'' \<or> ends_with n ''.csv'' \<or> ends_with n ''.csv.gz''"

definition compacted_directory :: string where "compacted_directory = ''compacted''"
definition compacted_base_filename :: string where "compacted_base_filename = ''base.parquet''"

text \<open>The inner loop of \<open>_expand_source\<close>, over all roots.\<close>

definition keep_candidate :: "disk \<Rightarrow> path list \<Rightarrow> path \<Rightarrow> path list \<Rightarrow> catalog_error + path list" where
  "keep_candidate d roots candidate acc =
     (let resolved = dk_resolve d candidate in
      if dk_is_file d candidate \<and> (\<exists>r \<in> set roots. path_under resolved r) then
        (if supported_suffix (path_name candidate) then Ok (acc @ [resolved])
         else Err (UnsupportedFormat candidate))
      else Ok acc)"

definition expand_source :: "disk \<Rightarrow> string \<Rightarrow> path list \<Rightarrow> catalog_error + path list" where
  "expand_source d pattern roots =
     rbind (rfold (\<lambda>acc c. keep_candidate d roots c acc) []
              (concat (map (\<lambda>r. dk_glob d r pattern) roots)))
       (\<lambda>ms. Ok (sorted_set ms))"

definition wildcard :: "string \<Rightarrow> bool" where
  "wildcard seg \<longleftrightarrow> CHR ''*'' \<in> set seg \<or> CHR ''?'' \<in> set seg \<or> CHR ''['' \<in> set seg"

definition delta_roots :: "dataset_spec \<Rightarrow> path list" where
  "delta_roots s = sorted_set
     (concat (map (\<lambda>p. let prefix = takeWhile (\<lambda>seg. \<not> wildcard seg) (posix_parts p)
                       in map (\<lambda>r. join_path r prefix) (ds_data_roots s))
        (ds_delta_patterns s)))"

definition compacted_file :: "path \<Rightarrow> path" where
  "compacted_file dir = dir @ [compacted_directory, compacted_base_filename]"

definition compacted_base :: "disk \<Rightarrow> dataset_spec \<Rightarrow> path option" where
  "compacted_base d s = first_opt (filter (dk_is_file d) (map compacted_file (delta_roots s)))"

definition effective_base :: "disk \<Rightarrow> dataset_spec \<Rightarrow> path list" where
  "effective_base d s = (case compacted_base d s of None \<Rightarrow> ds_sources s | Some p \<Rightarrow> [p])"

definition published_deltas :: "disk \<Rightarrow> dataset_spec \<Rightarrow> catalog_error + path list" where
  "published_deltas d s =
     rbind (rmap (\<lambda>p. expand_source d p (ds_data_roots s)) (ds_delta_patterns s))
       (\<lambda>ls. Ok (sorted_set (filter (\<lambda>p. path_name (path_parent p) \<noteq> compacted_directory) (concat ls))))"

definition resolve_sources :: "disk \<Rightarrow> dataset_spec \<Rightarrow> catalog_error + path list" where
  "resolve_sources d s =
     rbind (published_deltas d s) (\<lambda>ds. Ok (sorted_set (effective_base d s @ ds)))"

section \<open>Fingerprints\<close>

definition file_signature :: "disk \<Rightarrow> path \<Rightarrow> (int \<times> int) option" where
  "file_signature d p = dk_stat d p"

definition directory_signature :: "disk \<Rightarrow> path \<Rightarrow> (string \<times> int) list" where
  "directory_signature d p =
     (case dk_scandir d p of
        None \<Rightarrow> []
      | Some es \<Rightarrow> sort (map (\<lambda>(n, m). (n, case m of None \<Rightarrow> 0 | Some t \<Rightarrow> t)) es))"

datatype fp_entry =
  BaseFp path "(int \<times> int) option"
| DeltaFp path "(string \<times> int) list"

definition structural_fingerprint :: "disk \<Rightarrow> dataset_spec \<Rightarrow> fp_entry list" where
  "structural_fingerprint d s =
     map (\<lambda>p. BaseFp p (file_signature d p)) (ds_sources s)
     @ map (\<lambda>r. DeltaFp r (directory_signature d r)) (delta_roots s)"

type_synonym source_cache = "(fp_entry list, path list) cache"

definition current_sources :: "disk \<Rightarrow> dataset_spec \<Rightarrow> (source_cache, catalog_error, path list) eff" where
  "current_sources d s = cache_get (structural_fingerprint d s) (resolve_sources d s)"

type_synonym content_fp = "fp_entry list \<times> (path \<times> (int \<times> int) option) list"

definition content_fingerprint ::
  "disk \<Rightarrow> dataset_spec \<Rightarrow> (source_cache, catalog_error, content_fp) eff" where
  "content_fingerprint d s = ebind (current_sources d s)
     (\<lambda>ps. eret (structural_fingerprint d s, map (\<lambda>p. (p, file_signature d p)) ps))"

definition refresh_spec :: "(source_cache, catalog_error, unit) eff" where
  "refresh_spec = cache_invalidate"

end
