(* ===== verification/CatalogLoad.thy ===== *)
theory CatalogLoad
  imports Catalog
begin

text \<open>
  The second half of \<open>fakeforce/catalog.py\<close>: validation of the catalog file, the
  catalog's constructor and lookups, the computed \<open>EntityDefinition\<close> and
  \<open>FieldDefinition\<close> objects, and the snapshot identifier.
\<close>

section \<open>Validation of one object\<close>

definition declared_field_type :: "string \<Rightarrow> arrow_type option" where
  "declared_field_type t =
     map_of [(''string'', ArrowString), (''boolean'', ArrowBool), (''integer'', ArrowInt),
       (''number'', ArrowFloat), (''date'', ArrowDate), (''timestamp'', ArrowTimestamp True)] t"

definition declared_field :: "string \<Rightarrow> string \<times> json \<Rightarrow> catalog_error + string \<times> arrow_type" where
  "declared_field name kv =
     (if fst kv = [] then Err (SchemaFieldName name)
      else case snd kv of
        JStr t \<Rightarrow> (case declared_field_type t of
                     None \<Rightarrow> Err (SchemaFieldType name) | Some a \<Rightarrow> Ok (fst kv, a))
      | _ \<Rightarrow> Err (SchemaFieldType name))"

definition declared_schema :: "json \<Rightarrow> string \<Rightarrow> catalog_error + schema option" where
  "declared_schema v name =
     (case v of
        JNull \<Rightarrow> Ok None
      | JObj d \<Rightarrow>
          if d = [] then Err (SchemaNotMapping name)
          else rbind (rmap (declared_field name) d) (\<lambda>fs. Ok (Some fs))
      | _ \<Rightarrow> Err (SchemaNotMapping name))"

definition letter :: "char \<Rightarrow> bool" where
  "letter c \<longleftrightarrow> chr_between 65 c 90 \<or> chr_between 97 c 122"

definition valid_object_name :: "string \<Rightarrow> bool" where
  "valid_object_name n = (case n of [] \<Rightarrow> False
     | c # cs \<Rightarrow> letter c \<and> list_all (\<lambda>x. letter x \<or> is_digit x \<or> x = CHR ''_'') cs)"

definition source_matches ::
  "disk \<Rightarrow> path list \<Rightarrow> string \<Rightarrow> schema option \<Rightarrow> path list \<Rightarrow> json \<Rightarrow> catalog_error + path list" where
  "source_matches d roots name declared acc v =
     (case v of
        JStr pattern \<Rightarrow>
          rbind (expand_source d pattern roots) (\<lambda>ms.
            if ms = [] \<and> declared = None then Err (SourceMatchesNothing name) else Ok (acc @ ms))
      | _ \<Rightarrow> Err (SourceNotString name))"

definition string_list :: "json \<Rightarrow> string list option" where
  "string_list v = (case v of JList l \<Rightarrow> all_some (map json_str l) | _ \<Rightarrow> None)"

fun alias_pair :: "string \<times> json \<Rightarrow> (string \<times> string) option" where
  "alias_pair (a, JStr s) = (if a \<noteq> [] \<and> s \<noteq> [] then Some (a, s) else None)"
| "alias_pair _ = None"

definition alias_list :: "json \<Rightarrow> (string \<times> string) list option" where
  "alias_list v = (case v of JObj d \<Rightarrow> all_some (map alias_pair d) | _ \<Rightarrow> None)"

definition read_schema :: "disk \<Rightarrow> path \<Rightarrow> catalog_error + schema" where
  "read_schema d p =
     (if ends_with (path_name p) ''.parquet'' then Ok (dk_parquet_schema d p)
      else case dk_csv_header d p of
        None \<Rightarrow> Err (BadCsvHeader p)
      | Some h \<Rightarrow> if h = [] \<or> [] \<in> set h then Err (BadCsvHeader p)
                  else Ok (map (\<lambda>n. (n, ArrowString)) h))"

definition schema_names :: "schema \<Rightarrow> string list" where "schema_names s = map fst s"

definition add_alias ::
  "string \<Rightarrow> schema \<Rightarrow> schema \<times> (string \<times> string) list \<Rightarrow> string \<times> string
   \<Rightarrow> catalog_error + schema \<times> (string \<times> string) list" where
  "add_alias name source_schema acc kv =
     (case map_of source_schema (snd kv) of
        None \<Rightarrow> Err (AliasSourceAbsent name (snd kv))
      | Some t \<Rightarrow>
          if fst kv \<in> set (schema_names source_schema) then Ok acc
          else Ok (fst acc @ [(fst kv, t)], snd acc @ [kv]))"

definition optional_string :: "json \<Rightarrow> string option option" where
  "optional_string v = (case v of JNull \<Rightarrow> Some None | JStr s \<Rightarrow> Some (Some s) | _ \<Rightarrow> None)"

definition check_mode :: "string \<Rightarrow> json \<Rightarrow> catalog_error + string" where
  "check_mode name v =
     (case v of
        JStr m \<Rightarrow> if m = ''read_only'' \<or> m = ''mutable'' then Ok m else Err (BadMode name)
      | JList _ \<Rightarrow> Err (UnhashableMode name)
      | JObj _ \<Rightarrow> Err (UnhashableMode name)
      | _ \<Rightarrow> Err (BadMode name))"

text \<open>The checks against the schema and the alias loop, once the options are validated.\<close>

definition finish_object ::
  "disk \<Rightarrow> path list \<Rightarrow> string \<Rightarrow> path list \<Rightarrow> schema option \<Rightarrow> string \<Rightarrow> string option \<Rightarrow> string
   \<Rightarrow> string list \<Rightarrow> string option \<Rightarrow> (string \<times> string) list \<Rightarrow> catalog_error + dataset_spec" where
  "finish_object d roots name paths declared idf sdf mode deltas vf aliases =
     rbind (if paths \<noteq> [] then read_schema d (hd paths)
            else Ok (case declared of None \<Rightarrow> [] | Some s \<Rightarrow> s)) (\<lambda>sch.
     rbind (guard_err (idf \<in> set (schema_names sch)) (IdFieldAbsent name)) (\<lambda>_.
     rbind (guard_err (case sdf of None \<Rightarrow> True | Some f \<Rightarrow> f \<in> set (schema_names sch))
              (SoftDeleteAbsent name)) (\<lambda>_.
     rbind (rfold (add_alias name sch) (sch, []) aliases) (\<lambda>(full, used).
     rbind (guard_err (case vf of None \<Rightarrow> True | Some f \<Rightarrow> f \<in> set (schema_names full))
              (VersionFieldAbsent name)) (\<lambda>_.
       Ok \<lparr>ds_object_name = name, ds_sources = paths, ds_id_field = idf,
           ds_soft_delete_field = sdf, ds_mode = mode, ds_schema = full, ds_data_roots = roots,
           ds_delta_patterns = deltas, ds_version_field = vf, ds_aliases = used,
           ds_computed_table = None, ds_supports_limit = True, ds_supports_ne = True,
           ds_required_filter_fields = []\<rparr>)))))"

definition nonempty_string :: "json \<Rightarrow> string option" where
  "nonempty_string v = (case v of JStr s \<Rightarrow> if s = [] then None else Some s | _ \<Rightarrow> None)"

definition optional_nonempty :: "json \<Rightarrow> string option option" where
  "optional_nonempty v = (case v of JNull \<Rightarrow> Some None | _ \<Rightarrow> map_option Some (nonempty_string v))"

definition parse_options ::
  "disk \<Rightarrow> path list \<Rightarrow> string \<Rightarrow> (string \<times> json) list \<Rightarrow> path list \<Rightarrow> schema option
   \<Rightarrow> catalog_error + dataset_spec" where
  "parse_options d roots name e paths declared =
     rbind (of_opt (BadIdField name) (nonempty_string (jget_or ''id_field'' (JStr ''Id'') e))) (\<lambda>idf.
     rbind (of_opt (BadSoftDelete name)
              (optional_string (jget_or ''soft_delete_field'' (JStr ''IsDeleted'') e))) (\<lambda>sdf.
     rbind (check_mode name (jget_or ''mode'' (JStr ''read_only'') e)) (\<lambda>mode.
     rbind (of_opt (BadDeltas name) (string_list (jget_or ''delta_patterns'' (JList []) e))) (\<lambda>deltas.
     rbind (of_opt (BadVersionField name) (optional_nonempty (jget ''version_field'' e))) (\<lambda>vf.
     rbind (of_opt (BadAliases name) (alias_list (jget_or ''compatibility_aliases'' (JObj []) e))) (\<lambda>aliases.
     rbind (guard_err (deltas = [] \<or> vf \<noteq> None) (DeltasNeedVersion name)) (\<lambda>_.
     rbind (guard_err (deltas = [] \<or> paths = []
              \<or> list_all (\<lambda>p. ends_with (path_name p) ''.parquet'') paths) (DeltasNeedParquet name)) (\<lambda>_.
       finish_object d roots name paths declared idf sdf mode deltas vf aliases))))))))"

definition parse_object :: "disk \<Rightarrow> path list \<Rightarrow> json \<Rightarrow> catalog_error + dataset_spec" where
  "parse_object d roots entry =
     (case entry of
        JObj e \<Rightarrow>
          (case jget ''name'' e of
             JStr name \<Rightarrow>
               if \<not> valid_object_name name then Err InvalidObjectName
               else (case jget ''sources'' e of
                 JList srcs \<Rightarrow>
                   if srcs = [] then Err (SourcesNotAList name)
                   else rbind (declared_schema (jget ''schema'' e) name) (\<lambda>declared.
                        rbind (rfold (source_matches d roots name declared) [] srcs) (\<lambda>paths.
                          parse_options d roots name e paths declared))
               | _ \<Rightarrow> Err (SourcesNotAList name))
           | _ \<Rightarrow> Err InvalidObjectName)
      | _ \<Rightarrow> Err EntryNotObject)"

section \<open>Metadata objects\<close>

definition id_prefix :: "disk \<Rightarrow> dataset_spec \<Rightarrow> string" where
  "id_prefix d s =
     (case first_opt (List.map_filter (\<lambda>p. map_option (take 3) (dk_first_value d p (ds_id_field s)))
              (ds_sources s)) of
        None \<Rightarrow> ''000'' | Some p \<Rightarrow> p)"

record type_info =
  ti_data_type :: string
  ti_value_type :: string
  ti_length :: "int option"
  ti_precision :: "int option"
  ti_scale :: "int option"
  ti_reference :: "string option"

definition mk_type ::
  "string \<Rightarrow> string \<Rightarrow> int option \<Rightarrow> int option \<Rightarrow> int option \<Rightarrow> string option \<Rightarrow> type_info" where
  "mk_type a b c d e f = \<lparr>ti_data_type = a, ti_value_type = b, ti_length = c, ti_precision = d,
     ti_scale = e, ti_reference = f\<rparr>"

definition arrow_type_info :: "arrow_type \<Rightarrow> type_info" where
  "arrow_type_info t =
     (case t of
        ArrowBool \<Rightarrow> mk_type ''Checkbox'' ''xsd:boolean'' None None None None
      | ArrowInt \<Rightarrow> mk_type ''Number(18, 0)'' ''xsd:int'' None (Some 18) (Some 0) None
      | ArrowFloat \<Rightarrow> mk_type ''Number(18, 2)'' ''xsd:double'' None (Some 18) (Some 2) None
      | ArrowDate \<Rightarrow> mk_type ''Date'' ''xsd:date'' None None None None
      | ArrowTimestamp _ \<Rightarrow> mk_type ''Date/Time'' ''xsd:dateTime'' None None None None
      | _ \<Rightarrow> mk_type ''Text(255)'' ''xsd:string'' (Some 255) None None None)"

definition field_type_info :: "string \<Rightarrow> arrow_type \<Rightarrow> dataset_spec \<Rightarrow> string list \<Rightarrow> type_info" where
  "field_type_info n t s object_names =
     (if n = ds_id_field s then mk_type ''Id'' ''xsd:string'' (Some 18) None None None
      else let candidate = take (length n - 2) n in
        if ends_with n ''Id'' \<and> candidate \<in> set object_names
        then mk_type (''Lookup('' @ candidate @ '')'') ''xsd:string'' (Some 18) None None (Some candidate)
        else arrow_type_info t)"

definition opt_text :: "string option \<Rightarrow> sql_value" where
  "opt_text v = (case v of None \<Rightarrow> NullV | Some s \<Rightarrow> TextV s)"

definition opt_int :: "int option \<Rightarrow> sql_value" where
  "opt_int v = (case v of None \<Rightarrow> NullV | Some i \<Rightarrow> IntV i)"

definition entity_definition_schema :: schema where
  "entity_definition_schema =
     map (\<lambda>n. (n, ArrowString)) [''DurableId'', ''QualifiedApiName'', ''DeveloperName'', ''Label'',
       ''PluralLabel'', ''MasterLabel'', ''KeyPrefix'']
     @ map (\<lambda>n. (n, ArrowBool)) [''IsQueryable'', ''IsRetrieveable'', ''IsIdEnabled'',
       ''IsEverCreatable'', ''IsEverUpdatable'', ''IsEverDeletable'']
     @ [(''NamespacePrefix'', ArrowString), (''LastModifiedDate'', ArrowTimestamp True)]"

definition entity_row :: "disk \<Rightarrow> (string \<times> string) list \<Rightarrow> dataset_spec \<Rightarrow> sql_row" where
  "entity_row d kps s =
     (let n = ds_object_name s;
          dev = (if ends_with n ''__c'' then take (length n - 3) n else n);
          k = dict_get_or kps n [];
          mut = BoolV (ds_mode s = ''mutable'') in
      [(''DurableId'', TextV k), (''QualifiedApiName'', TextV n), (''DeveloperName'', TextV dev),
       (''Label'', TextV n), (''PluralLabel'', TextV (n @ ''s'')), (''MasterLabel'', TextV n),
       (''KeyPrefix'', TextV k), (''IsQueryable'', BoolV True), (''IsRetrieveable'', BoolV True),
       (''IsIdEnabled'', BoolV True), (''IsEverCreatable'', mut), (''IsEverUpdatable'', mut),
       (''IsEverDeletable'', mut), (''NamespacePrefix'', NullV),
       (''LastModifiedDate'', TimeV (case ds_sources s of [] \<Rightarrow> 0 | p # _ \<Rightarrow> dk_mtime_us d p))])"

definition computed_spec :: "string \<Rightarrow> schema \<Rightarrow> sql_row list \<Rightarrow> string list \<Rightarrow> dataset_spec" where
  "computed_spec n sch rows required =
     \<lparr>ds_object_name = n, ds_sources = [], ds_id_field = ''DurableId'',
      ds_soft_delete_field = None, ds_mode = ''computed'', ds_schema = sch, ds_data_roots = [],
      ds_delta_patterns = [], ds_version_field = None, ds_aliases = [],
      ds_computed_table = Some rows, ds_supports_limit = False, ds_supports_ne = False,
      ds_required_filter_fields = required\<rparr>"

definition entity_definition_spec ::
  "disk \<Rightarrow> dataset_spec list \<Rightarrow> (string \<times> string) list \<Rightarrow> dataset_spec" where
  "entity_definition_spec d specs kps =
     computed_spec ''EntityDefinition'' entity_definition_schema (map (entity_row d kps) specs) []"

definition field_definition_schema :: schema where
  "field_definition_schema =
     map (\<lambda>n. (n, ArrowString)) [''DurableId'', ''EntityDefinitionId'',
       ''EntityDefinition.QualifiedApiName'', ''QualifiedApiName'', ''Label'', ''DataType'', ''ValueTypeId'']
     @ map (\<lambda>n. (n, ArrowInt)) [''Length'', ''Precision'', ''Scale'']
     @ map (\<lambda>n. (n, ArrowBool)) [''IsNillable'', ''IsNameField'', ''IsIndexed'', ''IsApiFilterable'',
       ''IsApiSortable'', ''IsApiGroupable'']
     @ [(''ReferenceTo'', ArrowString), (''RelationshipName'', ArrowString)]"

definition field_row ::
  "(string \<times> string) list \<Rightarrow> string list \<Rightarrow> dataset_spec \<Rightarrow> string \<times> arrow_type \<Rightarrow> sql_row" where
  "field_row kps object_names s f =
     (let n = fst f; e = dict_get_or kps (ds_object_name s) [];
          ti = field_type_info n (snd f) s object_names in
      [(''DurableId'', TextV (e @ ''.'' @ n)), (''EntityDefinitionId'', TextV e),
       (''EntityDefinition.QualifiedApiName'', TextV (ds_object_name s)),
       (''QualifiedApiName'', TextV n), (''Label'', TextV n), (''DataType'', TextV (ti_data_type ti)),
       (''ValueTypeId'', TextV (ti_value_type ti)), (''Length'', opt_int (ti_length ti)),
       (''Precision'', opt_int (ti_precision ti)), (''Scale'', opt_int (ti_scale ti)),
       (''IsNillable'', BoolV (n \<noteq> ds_id_field s)), (''IsNameField'', BoolV (n = ''Name'')),
       (''IsIndexed'', BoolV (n = ds_id_field s \<or> Some n = ds_soft_delete_field s
          \<or> Some n = ds_version_field s)),
       (''IsApiFilterable'', BoolV True), (''IsApiSortable'', BoolV True),
       (''IsApiGroupable'', BoolV True), (''ReferenceTo'', opt_text (ti_reference ti)),
       (''RelationshipName'', opt_text (ti_reference ti))])"

definition field_definition_spec :: "dataset_spec list \<Rightarrow> (string \<times> string) list \<Rightarrow> dataset_spec" where
  "field_definition_spec specs kps =
     computed_spec ''FieldDefinition'' field_definition_schema
       (concat (map (\<lambda>s. map (field_row kps (map ds_object_name specs) s) (ds_schema s)) specs))
       [''EntityDefinition.QualifiedApiName'', ''EntityDefinitionId'']"

definition metadata_catalog_specs :: "disk \<Rightarrow> dataset_spec list \<Rightarrow> dataset_spec list" where
  "metadata_catalog_specs d specs =
     (let kps = dict_of_pairs (map (\<lambda>s. (ds_object_name s, id_prefix d s)) specs) in
      [entity_definition_spec d specs kps, field_definition_spec specs kps])"

section \<open>The catalog\<close>

record catalog =
  ct_objects :: "(string, dataset_spec) dict"

definition make_catalog :: "dataset_spec list \<Rightarrow> catalog_error + catalog" where
  "make_catalog specs =
     (let objs = dict_of_pairs (map (\<lambda>s. (ds_object_name s, s)) specs);
          folded = dict_of_pairs (map (\<lambda>(n, s). (str_lower n, s)) objs) in
      if objs = [] then Err NoObjects
      else if length folded \<noteq> length objs then Err NamesNotUniqueWithoutCase
      else Ok \<lparr>ct_objects = objs\<rparr>)"

datatype catalog_text = MissingFile | UnparsableFile | ParsedFile json

definition from_file :: "disk \<Rightarrow> catalog_text \<Rightarrow> path list \<Rightarrow> catalog_error + catalog" where
  "from_file d txt allowed_roots =
     (case txt of
        MissingFile \<Rightarrow> Err FileMissing
      | UnparsableFile \<Rightarrow> Err InvalidJson
      | ParsedFile raw \<Rightarrow>
          (case raw of
             JObj r \<Rightarrow>
               if \<not> json_is_one (jget ''version'' r) then Err BadVersion
               else (case jget ''objects'' r of
                 JList entries \<Rightarrow>
                   (let roots = map (dk_resolve d) allowed_roots in
                    if roots = [] then Err NoRoots
                    else rbind (rmap (parse_object d roots) entries) (\<lambda>specs.
                      if \<not> distinct (map ds_object_name specs) then Err NamesNotUnique
                      else make_catalog (specs @ metadata_catalog_specs d specs)))
               | _ \<Rightarrow> Err ObjectsNotAList)
           | _ \<Rightarrow> Err NotAMapping))"

definition catalog_get :: "string \<Rightarrow> catalog \<Rightarrow> dataset_spec option" where
  "catalog_get n c =
     map_of (dict_of_pairs (map (\<lambda>(m, s). (str_lower m, s)) (ct_objects c))) (str_lower n)"

definition object_names :: "catalog \<Rightarrow> string list" where
  "object_names c = map fst (ct_objects c)"

section \<open>Snapshot identity\<close>

record source_stat =
  ss_path :: path
  ss_size :: int
  ss_modified :: int

record snapshot_entry =
  se_name :: string
  se_id_field :: string
  se_soft_delete :: "string option"
  se_mode :: string
  se_schema :: schema
  se_sources :: "source_stat list"

definition stat_source :: "disk \<Rightarrow> path \<Rightarrow> catalog_error + source_stat" where
  "stat_source d p =
     (case dk_stat d p of
        None \<Rightarrow> Err (SourceVanished p)
      | Some (sz, mt) \<Rightarrow> Ok \<lparr>ss_path = p, ss_size = sz, ss_modified = mt\<rparr>)"

definition snapshot_entry_of :: "disk \<Rightarrow> dataset_spec \<Rightarrow> path list \<Rightarrow> catalog_error + snapshot_entry" where
  "snapshot_entry_of d s ps = rbind (rmap (stat_source d) ps) (\<lambda>st.
     Ok \<lparr>se_name = ds_object_name s, se_id_field = ds_id_field s,
         se_soft_delete = ds_soft_delete_field s, se_mode = ds_mode s, se_schema = ds_schema s,
         se_sources = st\<rparr>)"

text \<open>The caches of the catalog: one per object, in the order of the sorted names, and the one
  of the snapshot identifier. The digest is a parameter.\<close>

record catalog_caches =
  cc_sources :: "string \<Rightarrow> source_cache"
  cc_snapshot :: "(content_fp list, string) cache"

type_synonym 'a cached = "(catalog_caches, catalog_error, 'a) eff"

definition with_source_cache :: "string \<Rightarrow> (source_cache, catalog_error, 'a) eff \<Rightarrow> 'a cached" where
  "with_source_cache n m c =
     (case m (cc_sources c n) of (r, sc) \<Rightarrow> (r, c\<lparr>cc_sources := (cc_sources c)(n := sc)\<rparr>))"

fun emap :: "('a \<Rightarrow> ('s, 'e, 'b) eff) \<Rightarrow> 'a list \<Rightarrow> ('s, 'e, 'b list) eff" where
  "emap f [] = eret []"
| "emap f (x # xs) = ebind (f x) (\<lambda>y. ebind (emap f xs) (\<lambda>ys. eret (y # ys)))"

definition sorted_specs :: "catalog \<Rightarrow> dataset_spec list" where
  "sorted_specs c = map snd (sort_key fst (ct_objects c))"

definition compute_snapshot_id :: "(snapshot_entry list \<Rightarrow> string) \<Rightarrow> disk \<Rightarrow> catalog \<Rightarrow> string cached" where
  "compute_snapshot_id digest d c =
     ebind (emap (\<lambda>s. ebind (with_source_cache (ds_object_name s) (current_sources d s))
              (\<lambda>ps. elift (snapshot_entry_of d s ps))) (sorted_specs c))
       (\<lambda>es. eret (digest es))"

text \<open>\<open>_ResolutionCache.get\<close> with the computation run only on a miss.\<close>

definition snapshot_miss ::
  "(snapshot_entry list \<Rightarrow> string) \<Rightarrow> disk \<Rightarrow> catalog \<Rightarrow> content_fp list \<Rightarrow> string cached" where
  "snapshot_miss digest d c fps =
     ebind (compute_snapshot_id digest d c)
       (\<lambda>v. ebind (emodify (\<lambda>cc. cc\<lparr>cc_snapshot := \<lparr>ca_entry = Some (fps, v)\<rparr>\<rparr>)) (\<lambda>_. eret v))"

definition snapshot_id :: "(snapshot_entry list \<Rightarrow> string) \<Rightarrow> disk \<Rightarrow> catalog \<Rightarrow> string cached" where
  "snapshot_id digest d c =
     ebind (emap (\<lambda>s. with_source_cache (ds_object_name s) (content_fingerprint d s)) (sorted_specs c))
       (\<lambda>fps. ebind (eget cc_snapshot)
         (\<lambda>snap. case ca_entry snap of
            None \<Rightarrow> snapshot_miss digest d c fps
          | Some (f, v) \<Rightarrow> if f = fps then eret v else snapshot_miss digest d c fps))"

definition refresh_catalog :: "catalog \<Rightarrow> unit cached" where
  "refresh_catalog c = ebind (emodify (\<lambda>cc. cc\<lparr>cc_snapshot := empty_cache\<rparr>))
     (\<lambda>_. efor (map fst (ct_objects c)) (\<lambda>n. with_source_cache n refresh_spec))"

end
