(* ===== verification/CatalogProps.thy ===== *)
theory CatalogProps
  imports CatalogLoad
begin

text \<open>
  What the catalog guarantees: validated specifications are well formed and stay inside the
  allowed roots, lookups ignore case and are unambiguous, and the two memo caches answer as
  the uncached computations would.
\<close>

section \<open>Memoization\<close>

text \<open>The contract of a memo cache: equal fingerprints mean equal values.\<close>

definition coherent :: "('w \<Rightarrow> 'f) \<Rightarrow> ('w \<Rightarrow> 'e + 'v) \<Rightarrow> ('f, 'v) cache \<Rightarrow> bool" where
  "coherent fp compute c \<longleftrightarrow> (\<forall>w v. ca_entry c = Some (fp w, v) \<longrightarrow> compute w = Ok v)"

locale memo =
  fixes fp :: "'w \<Rightarrow> 'f" and compute :: "'w \<Rightarrow> 'e + 'v"
  assumes determined: "fp w = fp w' \<Longrightarrow> compute w = compute w'"
begin

lemma get_computes: "coherent fp compute c \<Longrightarrow> fst (cache_get (fp w) (compute w) c) = compute w"
  by (auto simp: cache_get_def coherent_def split: option.split sum.split)

lemma get_coherent: "coherent fp compute c \<Longrightarrow> coherent fp compute (snd (cache_get (fp w) (compute w) c))"
  by (auto simp: cache_get_def coherent_def split: option.split sum.split dest: determined)

lemma empty_coherent: "coherent fp compute empty_cache"
  by (simp add: coherent_def empty_cache_def)

lemma hit_keeps: "ca_entry c = Some (fp w, v) \<Longrightarrow> cache_get (fp w) r c = (Ok v, c)"
  by (simp add: cache_get_def)

end

text \<open>The snapshot identifier is a function of the content fingerprint: the fingerprint holds
  the path and the signature of every resolved file, and the identifier reads nothing else of
  the disk.\<close>

definition content_fps :: "dataset_spec list \<Rightarrow> disk \<times> (string \<Rightarrow> path list) \<Rightarrow> content_fp list" where
  "content_fps specs w = map (\<lambda>s. (structural_fingerprint (fst w) s,
     map (\<lambda>p. (p, file_signature (fst w) p)) (snd w (ds_object_name s)))) specs"

definition snapshot_of ::
  "(snapshot_entry list \<Rightarrow> string) \<Rightarrow> dataset_spec list \<Rightarrow> disk \<times> (string \<Rightarrow> path list)
   \<Rightarrow> catalog_error + string" where
  "snapshot_of digest specs w =
     rbind (rmap (\<lambda>s. snapshot_entry_of (fst w) s (snd w (ds_object_name s))) specs) (\<lambda>es. Ok (digest es))"

lemma stat_source_signature:
  "map (\<lambda>p. (p, file_signature d p)) ps = map (\<lambda>p. (p, file_signature d' p)) ps' \<Longrightarrow>
   rmap (stat_source d) ps = rmap (stat_source d') ps'"
proof (induction ps arbitrary: ps')
  case (Cons p ps)
  then obtain q qs where ps': "ps' = q # qs" by (cases ps') auto
  with Cons.prems have "p = q" "dk_stat d p = dk_stat d' q" by (auto simp: file_signature_def)
  then have "stat_source d p = stat_source d' q" by (simp add: stat_source_def)
  moreover have "rmap (stat_source d) ps = rmap (stat_source d') qs"
    using Cons.prems ps' by (intro Cons.IH) simp
  ultimately show ?case by (simp add: ps')
qed simp

interpretation snap: memo "content_fps specs" "snapshot_of digest specs" for specs digest
proof
  fix w w' :: "disk \<times> (string \<Rightarrow> path list)"
  assume eq: "content_fps specs w = content_fps specs w'"
  have "rmap (\<lambda>s. snapshot_entry_of (fst w) s (snd w (ds_object_name s))) specs
      = rmap (\<lambda>s. snapshot_entry_of (fst w') s (snd w' (ds_object_name s))) specs"
    using eq
  proof (induction specs)
    case (Cons s specs)
    then show ?case
      using stat_source_signature [of "fst w" "snd w (ds_object_name s)" "fst w'" "snd w' (ds_object_name s)"]
      by (simp add: content_fps_def snapshot_entry_of_def)
  qed (simp add: content_fps_def)
  then show "snapshot_of digest specs w = snapshot_of digest specs w'"
    by (simp add: snapshot_of_def)
qed

text \<open>A source cache is right for a disk state when a hit returns what resolution would.\<close>

definition source_fresh :: "disk \<Rightarrow> dataset_spec \<Rightarrow> source_cache \<Rightarrow> bool" where
  "source_fresh d s c \<longleftrightarrow>
     (\<forall>v. ca_entry c = Some (structural_fingerprint d s, v) \<longrightarrow> resolve_sources d s = Ok v)"

lemma current_sources_fresh:
  assumes "source_fresh d s c"
  shows "fst (current_sources d s c) = resolve_sources d s" "source_fresh d s (snd (current_sources d s c))"
  using assms
  by (auto simp: current_sources_def cache_get_def source_fresh_def split: option.split sum.split)

definition sources_fresh :: "disk \<Rightarrow> dataset_spec list \<Rightarrow> catalog_caches \<Rightarrow> bool" where
  "sources_fresh d specs cc \<longleftrightarrow> (\<forall>s \<in> set specs. source_fresh d s (cc_sources cc (ds_object_name s)))"

lemma with_source_cache_current:
  assumes "sources_fresh d specs cc" "s \<in> set specs" "distinct (map ds_object_name specs)"
  shows "fst (with_source_cache (ds_object_name s) (current_sources d s) cc) = resolve_sources d s"
    and "sources_fresh d specs (snd (with_source_cache (ds_object_name s) (current_sources d s) cc))"
    and "cc_snapshot (snd (with_source_cache (ds_object_name s) (current_sources d s) cc)) = cc_snapshot cc"
proof -
  have f: "source_fresh d s (cc_sources cc (ds_object_name s))"
    using assms by (simp add: sources_fresh_def)
  obtain r sc where run: "current_sources d s (cc_sources cc (ds_object_name s)) = (r, sc)"
    by (cases "current_sources d s (cc_sources cc (ds_object_name s))") auto
  have r: "r = resolve_sources d s" "source_fresh d s sc"
    using current_sources_fresh [OF f] run by auto
  have same: "t = s" if "t \<in> set specs" "ds_object_name t = ds_object_name s" for t
    using that assms(2,3) by (auto simp: distinct_map inj_on_def)
  show "fst (with_source_cache (ds_object_name s) (current_sources d s) cc) = resolve_sources d s"
    by (simp add: with_source_cache_def run r)
  show "sources_fresh d specs (snd (with_source_cache (ds_object_name s) (current_sources d s) cc))"
    using assms(1) r same by (auto simp: with_source_cache_def run sources_fresh_def)
  show "cc_snapshot (snd (with_source_cache (ds_object_name s) (current_sources d s) cc)) = cc_snapshot cc"
    by (simp add: with_source_cache_def run)
qed

text \<open>A traversal of the specifications that reads each one's sources.\<close>

lemma emap_sources:
  assumes "sources_fresh d specs cc" "set ss \<subseteq> set specs" "distinct (map ds_object_name specs)"
    and step: "\<And>s cc. s \<in> set ss \<Longrightarrow> f s cc =
      (case with_source_cache (ds_object_name s) (current_sources d s) cc of
         (Err e, t) \<Rightarrow> (Err e, t) | (Ok ps, t) \<Rightarrow> (g s ps, t))"
  shows "fst (emap f ss cc) = rmap (\<lambda>s. rbind (resolve_sources d s) (g s)) ss"
    and "sources_fresh d specs (snd (emap f ss cc))"
    and "cc_snapshot (snd (emap f ss cc)) = cc_snapshot cc"
proof -
  have "fst (emap f ss cc) = rmap (\<lambda>s. rbind (resolve_sources d s) (g s)) ss
      \<and> sources_fresh d specs (snd (emap f ss cc)) \<and> cc_snapshot (snd (emap f ss cc)) = cc_snapshot cc"
    using assms(1,2) step
  proof (induction ss arbitrary: cc)
    case (Cons s ss)
    obtain r t where run: "with_source_cache (ds_object_name s) (current_sources d s) cc = (r, t)"
      by (cases "with_source_cache (ds_object_name s) (current_sources d s) cc")
    have t: "r = resolve_sources d s" "sources_fresh d specs t" "cc_snapshot t = cc_snapshot cc"
      using with_source_cache_current [OF Cons.prems(1) _ assms(3), of s] Cons.prems(2) run by auto
    have IH: "fst (emap f ss t) = rmap (\<lambda>s. rbind (resolve_sources d s) (g s)) ss
      \<and> sources_fresh d specs (snd (emap f ss t)) \<and> cc_snapshot (snd (emap f ss t)) = cc_snapshot t"
      using Cons t by auto
    have fs: "f s cc = (rbind r (g s), t)"
      using Cons.prems(3) [of s] run by (cases r) auto
    show ?case
      using IH t fs by (cases "rbind r (g s)"; cases "emap f ss t")
        (auto simp: ebind_def eret_def split: sum.splits)
  qed (simp add: eret_def)
  then show "fst (emap f ss cc) = rmap (\<lambda>s. rbind (resolve_sources d s) (g s)) ss"
    "sources_fresh d specs (snd (emap f ss cc))" "cc_snapshot (snd (emap f ss cc)) = cc_snapshot cc"
    by simp_all
qed

definition sources_at :: "disk \<Rightarrow> dataset_spec list \<Rightarrow> catalog_error + (string \<Rightarrow> path list)" where
  "sources_at d specs =
     rbind (rmap (\<lambda>s. rbind (resolve_sources d s) (\<lambda>ps. Ok (ds_object_name s, ps))) specs)
       (\<lambda>kvs. Ok (\<lambda>n. dict_get_or kvs n []))"

text \<open>The identifier computed with no cache at all.\<close>

definition uncached_snapshot_id ::
  "(snapshot_entry list \<Rightarrow> string) \<Rightarrow> disk \<Rightarrow> catalog \<Rightarrow> catalog_error + string" where
  "uncached_snapshot_id digest d c =
     rbind (rmap (\<lambda>s. rbind (resolve_sources d s) (snapshot_entry_of d s)) (sorted_specs c))
       (\<lambda>es. Ok (digest es))"

definition uncached_fps :: "disk \<Rightarrow> catalog \<Rightarrow> catalog_error + content_fp list" where
  "uncached_fps d c =
     rmap (\<lambda>s. rbind (resolve_sources d s)
       (\<lambda>ps. Ok (structural_fingerprint d s, map (\<lambda>p. (p, file_signature d p)) ps))) (sorted_specs c)"

lemma rmap_rbind_Ok:
  "rmap (\<lambda>s. rbind (f s) (\<lambda>x. Ok (g s x))) xs = Ok ys \<longleftrightarrow>
     (\<exists>zs. rmap f xs = Ok zs \<and> ys = map2 g xs zs)"
  by (induction xs arbitrary: ys) (auto simp: rbind_eq_Inr)

lemma rmap_rbind_given:
  "rmap f xs = Ok zs \<Longrightarrow> rmap (\<lambda>s. rbind (f s) (g s)) xs = rmap (\<lambda>(s, z). g s z) (zip xs zs)"
  by (induction xs arbitrary: zs) (auto simp: rbind_eq_Inr)

text \<open>Equal fingerprints of two disk states give equal identifiers.\<close>

lemma uncached_determined:
  assumes "uncached_fps d c = Ok fps" "uncached_fps d' c = Ok fps"
  shows "uncached_snapshot_id digest d c = uncached_snapshot_id digest d' c"
proof -
  let ?specs = "sorted_specs c"
  from assms obtain zs zs' where zs: "rmap (resolve_sources d) ?specs = Ok zs"
    and zs': "rmap (resolve_sources d') ?specs = Ok zs'"
    and fps: "fps = map2 (\<lambda>s ps. (structural_fingerprint d s, map (\<lambda>p. (p, file_signature d p)) ps)) ?specs zs"
    and fps': "fps = map2 (\<lambda>s ps. (structural_fingerprint d' s, map (\<lambda>p. (p, file_signature d' p)) ps)) ?specs zs'"
    by (auto simp: uncached_fps_def rmap_rbind_Ok)
  have len: "length zs = length ?specs" "length zs' = length ?specs"
    using zs zs' by (auto dest: rmap_length)
  have "rmap (\<lambda>(s, z). snapshot_entry_of d s z) (zip ss ys) = rmap (\<lambda>(s, z). snapshot_entry_of d' s z) (zip ss ys')"
    if "length ys = length ss" "length ys' = length ss"
      "map2 (\<lambda>s ps. (structural_fingerprint d s, map (\<lambda>p. (p, file_signature d p)) ps)) ss ys
       = map2 (\<lambda>s ps. (structural_fingerprint d' s, map (\<lambda>p. (p, file_signature d' p)) ps)) ss ys'" for ss ys ys'
    using that
  proof (induction ss arbitrary: ys ys')
    case (Cons s ss)
    then obtain z zs0 z' zs0' where "ys = z # zs0" "ys' = z' # zs0'"
      by (cases ys; cases ys') auto
    with Cons show ?case
      using stat_source_signature [of d z d' z'] by (auto simp: snapshot_entry_of_def)
  qed simp
  from this [OF len] fps fps' show ?thesis
    by (simp add: uncached_snapshot_id_def rmap_rbind_given [OF zs] rmap_rbind_given [OF zs'])
qed

lemma compute_snapshot_answer:
  assumes "sources_fresh d (sorted_specs c) t" "distinct (map ds_object_name (sorted_specs c))"
  shows "fst (compute_snapshot_id digest d c t) = uncached_snapshot_id digest d c"
proof -
  let ?f = "\<lambda>s. ebind (with_source_cache (ds_object_name s) (current_sources d s))
              (\<lambda>ps. elift (snapshot_entry_of d s ps))"
  have step: "?f s cc = (case with_source_cache (ds_object_name s) (current_sources d s) cc of
         (Err e, u) \<Rightarrow> (Err e, u) | (Ok ps, u) \<Rightarrow> (snapshot_entry_of d s ps, u))" for s cc
    by (auto simp: ebind_def elift_def split: prod.splits sum.splits)
  obtain r u where run: "emap ?f (sorted_specs c) t = (r, u)" by (cases "emap ?f (sorted_specs c) t")
  have r: "r = rmap (\<lambda>s. rbind (resolve_sources d s) (snapshot_entry_of d s)) (sorted_specs c)"
    using emap_sources(1) [OF assms(1) order_refl assms(2) step] run by simp
  show ?thesis
    unfolding compute_snapshot_id_def uncached_snapshot_id_def ebind_def [of "emap ?f (sorted_specs c)"]
      run r [symmetric]
    by (cases r) (simp_all add: eret_def)
qed

lemma snapshot_id_answer:
  assumes fresh: "sources_fresh d (sorted_specs c) cc" and dist: "distinct (map ds_object_name (sorted_specs c))"
    and fps: "uncached_fps d c = Ok fps"
    and snap: "\<And>v. ca_entry (cc_snapshot cc) = Some (fps, v) \<Longrightarrow> uncached_snapshot_id digest d c = Ok v"
  shows "fst (snapshot_id digest d c cc) = uncached_snapshot_id digest d c"
proof -
  let ?fp = "\<lambda>s. with_source_cache (ds_object_name s) (content_fingerprint d s)"
  have step: "?fp s cc = (case with_source_cache (ds_object_name s) (current_sources d s) cc of
         (Err e, t) \<Rightarrow> (Err e, t)
       | (Ok ps, t) \<Rightarrow> (Ok (structural_fingerprint d s, map (\<lambda>p. (p, file_signature d p)) ps), t))" for s cc
    by (auto simp: with_source_cache_def content_fingerprint_def ebind_def eret_def split: prod.splits sum.splits)
  obtain r t where run: "emap ?fp (sorted_specs c) cc = (r, t)" by (cases "emap ?fp (sorted_specs c) cc")
  have r: "r = Ok fps" and tf: "sources_fresh d (sorted_specs c) t" and ts: "cc_snapshot t = cc_snapshot cc"
    using emap_sources [OF fresh order_refl dist step] run fps by (simp_all add: uncached_fps_def)
  have miss: "fst (snapshot_miss digest d c fps t) = uncached_snapshot_id digest d c"
  proof -
    obtain computed t' where comp: "compute_snapshot_id digest d c t = (computed, t')"
      by (cases "compute_snapshot_id digest d c t")
    then have "computed = uncached_snapshot_id digest d c"
      using compute_snapshot_answer [OF tf dist, of digest] by simp
    then show ?thesis
      by (cases computed) (simp_all add: snapshot_miss_def ebind_def comp emodify_def eret_def flip: \<open>computed = _\<close>)
  qed
  show ?thesis
    using miss snap
    by (auto simp: snapshot_id_def ebind_def [of "emap ?fp (sorted_specs c)"] run r ts
        ebind_def [of "eget cc_snapshot"] eget_def eret_def split: option.split)
qed

section \<open>Sources stay under the allowed roots\<close>

definition under_roots :: "path list \<Rightarrow> path list \<Rightarrow> bool" where
  "under_roots roots ps \<longleftrightarrow> (\<forall>p \<in> set ps. \<exists>r \<in> set roots. path_under p r)"

lemma keep_candidate_under:
  "keep_candidate d roots c acc = Ok acc' \<Longrightarrow> under_roots roots acc \<Longrightarrow> under_roots roots acc'"
  by (auto simp: keep_candidate_def under_roots_def Let_def split: if_splits)

lemma expand_source_under: "expand_source d pat roots = Ok ps \<Longrightarrow> under_roots roots ps"
proof -
  assume "expand_source d pat roots = Ok ps"
  then obtain ms where ms: "rfold (\<lambda>acc c. keep_candidate d roots c acc) []
      (concat (map (\<lambda>r. dk_glob d r pat) roots)) = Ok ms" and ps: "ps = sorted_set ms"
    by (auto simp: expand_source_def rbind_eq_Inr)
  have "under_roots roots ms"
    by (rule rfold_invariant [OF ms]) (auto simp: under_roots_def intro: keep_candidate_under [unfolded under_roots_def, rule_format])
  with ps show ?thesis by (simp add: under_roots_def sorted_set_def)
qed

lemma source_matches_under:
  "source_matches d roots n decl acc v = Ok acc' \<Longrightarrow> under_roots roots acc \<Longrightarrow> under_roots roots acc'"
  by (cases v) (auto simp: source_matches_def rbind_eq_Inr under_roots_def split: if_splits
      dest!: expand_source_under)

section \<open>Well-formed specifications\<close>

definition spec_wf :: "path list \<Rightarrow> dataset_spec \<Rightarrow> bool" where
  "spec_wf roots s \<longleftrightarrow> valid_object_name (ds_object_name s)
     \<and> under_roots roots (ds_sources s) \<and> ds_data_roots s = roots
     \<and> ds_id_field s \<noteq> [] \<and> ds_id_field s \<in> set (schema_names (ds_schema s))
     \<and> (\<forall>f. ds_soft_delete_field s = Some f \<longrightarrow> f \<in> set (schema_names (ds_schema s)))
     \<and> (\<forall>f. ds_version_field s = Some f \<longrightarrow> f \<noteq> [] \<and> f \<in> set (schema_names (ds_schema s)))
     \<and> (ds_delta_patterns s \<noteq> [] \<longrightarrow> ds_version_field s \<noteq> None)
     \<and> (\<forall>(a, src) \<in> set (ds_aliases s). a \<in> set (schema_names (ds_schema s))
          \<and> src \<in> set (schema_names (ds_schema s)))
     \<and> ds_mode s \<in> {''read_only'', ''mutable''}"

lemma schema_names_simps [simp]:
  "schema_names (a @ b) = schema_names a @ schema_names b" "schema_names [(x, t)] = [x]"
  by (simp_all add: schema_names_def)

lemma schema_names_map_of: "map_of sch k = Some t \<Longrightarrow> k \<in> set (schema_names sch)"
  by (auto simp: schema_names_def dest!: map_of_SomeD intro: rev_image_eqI)

lemma add_alias_fold:
  assumes "rfold (add_alias n sch) acc als = Ok res" "set (schema_names sch) \<subseteq> set (schema_names (fst acc))"
    "\<forall>(a, src) \<in> set (snd acc). a \<in> set (schema_names (fst acc)) \<and> src \<in> set (schema_names sch)"
  shows "set (schema_names sch) \<subseteq> set (schema_names (fst res))
    \<and> (\<forall>(a, src) \<in> set (snd res). a \<in> set (schema_names (fst res)) \<and> src \<in> set (schema_names sch))"
proof (rule rfold_invariant [OF assms(1), where P = "\<lambda>acc. set (schema_names sch) \<subseteq> set (schema_names (fst acc))
    \<and> (\<forall>(a, src) \<in> set (snd acc). a \<in> set (schema_names (fst acc)) \<and> src \<in> set (schema_names sch))"])
  fix acc x acc'
  assume "add_alias n sch acc x = Ok acc'" and inv: "set (schema_names sch) \<subseteq> set (schema_names (fst acc))
    \<and> (\<forall>(a, src) \<in> set (snd acc). a \<in> set (schema_names (fst acc)) \<and> src \<in> set (schema_names sch))"
  then obtain t where t: "map_of sch (snd x) = Some t"
    and acc': "acc' = acc \<or> acc' = (fst acc @ [(fst x, t)], snd acc @ [x])"
    by (auto simp: add_alias_def split: option.splits if_splits)
  have "snd x \<in> set (schema_names sch)"
    using t by (rule schema_names_map_of)
  with inv acc' show "set (schema_names sch) \<subseteq> set (schema_names (fst acc'))
    \<and> (\<forall>(a, src) \<in> set (snd acc'). a \<in> set (schema_names (fst acc')) \<and> src \<in> set (schema_names sch))"
    by (cases x) auto
qed (use assms(2,3) in blast)

lemma finish_object_wf:
  assumes "finish_object d roots n ps decl idf sdf mode deltas vf als = Ok s"
    and "valid_object_name n" "under_roots roots ps" "idf \<noteq> []" "vf \<noteq> Some []"
      "deltas \<noteq> [] \<longrightarrow> vf \<noteq> None" "mode \<in> {''read_only'', ''mutable''}"
  shows "spec_wf roots s \<and> ds_object_name s = n"
proof -
  from assms(1) obtain sch full used where f: "rfold (add_alias n sch) (sch, []) als = Ok (full, used)"
    and names: "idf \<in> set (schema_names sch)" "case sdf of None \<Rightarrow> True | Some f \<Rightarrow> f \<in> set (schema_names sch)"
      "case vf of None \<Rightarrow> True | Some f \<Rightarrow> f \<in> set (schema_names full)"
    and s: "s = \<lparr>ds_object_name = n, ds_sources = ps, ds_id_field = idf,
           ds_soft_delete_field = sdf, ds_mode = mode, ds_schema = full, ds_data_roots = roots,
           ds_delta_patterns = deltas, ds_version_field = vf, ds_aliases = used,
           ds_computed_table = None, ds_supports_limit = True, ds_supports_ne = True,
           ds_required_filter_fields = []\<rparr>"
    by (auto simp: finish_object_def rbind_eq_Inr)
  have "set (schema_names sch) \<subseteq> set (schema_names full)
    \<and> (\<forall>(a, src) \<in> set used. a \<in> set (schema_names full) \<and> src \<in> set (schema_names sch))"
    using add_alias_fold [OF f] by auto
  with names assms(2-) show ?thesis
    by (auto simp: spec_wf_def s split: option.splits)
qed

lemma parse_options_wf:
  assumes "parse_options d roots n e ps decl = Ok s" "valid_object_name n" "under_roots roots ps"
  shows "spec_wf roots s \<and> ds_object_name s = n"
proof -
  from assms(1) obtain idf sdf mode deltas vf als where
    f: "finish_object d roots n ps decl idf sdf mode deltas vf als = Ok s"
    and "idf \<noteq> []" "vf \<noteq> Some []" "\<not> (deltas \<noteq> [] \<and> vf = None)"
    and m: "check_mode n (jget_or ''mode'' (JStr ''read_only'') e) = Ok mode"
    by (auto simp: parse_options_def rbind_eq_Inr optional_nonempty_def nonempty_string_def
        split: json.splits if_splits)
  moreover from m have "mode \<in> {''read_only'', ''mutable''}"
    by (auto simp: check_mode_def split: json.splits if_splits)
  ultimately show ?thesis using assms(2,3) by (intro finish_object_wf [OF f]) auto
qed

lemma parse_object_wf: "parse_object d roots entry = Ok s \<Longrightarrow> spec_wf roots s"
proof -
  assume "parse_object d roots entry = Ok s"
  then obtain e n srcs decl ps where "valid_object_name n"
    and ps: "rfold (source_matches d roots n decl) [] srcs = Ok ps"
    and opts: "parse_options d roots n e ps decl = Ok s"
    by (auto simp: parse_object_def rbind_eq_Inr split: json.splits if_splits)
  moreover have "under_roots roots ps"
    by (rule rfold_invariant [OF ps]) (auto simp: under_roots_def [of roots "[]"] intro: source_matches_under)
  ultimately show ?thesis using parse_options_wf by blast
qed

section \<open>Lookups\<close>

lemma dict_of_pairs_distinct: "distinct (map fst (dict_of_pairs kvs))"
  by (simp add: dict_of_pairs_def distinct_dict_update)

lemma dict_of_pairs_map: "map_of (dict_of_pairs kvs) k = map_of (rev kvs) k"
  by (simp add: dict_of_pairs_def map_of_dict_update split: option.split)

lemma keys_dict_update: "set (map fst (dict_update d kvs)) = set (map fst d) \<union> set (map fst kvs)"
  by (induction d kvs rule: dict_update.induct) (auto simp: dom_update)

lemma keys_dict_of_pairs: "set (map fst (dict_of_pairs kvs)) = set (map fst kvs)"
  by (simp only: dict_of_pairs_def keys_dict_update) simp

lemma length_dict_of_pairs: "length (dict_of_pairs kvs) = card (set (map fst kvs))"
  using dict_of_pairs_distinct [of kvs] keys_dict_of_pairs [of kvs]
  by (metis distinct_card length_map)

lemma dict_of_pairs_in: "kv \<in> set (dict_of_pairs kvs) \<Longrightarrow> kv \<in> set kvs"
proof (cases kv)
  case (Pair k v)
  assume "kv \<in> set (dict_of_pairs kvs)"
  then have "map_of (dict_of_pairs kvs) k = Some v"
    using dict_of_pairs_distinct Pair by (metis map_of_is_SomeI)
  then show ?thesis using Pair by (auto simp: dict_of_pairs_map dest!: map_of_SomeD)
qed

definition catalog_wf :: "catalog \<Rightarrow> bool" where
  "catalog_wf c \<longleftrightarrow> distinct (map fst (ct_objects c))
     \<and> distinct (map (str_lower \<circ> fst) (ct_objects c))
     \<and> (\<forall>(n, s) \<in> set (ct_objects c). ds_object_name s = n)"

lemma make_catalog_objects:
  "make_catalog specs = Ok c \<Longrightarrow> ct_objects c = dict_of_pairs (map (\<lambda>s. (ds_object_name s, s)) specs)"
  by (auto simp: make_catalog_def Let_def split: if_splits)

lemma make_catalog_wf: "make_catalog specs = Ok c \<Longrightarrow> catalog_wf c"
proof -
  assume ok: "make_catalog specs = Ok c"
  let ?objs = "dict_of_pairs (map (\<lambda>s. (ds_object_name s, s)) specs)"
  from ok have c: "ct_objects c = ?objs"
    and len: "length (dict_of_pairs (map (\<lambda>(n, s). (str_lower n, s)) ?objs)) = length ?objs"
    by (auto simp: make_catalog_def Let_def split: if_splits)
  from len have "card (set (map (str_lower \<circ> fst) ?objs)) = length ?objs"
    by (simp add: length_dict_of_pairs comp_def case_prod_beta)
  then have "distinct (map (str_lower \<circ> fst) ?objs)" by (intro card_distinct) simp
  moreover have "ds_object_name s = n" if "(n, s) \<in> set ?objs" for n s
  proof -
    have "map_of ?objs n = Some s" using that dict_of_pairs_distinct by (metis map_of_is_SomeI)
    then have "map_of (rev (map (\<lambda>s. (ds_object_name s, s)) specs)) n = Some s" by (simp add: dict_of_pairs_map)
    then show ?thesis by (auto dest!: map_of_SomeD)
  qed
  ultimately show ?thesis using dict_of_pairs_distinct by (auto simp: catalog_wf_def c)
qed

lemma dict_of_pairs_id: "distinct (map fst kvs) \<Longrightarrow> map_of (dict_of_pairs kvs) = map_of kvs"
  by (rule ext) (simp add: dict_of_pairs_map map_of_distinct_rev)

lemma catalog_get_iff:
  assumes "catalog_wf c"
  shows "catalog_get q c = Some s \<longleftrightarrow> (\<exists>n. (n, s) \<in> set (ct_objects c) \<and> str_lower n = str_lower q)"
proof -
  let ?f = "map (\<lambda>(m, s). (str_lower m, s)) (ct_objects c)"
  have d: "distinct (map fst ?f)" using assms by (simp add: catalog_wf_def comp_def case_prod_beta)
  have "catalog_get q c = Some s \<longleftrightarrow> (str_lower q, s) \<in> set ?f"
    unfolding catalog_get_def dict_of_pairs_id [OF d] using d map_of_eq_Some_iff by metis
  then show ?thesis by force
qed

section \<open>Properties\<close>


definition wit_disk :: disk where
  "wit_disk = \<lparr>
     dk_glob = (\<lambda>r pat. if pat = ''accounts.parquet'' then [r @ [''accounts.parquet'']] else []),
     dk_resolve = (\<lambda>p. p),
     dk_is_file = (\<lambda>p. p = [''data'', ''accounts.parquet'']),
     dk_stat = (\<lambda>p. Some (10, 20)),
     dk_scandir = (\<lambda>p. None),
     dk_parquet_schema = (\<lambda>p. [(''Id'', ArrowString), (''IsDeleted'', ArrowBool), (''Name'', ArrowString)]),
     dk_csv_header = (\<lambda>p. None),
     dk_first_value = (\<lambda>p f. Some ''001000''),
     dk_mtime_us = (\<lambda>p. 0)\<rparr>"

definition wit_raw :: json where
  "wit_raw = JObj [(''version'', JInt 1), (''objects'', JList [
     JObj [(''name'', JStr ''Account''), (''sources'', JList [JStr ''accounts.parquet''])]])]"

definition wit_spec :: dataset_spec where
  "wit_spec = \<lparr>ds_object_name = ''Account'', ds_sources = [[''data'', ''accounts.parquet'']],
     ds_id_field = ''Id'', ds_soft_delete_field = Some ''IsDeleted'', ds_mode = ''read_only'',
     ds_schema = [(''Id'', ArrowString), (''IsDeleted'', ArrowBool), (''Name'', ArrowString)],
     ds_data_roots = [[''data'']], ds_delta_patterns = [], ds_version_field = None, ds_aliases = [],
     ds_computed_table = None, ds_supports_limit = True, ds_supports_ne = True,
     ds_required_filter_fields = []\<rparr>"

definition wit_catalog :: catalog where
  "wit_catalog = (case from_file wit_disk (ParsedFile wit_raw) [[''data'']] of Ok c \<Rightarrow> c | Err _ \<Rightarrow> \<lparr>ct_objects = []\<rparr>)"

lemma wit_from_file: "from_file wit_disk (ParsedFile wit_raw) [[''data'']] = Ok wit_catalog"
proof -
  have "is_ok (from_file wit_disk (ParsedFile wit_raw) [[''data'']])" by code_simp
  then show ?thesis by (auto simp: is_ok_def wit_catalog_def split: sum.splits)
qed

lemma wit_get: "catalog_get ''ACCOUNT'' wit_catalog = Some wit_spec"
  by code_simp


text \<open>
  object names are resolved without regard to case and unambiguously: a lookup finds
  the specification whose canonical name equals the request up to case, and no other object
  of the catalog answers to that name.\<close>

theorem catalog_get_unambiguous:
  assumes "make_catalog specs = Ok c"
  shows "(catalog_get q c = Some s \<longleftrightarrow> (\<exists>n. (n, s) \<in> set (ct_objects c) \<and> str_lower n = str_lower q))
    \<and> (catalog_get q c = Some s \<longrightarrow> catalog_get (ds_object_name s) c = Some s)"
proof -
  have wf: "catalog_wf c" using make_catalog_wf [OF assms] .
  have "catalog_get q c = Some s \<Longrightarrow> catalog_get (ds_object_name s) c = Some s"
    using wf by (fastforce simp: catalog_get_iff catalog_wf_def)
  with catalog_get_iff [OF wf] show ?thesis by blast
qed

theorem catalog_get_unambiguous_witness:
  "catalog_get ''aCCount'' \<lparr>ct_objects = [(''Account'', wit_spec)]\<rparr> = Some wit_spec"
proof -
  have "make_catalog [wit_spec] = Ok \<lparr>ct_objects = [(''Account'', wit_spec)]\<rparr>" by code_simp
  note mk = this
  have "str_lower ''Account'' = str_lower ''aCCount''" by code_simp
  with catalog_get_unambiguous [OF mk, of "''aCCount''" wit_spec] show ?thesis by simp
qed


definition wit_caches :: catalog_caches where
  "wit_caches = \<lparr>cc_sources = (\<lambda>_. empty_cache), cc_snapshot = empty_cache\<rparr>"


text \<open>
  an object configured under the exact name of a computed metadata object passes
  validation and is then silently replaced: only names that differ from
  \<open>EntityDefinition\<close> in case are rejected.\<close>

theorem configured_entity_definition_overwritten:
  "make_catalog [s\<lparr>ds_object_name := ''EntityDefinition''\<rparr>, entity_definition_spec d specs kps]
     = Ok \<lparr>ct_objects = [(''EntityDefinition'', entity_definition_spec d specs kps)]\<rparr>
   \<and> make_catalog [s\<lparr>ds_object_name := ''entitydefinition''\<rparr>, entity_definition_spec d specs kps]
     = Err NamesNotUniqueWithoutCase"
proof -
  have "str_lower ''EntityDefinition'' = str_lower ''entitydefinition''" by code_simp
  then show ?thesis
    by (simp add: make_catalog_def entity_definition_spec_def computed_spec_def dict_of_pairs_def)
qed

end
