(* ===== verification/Config.thy ===== *)
theory Config
  imports PyStr
begin

text \<open>
  \<open>fakeforce/config.py\<close> and \<open>simulator/config.py\<close>: the settings records and their
  construction from the environment. The environment is a partial map, \<open>ROOT\<close> an
  argument; paths are kept as their text.
\<close>

type_synonym env = "string \<Rightarrow> string option"

definition env_get :: "env \<Rightarrow> string \<Rightarrow> string \<Rightarrow> string" where
  "env_get e k v = (case e k of None \<Rightarrow> v | Some x \<Rightarrow> x)"

datatype config_error = NotAnInteger string string | NotPositive string int

definition positive_int :: "string \<Rightarrow> string \<Rightarrow> config_error + int" where
  "positive_int v name =
     (case py_int v of
        None \<Rightarrow> Err (NotAnInteger name v)
      | Some n \<Rightarrow> if n \<le> 0 then Err (NotPositive name n) else Ok n)"

definition env_int :: "env \<Rightarrow> string \<Rightarrow> string \<Rightarrow> config_error + int" where
  "env_int e name v = positive_int (env_get e name v) name"

record settings =
  se_seed_directory :: string
  se_catalog_path :: string
  se_data_roots :: "string list"
  se_state_directory :: string
  se_bulk_query_results_directory :: string
  se_memory_limit :: string
  se_temp_directory :: string
  se_max_temp_size :: string
  se_disk_reserve_bytes :: int
  se_scan_batch_rows :: int
  se_batch_readahead :: int
  se_fragment_readahead :: int
  se_lightweight_request_workers :: int
  se_heavy_query_workers :: int
  se_bulk_workers :: int
  se_bulk_result_part_records :: int
  se_bulk_queue_delay_ms :: int
  se_bulk_job_retention_hours :: int
  se_bulk_ingest_max_upload_bytes :: int
  se_bulk_ingest_batch_records :: int
  se_sync_query_timeout_seconds :: int

definition settings_from_env :: "string \<Rightarrow> env \<Rightarrow> config_error + settings" where
  "settings_from_env root_dir e =
     (let state_dir = env_get e ''FAKEFORCE_STATE_DIR'' (root_dir @ ''/state'');
          seed_dir = env_get e ''FAKEFORCE_SEED_DIR'' (root_dir @ ''/seed'');
          roots = filter (\<lambda>v. v \<noteq> []) (split_chr (CHR '':'') (env_get e ''FAKEFORCE_DATA_ROOTS'' seed_dir)) in
      rbind (env_int e ''FAKEFORCE_DISK_RESERVE_BYTES'' (int_str (5 * 1024 ^ 3))) (\<lambda>reserve.
      rbind (env_int e ''FAKEFORCE_SCAN_BATCH_ROWS'' ''16384'') (\<lambda>scan.
      rbind (env_int e ''FAKEFORCE_BATCH_READAHEAD'' ''2'') (\<lambda>batch_ra.
      rbind (env_int e ''FAKEFORCE_FRAGMENT_READAHEAD'' ''1'') (\<lambda>frag_ra.
      rbind (env_int e ''FAKEFORCE_LIGHTWEIGHT_REQUEST_WORKERS'' ''8'') (\<lambda>light.
      rbind (env_int e ''FAKEFORCE_HEAVY_QUERY_WORKERS'' ''1'') (\<lambda>heavy.
      rbind (env_int e ''FAKEFORCE_BULK_WORKERS'' ''1'') (\<lambda>bulk.
      rbind (env_int e ''FAKEFORCE_BULK_RESULT_PART_RECORDS'' ''100000'') (\<lambda>part_rows.
      rbind (env_int e ''FAKEFORCE_BULK_QUEUE_DELAY_MS'' ''250'') (\<lambda>delay.
      rbind (env_int e ''FAKEFORCE_BULK_JOB_RETENTION_HOURS'' ''168'') (\<lambda>retention.
      rbind (env_int e ''FAKEFORCE_BULK_INGEST_MAX_UPLOAD_BYTES'' (int_str (1024 ^ 3))) (\<lambda>upload.
      rbind (env_int e ''FAKEFORCE_BULK_INGEST_BATCH_RECORDS'' ''1000'') (\<lambda>batch.
      rbind (env_int e ''FAKEFORCE_SYNC_QUERY_TIMEOUT_SECONDS'' ''120'') (\<lambda>timeout.
        Ok \<lparr>se_seed_directory = seed_dir,
            se_catalog_path = env_get e ''FAKEFORCE_CATALOG_PATH'' (root_dir @ ''/fakeforce/catalog.json''),
            se_data_roots = roots, se_state_directory = state_dir,
            se_bulk_query_results_directory =
              env_get e ''FAKEFORCE_BULK_QUERY_RESULTS_DIR'' (state_dir @ ''/bulk/query''),
            se_memory_limit = env_get e ''FAKEFORCE_MEMORY_LIMIT'' ''4GB'',
            se_temp_directory = env_get e ''FAKEFORCE_TEMP_DIRECTORY'' (state_dir @ ''/spill''),
            se_max_temp_size = env_get e ''FAKEFORCE_MAX_TEMP_SIZE'' ''100GB'',
            se_disk_reserve_bytes = reserve, se_scan_batch_rows = scan,
            se_batch_readahead = batch_ra, se_fragment_readahead = frag_ra,
            se_lightweight_request_workers = light, se_heavy_query_workers = heavy,
            se_bulk_workers = bulk, se_bulk_result_part_records = part_rows,
            se_bulk_queue_delay_ms = delay, se_bulk_job_retention_hours = retention,
            se_bulk_ingest_max_upload_bytes = upload, se_bulk_ingest_batch_records = batch,
            se_sync_query_timeout_seconds = timeout\<rparr>))))))))))))))"

record simulator_settings =
  sim_memory_limit :: string
  sim_temp_directory :: string
  sim_max_temp_size :: string
  sim_threads :: int

definition simulator_from_env :: "string \<Rightarrow> env \<Rightarrow> config_error + simulator_settings" where
  "simulator_from_env state_dir e =
     rbind (env_int e ''SIMULATION_DUCKDB_THREADS'' ''1'') (\<lambda>threads.
       Ok \<lparr>sim_memory_limit = env_get e ''SIMULATION_DUCKDB_MEMORY_LIMIT'' ''512MB'',
           sim_temp_directory =
             env_get e ''SIMULATION_DUCKDB_TEMP_DIRECTORY'' (state_dir @ ''/simulator-spill''),
           sim_max_temp_size = env_get e ''SIMULATION_DUCKDB_MAX_TEMP_SIZE'' ''20GB'',
           sim_threads = threads\<rparr>)"

definition duckdb_config :: "simulator_settings \<Rightarrow> (string \<times> string) list" where
  "duckdb_config s =
     [(''memory_limit'', sim_memory_limit s), (''temp_directory'', sim_temp_directory s),
      (''max_temp_directory_size'', sim_max_temp_size s), (''threads'', int_str (sim_threads s)),
      (''preserve_insertion_order'', ''false'')]"

section \<open>Validation\<close>

lemma positive_int_iff: "positive_int v name = Ok n \<longleftrightarrow> py_int v = Some n \<and> 0 < n"
  by (auto simp: positive_int_def split: option.split)

lemma env_int_pos: "env_int e name v = Ok n \<Longrightarrow> 0 < n"
  by (simp add: env_int_def positive_int_iff)

lemma env_int_printed: "e name = Some (int_str n) \<Longrightarrow> 0 < n \<Longrightarrow> env_int e name v = Ok n"
  by (simp add: env_int_def env_get_def positive_int_iff)

definition settings_limits :: "settings \<Rightarrow> int list" where
  "settings_limits s =
     [se_disk_reserve_bytes s, se_scan_batch_rows s, se_batch_readahead s, se_fragment_readahead s,
      se_lightweight_request_workers s, se_heavy_query_workers s, se_bulk_workers s,
      se_bulk_result_part_records s, se_bulk_queue_delay_ms s, se_bulk_job_retention_hours s,
      se_bulk_ingest_max_upload_bytes s, se_bulk_ingest_batch_records s,
      se_sync_query_timeout_seconds s]"

text \<open>The service starts only with positive limits.\<close>

lemma settings_limits_positive:
  "settings_from_env r e = Ok s \<Longrightarrow> n \<in> set (settings_limits s) \<Longrightarrow> 0 < n"
  unfolding settings_from_env_def Let_def
  by (auto simp: rbind_eq_Inr settings_limits_def dest!: env_int_pos)

lemma env_int_default: "py_int v = Some n \<Longrightarrow> 0 < n \<Longrightarrow> env_int (\<lambda>_. None) name v = Ok n"
  by (simp add: env_int_def env_get_def positive_int_iff)

lemma settings_default_ok: "is_ok (settings_from_env r (\<lambda>_. None))"
proof -
  have ints: "py_int ''16384'' = Some 16384" "py_int ''2'' = Some 2" "py_int ''1'' = Some 1"
    "py_int ''8'' = Some 8" "py_int ''100000'' = Some 100000" "py_int ''250'' = Some 250"
    "py_int ''168'' = Some 168" "py_int ''1000'' = Some 1000" "py_int ''120'' = Some 120"
    by (simp_all add: py_int_decimal is_decimal_def is_digit_def chr_between_def digits_val_def digit_val_def)
  show ?thesis
    unfolding settings_from_env_def Let_def
    by (simp only: env_int_default [OF ints(1)] env_int_default [OF ints(2)] env_int_default [OF ints(3)]
        env_int_default [OF ints(4)] env_int_default [OF ints(5)] env_int_default [OF ints(6)]
        env_int_default [OF ints(7)] env_int_default [OF ints(8)] env_int_default [OF ints(9)]
        env_int_default [OF py_int_int_str] rbind_simps is_ok_simps zero_less_numeral zero_less_one
        zero_less_power zero_less_mult_iff simp_thms)
qed

end
