(* ===== verification/Engine.thy ===== *)
theory Engine
  imports CatalogLoad Config
begin

text \<open>
  \<open>fakeforce/engine.py\<close>: the statements the engine issues, as text, and the relation the
  generated views denote. DuckDB is not modelled: the rows a file reader returns are an
  argument, and where several rows of one id share the greatest version the row
  \<open>row_number\<close> ranks first is chosen by the parameter \<open>pick\<close>.
\<close>

section \<open>Statements\<close>

datatype engine_error =
  UnknownObject string | EmptySourceNoSchema | MixedFormats | UnsupportedArrowType | NoComputedTable
| SourceError catalog_error | DiskReserve

datatype conn_op =
  Execute string | ExecuteWith string sql_value | RegisterRows string "sql_row list" | Unregister string
| CloseConnection

definition relation_name :: "string \<Rightarrow> catalog \<Rightarrow> engine_error + string" where
  "relation_name n c =
     (case catalog_get n c of None \<Rightarrow> Err (UnknownObject n) | Some _ \<Rightarrow> Ok (''ff_source_'' @ n))"

definition duckdb_type :: "arrow_type \<Rightarrow> engine_error + string" where
  "duckdb_type t =
     (case t of
        ArrowString \<Rightarrow> Ok ''VARCHAR'' | ArrowLargeString \<Rightarrow> Ok ''VARCHAR''
      | ArrowBool \<Rightarrow> Ok ''BOOLEAN'' | ArrowInt \<Rightarrow> Ok ''BIGINT'' | ArrowFloat \<Rightarrow> Ok ''DOUBLE''
      | ArrowDate \<Rightarrow> Ok ''DATE'' | ArrowTimestamp tz \<Rightarrow> Ok (if tz then ''TIMESTAMPTZ'' else ''TIMESTAMP'')
      | ArrowOther _ \<Rightarrow> Err UnsupportedArrowType)"

definition null_column :: "string \<times> arrow_type \<Rightarrow> engine_error + string" where
  "null_column f = rbind (duckdb_type (snd f))
     (\<lambda>t. Ok (''CAST(NULL AS '' @ t @ '') AS '' @ quote_identifier (fst f)))"

definition csv_path :: "path \<Rightarrow> bool" where
  "csv_path p \<longleftrightarrow> ends_with (path_name p) ''.csv'' \<or> ends_with (path_name p) ''.csv.gz''"

definition source_reader :: "path list \<Rightarrow> schema option \<Rightarrow> engine_error + string" where
  "source_reader ps sch =
     (if ps = [] then
        (case sch of
           None \<Rightarrow> Err EmptySourceNoSchema
         | Some fs \<Rightarrow> rbind (rmap null_column fs)
             (\<lambda>cols. Ok (''(SELECT '' @ join_with '', '' cols @ '' WHERE FALSE)'')))
      else
        (let sources = join_with '', '' (map (\<lambda>p. quote_literal (path_str p)) ps) in
         if list_all (\<lambda>p. ends_with (path_name p) ''.parquet'') ps
         then Ok (''read_parquet(['' @ sources @ ''], union_by_name = true)'')
         else if list_all csv_path ps
         then Ok (''read_csv_auto(['' @ sources @ ''], header = true, union_by_name = true)'')
         else Err MixedFormats))"

definition aliased_reader :: "dataset_spec \<Rightarrow> path list \<Rightarrow> engine_error + string" where
  "aliased_reader s ps =
     rbind (source_reader ps (Some (ds_schema s))) (\<lambda>reader.
       if ps \<noteq> [] \<and> ds_aliases s \<noteq> [] then
         Ok (''(SELECT *, '' @ join_with '', ''
               (map (\<lambda>(a, src). quote_identifier src @ '' AS '' @ quote_identifier a) (ds_aliases s))
             @ '' FROM '' @ reader @ '')'')
       else Ok reader)"

definition version_rank :: string where "version_rank = ''__fakeforce_version_rank''"
definition latest_delta :: string where "latest_delta = ''__fakeforce_latest_delta''"
definition base_name :: string where "base_name = ''__fakeforce_base''"

definition newest_per_id_sql :: "dataset_spec \<Rightarrow> string \<Rightarrow> string \<Rightarrow> string" where
  "newest_per_id_sql s vf reader =
     ''SELECT * EXCLUDE ('' @ version_rank @ '') FROM (SELECT *, row_number() OVER (PARTITION BY ''
     @ quote_identifier (ds_id_field s) @ '' ORDER BY '' @ quote_identifier vf @ '' DESC) AS ''
     @ version_rank @ '' FROM '' @ reader @ '') WHERE '' @ version_rank @ '' = 1''"

text \<open>The three shapes of a view, by what has been published.\<close>

definition latest_version_sql :: "dataset_spec \<Rightarrow> path list \<Rightarrow> path list \<Rightarrow> engine_error + string" where
  "latest_version_sql s sources base_files =
     (case ds_version_field s of
        None \<Rightarrow> rbind (aliased_reader s sources) (\<lambda>r. Ok (''SELECT * FROM '' @ r))
      | Some vf \<Rightarrow>
          (let base_paths = filter (\<lambda>p. p \<in> set base_files) sources;
               delta_paths = filter (\<lambda>p. p \<notin> set base_files) sources in
           if delta_paths = [] then rbind (aliased_reader s base_paths) (\<lambda>r. Ok (''SELECT * FROM '' @ r))
           else rbind (aliased_reader s delta_paths) (\<lambda>dr.
             let latest = newest_per_id_sql s vf dr in
             if base_paths = [] then Ok latest
             else rbind (aliased_reader s base_paths) (\<lambda>br.
               let idf = quote_identifier (ds_id_field s) in
               Ok (''WITH '' @ latest_delta @ '' AS MATERIALIZED ('' @ latest @ '') SELECT * FROM '' @ br
                 @ '' AS '' @ base_name @ '' WHERE NOT EXISTS (SELECT 1 FROM '' @ latest_delta
                 @ '' WHERE '' @ latest_delta @ ''.'' @ idf @ '' = '' @ base_name @ ''.'' @ idf
                 @ '') UNION ALL BY NAME SELECT * FROM '' @ latest_delta)))))"

definition view_ops :: "disk \<Rightarrow> catalog \<Rightarrow> string \<Rightarrow> engine_error + conn_op list" where
  "view_ops d c object_name =
     (case catalog_get object_name c of
        None \<Rightarrow> Err (UnknownObject object_name)
      | Some s \<Rightarrow>
          rbind (relation_name (ds_object_name s) c) (\<lambda>rel.
          if ds_mode s = ''read_only'' then
            rbind (case resolve_sources d s of Err e \<Rightarrow> Err (SourceError e) | Ok ps \<Rightarrow> Ok ps) (\<lambda>ps.
            rbind (latest_version_sql s ps (effective_base d s)) (\<lambda>sql.
              Ok [Execute (''CREATE OR REPLACE VIEW '' @ quote_identifier rel @ '' AS '' @ sql)]))
          else if ds_mode s = ''computed'' then
            (case ds_computed_table s of
               None \<Rightarrow> Err NoComputedTable
             | Some rows \<Rightarrow>
                 let reg = ''__fakeforce_computed_'' @ ds_object_name s in
                 Ok [RegisterRows reg rows,
                     Execute (''CREATE OR REPLACE TABLE '' @ quote_identifier rel @ '' AS SELECT * FROM ''
                       @ quote_identifier reg), Unregister reg])
          else Ok [Execute (''CREATE OR REPLACE VIEW '' @ quote_identifier rel @ '' AS SELECT * FROM ''
                     @ quote_identifier (''ff_mutable_'' @ ds_object_name s))]))"

definition create_read_only_views ::
  "disk \<Rightarrow> catalog \<Rightarrow> string list option \<Rightarrow> engine_error + conn_op list" where
  "create_read_only_views d c objects =
     rbind (rmap (view_ops d c) (case objects of None \<Rightarrow> object_names c | Some ns \<Rightarrow> ns))
       (\<lambda>ops. Ok (concat ops))"

definition configure_connection :: "settings \<Rightarrow> conn_op list" where
  "configure_connection st =
     [ExecuteWith ''SET memory_limit = ?'' (TextV (se_memory_limit st)),
      ExecuteWith ''SET temp_directory = ?'' (TextV (se_temp_directory st)),
      ExecuteWith ''SET max_temp_directory_size = ?'' (TextV (se_max_temp_size st)),
      ExecuteWith ''SET threads = ?'' (IntV (se_heavy_query_workers st))]"

definition require_disk_reserve :: "int \<Rightarrow> int \<Rightarrow> int \<Rightarrow> bool" where
  "require_disk_reserve available reserve_bytes additional_bytes \<longleftrightarrow>
     available - additional_bytes \<ge> reserve_bytes"

text \<open>What a session executes: setup, the caller's work, and the close of the \<open>finally\<close>
  clause, which runs whether or not the setup or the work raises. Nothing is opened below the
  disk reserve.\<close>

definition engine_connection ::
  "settings \<Rightarrow> disk \<Rightarrow> int \<Rightarrow> catalog \<Rightarrow> bool \<Rightarrow> string list option \<Rightarrow> (engine_error + conn_op list)
   \<Rightarrow> conn_op list \<times> engine_error option" where
  "engine_connection st d available c create_views objects work =
     (if \<not> require_disk_reserve available (se_disk_reserve_bytes st) 0 then ([], Some DiskReserve)
      else
        (case (if create_views then create_read_only_views d c objects else Ok []) of
           Err e \<Rightarrow> (configure_connection st @ [CloseConnection], Some e)
         | Ok views \<Rightarrow>
             (case work of
                Err e \<Rightarrow> (configure_connection st @ views @ [CloseConnection], Some e)
              | Ok ops \<Rightarrow> (configure_connection st @ views @ ops @ [CloseConnection], None))))"

definition mutable_table_ops :: "disk \<Rightarrow> dataset_spec \<Rightarrow> engine_error + conn_op list" where
  "mutable_table_ops d s =
     (if ds_mode s \<noteq> ''mutable'' then Ok []
      else
        (let table = quote_identifier (''ff_mutable_'' @ ds_object_name s) in
         rbind (case resolve_sources d s of Err e \<Rightarrow> Err (SourceError e) | Ok ps \<Rightarrow> Ok ps) (\<lambda>ps.
         rbind (source_reader ps None) (\<lambda>reader.
           Ok [Execute (''CREATE TABLE IF NOT EXISTS '' @ table @ '' AS SELECT * FROM '' @ reader),
               Execute (''CREATE UNIQUE INDEX IF NOT EXISTS ''
                 @ quote_identifier (''ff_mutable_'' @ ds_object_name s @ ''_'' @ ds_id_field s @ ''_unique'')
                 @ '' ON '' @ table @ '' ('' @ quote_identifier (ds_id_field s) @ '')'')]))))"

definition initialize_mutable_tables :: "disk \<Rightarrow> catalog \<Rightarrow> engine_error + conn_op list" where
  "initialize_mutable_tables d c =
     rbind (rmap (\<lambda>kv. mutable_table_ops d (snd kv)) (ct_objects c)) (\<lambda>ops. Ok (concat ops))"

section \<open>The relation of a view\<close>

type_synonym picker = "sql_row list \<Rightarrow> sql_row"

definition newest_of :: "picker \<Rightarrow> string \<Rightarrow> sql_row list \<Rightarrow> sql_row" where
  "newest_of pick vf rows = pick (filter (\<lambda>r. \<forall>q \<in> set rows. col vf q \<le> col vf r) rows)"

text \<open>One row per value of the id column: a row of greatest version.\<close>

definition newest_per_id :: "picker \<Rightarrow> string \<Rightarrow> string \<Rightarrow> sql_row list \<Rightarrow> sql_row list" where
  "newest_per_id pick idf vf rows =
     map (\<lambda>i. newest_of pick vf (filter (\<lambda>r. col idf r = i) rows)) (remdups (map (col idf) rows))"

definition add_aliases :: "(string \<times> string) list \<Rightarrow> sql_row \<Rightarrow> sql_row" where
  "add_aliases als r = r @ map (\<lambda>(a, src). (a, col src r)) als"

definition not_superseded :: "string \<Rightarrow> sql_row list \<Rightarrow> sql_row \<Rightarrow> bool" where
  "not_superseded idf latest b \<longleftrightarrow> \<not> (\<exists>l \<in> set latest. sql_eq (col idf l) (col idf b))"

definition view_rows ::
  "picker \<Rightarrow> (path \<Rightarrow> sql_row list) \<Rightarrow> dataset_spec \<Rightarrow> path list \<Rightarrow> path list \<Rightarrow> sql_row list" where
  "view_rows pick rd s sources base_files =
     (let read = (\<lambda>ps. map (add_aliases (ds_aliases s)) (concat (map rd ps))) in
      case ds_version_field s of
        None \<Rightarrow> read sources
      | Some vf \<Rightarrow>
          (let base_paths = filter (\<lambda>p. p \<in> set base_files) sources;
               delta_paths = filter (\<lambda>p. p \<notin> set base_files) sources in
           if delta_paths = [] then read base_paths
           else
             (let latest = newest_per_id pick (ds_id_field s) vf (read delta_paths) in
              if base_paths = [] then latest
              else filter (not_superseded (ds_id_field s) latest) (read base_paths) @ latest)))"

end
