(* ===== verification/EngineProps.thy ===== *)
theory EngineProps
  imports Engine "HOL-Library.Multiset"
begin

text \<open>
  The relation of an engine view: one row per id, the newest version, and the equivalence of
  the split plan (rank the deltas, keep the base rows no delta supersedes) with ranking base
  and deltas together.
\<close>

section \<open>Newest rows\<close>

text \<open>What is assumed of DuckDB's choice among equal versions: it returns one of them.\<close>

definition picks :: "picker \<Rightarrow> bool" where
  "picks pick \<longleftrightarrow> (\<forall>rows. rows \<noteq> [] \<longrightarrow> pick rows \<in> set rows)"

lemma exists_greatest: "rows \<noteq> [] \<Longrightarrow> \<exists>r \<in> set rows. \<forall>q \<in> set rows. col vf q \<le> col vf r"
proof -
  assume "rows \<noteq> []"
  then have "Max (col vf ` set rows) \<in> col vf ` set rows" by simp
  then obtain r where "r \<in> set rows" "col vf r = Max (col vf ` set rows)" by force
  moreover have "col vf q \<le> Max (col vf ` set rows)" if "q \<in> set rows" for q using that by simp
  ultimately show ?thesis by metis
qed

lemma newest_of_greatest:
  assumes "picks pick" "rows \<noteq> []"
  shows "newest_of pick vf rows \<in> set rows \<and> (\<forall>q \<in> set rows. col vf q \<le> col vf (newest_of pick vf rows))"
proof -
  have "filter (\<lambda>r. \<forall>q \<in> set rows. col vf q \<le> col vf r) rows \<noteq> []"
    using exists_greatest [OF assms(2)] by (auto simp: filter_empty_conv)
  then have "newest_of pick vf rows \<in> set (filter (\<lambda>r. \<forall>q \<in> set rows. col vf q \<le> col vf r) rows)"
    using assms(1) unfolding picks_def newest_of_def by blast
  then show ?thesis by auto
qed

lemma newest_group:
  assumes "picks pick" "i \<in> col idf ` set rows"
  defines "g \<equiv> filter (\<lambda>r. col idf r = i) rows"
  shows "newest_of pick vf g \<in> set rows" "col idf (newest_of pick vf g) = i"
    "\<And>q. q \<in> set rows \<Longrightarrow> col idf q = i \<Longrightarrow> col vf q \<le> col vf (newest_of pick vf g)"
proof -
  have "g \<noteq> []" using assms(2) by (auto simp: g_def filter_empty_conv)
  from newest_of_greatest [OF assms(1) this, of vf]
  show "newest_of pick vf g \<in> set rows" "col idf (newest_of pick vf g) = i"
    "\<And>q. q \<in> set rows \<Longrightarrow> col idf q = i \<Longrightarrow> col vf q \<le> col vf (newest_of pick vf g)"
    by (auto simp: g_def)
qed

lemma ids_newest_per_id:
  assumes "picks pick"
  shows "map (col idf) (newest_per_id pick idf vf rows) = remdups (map (col idf) rows)"
  unfolding newest_per_id_def map_map comp_def
  by (rule map_idI) (use newest_group(2) [OF assms] in force)

lemma newest_per_id_iff:
  assumes "picks pick"
  shows "r \<in> set (newest_per_id pick idf vf rows) \<Longrightarrow>
    r \<in> set rows \<and> (\<forall>q \<in> set rows. col idf q = col idf r \<longrightarrow> col vf q \<le> col vf r)"
proof -
  assume "r \<in> set (newest_per_id pick idf vf rows)"
  then obtain i where i: "i \<in> col idf ` set rows"
    and r: "r = newest_of pick vf (filter (\<lambda>r. col idf r = i) rows)"
    by (auto simp: newest_per_id_def)
  from newest_group [OF assms i, where vf = vf] show ?thesis by (auto simp: r)
qed

text \<open>When no two rows of one id share a version, the newest row of an id is unique.\<close>

definition versions_distinct :: "string \<Rightarrow> string \<Rightarrow> sql_row list \<Rightarrow> bool" where
  "versions_distinct idf vf rows \<longleftrightarrow>
     (\<forall>r \<in> set rows. \<forall>q \<in> set rows. col idf r = col idf q \<and> col vf r = col vf q \<longrightarrow> r = q)"

lemma newest_per_id_unique:
  assumes "picks pick" "versions_distinct idf vf rows"
  shows "r \<in> set (newest_per_id pick idf vf rows) \<longleftrightarrow>
    r \<in> set rows \<and> (\<forall>q \<in> set rows. col idf q = col idf r \<longrightarrow> col vf q \<le> col vf r)"
proof
  assume r: "r \<in> set rows \<and> (\<forall>q \<in> set rows. col idf q = col idf r \<longrightarrow> col vf q \<le> col vf r)"
  let ?n = "newest_of pick vf (filter (\<lambda>x. col idf x = col idf r) rows)"
  have i: "col idf r \<in> col idf ` set rows" using r by blast
  note n = newest_group [OF assms(1) i, where vf = vf]
  have "col vf r = col vf ?n" using r n(1,2) n(3) [of r] by (intro antisym) auto
  then have "r = ?n" using assms(2) r n(1,2) by (auto simp: versions_distinct_def)
  then show "r \<in> set (newest_per_id pick idf vf rows)"
    using i by (auto simp: newest_per_id_def intro: rev_image_eqI)
qed (use newest_per_id_iff [OF assms(1)] in blast)

lemma distinct_newest_per_id:
  assumes "picks pick"
  shows "distinct (newest_per_id pick idf vf rows)"
proof -
  have "distinct (map (col idf) (newest_per_id pick idf vf rows))"
    by (simp add: ids_newest_per_id [OF assms])
  then show ?thesis by (simp add: distinct_map)
qed

section \<open>Splitting base and deltas\<close>

definition split_rows :: "picker \<Rightarrow> string \<Rightarrow> string \<Rightarrow> sql_row list \<Rightarrow> sql_row list \<Rightarrow> sql_row list" where
  "split_rows pick idf vf base deltas =
     (let latest = newest_per_id pick idf vf deltas in
      filter (not_superseded idf latest) base @ latest)"

text \<open>The invariant the publisher keeps: ids are never NULL, the base has one row per id, and a
  delta row is newer than the base row of its id.\<close>

definition deltas_newer :: "string \<Rightarrow> string \<Rightarrow> sql_row list \<Rightarrow> sql_row list \<Rightarrow> bool" where
  "deltas_newer idf vf base deltas \<longleftrightarrow>
     (\<forall>d \<in> set deltas. \<forall>b \<in> set base. col idf d = col idf b \<longrightarrow> col vf b < col vf d)"

lemma superseded_iff:
  assumes "picks pick" "\<forall>r \<in> set base. col idf r \<noteq> NullV"
  shows "b \<in> set base \<Longrightarrow> not_superseded idf (newest_per_id pick idf vf deltas) b
    \<longleftrightarrow> col idf b \<notin> col idf ` set deltas"
proof -
  assume b: "b \<in> set base"
  have "set (map (col idf) (newest_per_id pick idf vf deltas)) = col idf ` set deltas"
    by (simp add: ids_newest_per_id [OF assms(1)])
  moreover have "col idf b \<noteq> NullV" using b assms(2) by blast
  ultimately show ?thesis
    by (auto simp: not_superseded_def sql_eq_def image_iff) (metis imageE imageI list.set_map)+
qed

lemma split_rows_set:
  assumes "picks pick" "\<forall>r \<in> set base. col idf r \<noteq> NullV"
  shows "set (split_rows pick idf vf base deltas) =
    {b \<in> set base. col idf b \<notin> col idf ` set deltas} \<union> set (newest_per_id pick idf vf deltas)"
  using superseded_iff [OF assms, where vf = vf and deltas = deltas]
  by (auto simp: split_rows_def Let_def)

lemma ids_split_rows:
  assumes "picks pick" "\<forall>r \<in> set base. col idf r \<noteq> NullV" "distinct (map (col idf) base)"
  shows "distinct (map (col idf) (split_rows pick idf vf base deltas))"
    "col idf ` set (split_rows pick idf vf base deltas) = col idf ` set base \<union> col idf ` set deltas"
proof -
  let ?l = "newest_per_id pick idf vf deltas"
  have l: "col idf ` set ?l = col idf ` set deltas" "distinct (map (col idf) ?l)"
    using ids_newest_per_id [OF assms(1), of idf vf deltas] by (metis list.set_map set_remdups, simp)
  have "col idf ` set (filter (not_superseded idf ?l) base) \<inter> col idf ` set ?l = {}"
    using superseded_iff [OF assms(1,2), where vf = vf and deltas = deltas] l(1) by auto
  moreover have "distinct (map (col idf) (filter (not_superseded idf ?l) base))"
    using assms(3) by (simp add: distinct_map_filter)
  ultimately show "distinct (map (col idf) (split_rows pick idf vf base deltas))"
    using l(2) by (simp add: split_rows_def Let_def)
  show "col idf ` set (split_rows pick idf vf base deltas) = col idf ` set base \<union> col idf ` set deltas"
    unfolding split_rows_set [OF assms(1,2)] image_Un l(1) by auto
qed

lemma split_rows_newest:
  assumes "picks pick" "\<forall>r \<in> set base. col idf r \<noteq> NullV" "distinct (map (col idf) base)"
    "deltas_newer idf vf base deltas" "versions_distinct idf vf deltas"
  shows "mset (split_rows pick idf vf base deltas) = mset (newest_per_id pick idf vf (base @ deltas))"
proof -
  have same: "q = b" if "q \<in> set base" "b \<in> set base" "col idf q = col idf b" for q b
    using that assms(3) by (auto simp: distinct_map inj_on_def)
  have dist: "versions_distinct idf vf (base @ deltas)"
    unfolding versions_distinct_def
  proof (intro ballI impI)
    fix r q assume "r \<in> set (base @ deltas)" "q \<in> set (base @ deltas)"
      and eq: "col idf r = col idf q \<and> col vf r = col vf q"
    then consider "r \<in> set base" "q \<in> set base" | "r \<in> set deltas" "q \<in> set deltas"
      | "r \<in> set base" "q \<in> set deltas" | "r \<in> set deltas" "q \<in> set base" by auto
    then show "r = q"
    proof cases
      case 1
      with eq same show ?thesis by blast
    next
      case 2
      with eq assms(5) show ?thesis by (simp add: versions_distinct_def)
    next
      case 3
      with eq assms(4) have "col vf r < col vf q" unfolding deltas_newer_def by metis
      with eq show ?thesis by simp
    next
      case 4
      with eq assms(4) have "col vf q < col vf r" unfolding deltas_newer_def by metis
      with eq show ?thesis by simp
    qed
  qed
  have "set (split_rows pick idf vf base deltas) = set (newest_per_id pick idf vf (base @ deltas))"
    unfolding set_eq_iff newest_per_id_unique [OF assms(1) dist]
  proof (intro allI iffI)
    fix r assume "r \<in> set (split_rows pick idf vf base deltas)"
    then consider (base) "r \<in> set base" "col idf r \<notin> col idf ` set deltas"
      | (delta) "r \<in> set (newest_per_id pick idf vf deltas)"
      unfolding split_rows_set [OF assms(1,2)] by blast
    then show "r \<in> set (base @ deltas) \<and> (\<forall>q \<in> set (base @ deltas). col idf q = col idf r \<longrightarrow> col vf q \<le> col vf r)"
    proof cases
      case base
      then show ?thesis using same by (auto simp: image_iff)
    next
      case delta
      then have r: "r \<in> set deltas" "\<forall>q \<in> set deltas. col idf q = col idf r \<longrightarrow> col vf q \<le> col vf r"
        using newest_per_id_iff [OF assms(1)] by blast+
      with assms(4) show ?thesis by (force simp: deltas_newer_def)
    qed
  next
    fix r assume r: "r \<in> set (base @ deltas) \<and> (\<forall>q \<in> set (base @ deltas). col idf q = col idf r \<longrightarrow> col vf q \<le> col vf r)"
    show "r \<in> set (split_rows pick idf vf base deltas)"
    proof (cases "r \<in> set deltas")
      case True
      with r have "r \<in> set (newest_per_id pick idf vf deltas)"
        by (simp add: newest_per_id_unique [OF assms(1,5)])
      then show ?thesis by (simp add: split_rows_set [OF assms(1,2)])
    next
      case False
      with r have b: "r \<in> set base" by simp
      moreover have "col idf r \<notin> col idf ` set deltas"
        using r b assms(4) by (force simp: deltas_newer_def not_le [symmetric])
      ultimately show ?thesis
        by (simp add: split_rows_set [OF assms(1,2)])
    qed
  qed
  moreover have "distinct (split_rows pick idf vf base deltas)"
    using ids_split_rows(1) [OF assms(1-3)] by (simp add: distinct_map)
  ultimately show ?thesis
    using distinct_newest_per_id [OF assms(1)] by (metis set_eq_iff_mset_eq_distinct)
qed

section \<open>Views\<close>

definition read_rows :: "(path \<Rightarrow> sql_row list) \<Rightarrow> dataset_spec \<Rightarrow> path list \<Rightarrow> sql_row list" where
  "read_rows rd s ps = map (add_aliases (ds_aliases s)) (concat (map rd ps))"

definition base_part :: "(path \<Rightarrow> sql_row list) \<Rightarrow> dataset_spec \<Rightarrow> path list \<Rightarrow> path list \<Rightarrow> sql_row list" where
  "base_part rd s sources base_files = read_rows rd s (filter (\<lambda>p. p \<in> set base_files) sources)"

definition delta_part :: "(path \<Rightarrow> sql_row list) \<Rightarrow> dataset_spec \<Rightarrow> path list \<Rightarrow> path list \<Rightarrow> sql_row list" where
  "delta_part rd s sources base_files = read_rows rd s (filter (\<lambda>p. p \<notin> set base_files) sources)"

lemma newest_per_id_Nil [simp]: "newest_per_id pick idf vf [] = []"
  by (simp add: newest_per_id_def)

lemma view_rows_split:
  assumes "ds_version_field s = Some vf"
  shows "view_rows pick rd s sources base_files =
    split_rows pick (ds_id_field s) vf (base_part rd s sources base_files) (delta_part rd s sources base_files)"
proof -
  have "filter (not_superseded idf []) xs = xs" for idf and xs :: "sql_row list"
    by (simp add: not_superseded_def)
  then show ?thesis
    using assms by (simp add: view_rows_def split_rows_def base_part_def delta_part_def read_rows_def Let_def)
qed

text \<open>C15:
  the view of a versioned object holds exactly one row per id that occurs in its base or
  in a published delta, and the row of an id a delta mentions is one of that id's delta rows of
  greatest version, whatever DuckDB picks among equal versions.\<close>

theorem view_one_row_per_id:
  assumes "picks pick" "ds_version_field s = Some vf"
    and "\<forall>r \<in> set (base_part rd s sources bases). col (ds_id_field s) r \<noteq> NullV"
    and "distinct (map (col (ds_id_field s)) (base_part rd s sources bases))"
  shows "distinct (map (col (ds_id_field s)) (view_rows pick rd s sources bases))
    \<and> col (ds_id_field s) ` set (view_rows pick rd s sources bases)
        = col (ds_id_field s) ` set (base_part rd s sources bases @ delta_part rd s sources bases)
    \<and> (\<forall>r \<in> set (view_rows pick rd s sources bases). \<forall>q \<in> set (delta_part rd s sources bases).
         col (ds_id_field s) q = col (ds_id_field s) r \<longrightarrow>
           r \<in> set (delta_part rd s sources bases) \<and> col vf q \<le> col vf r)"
  unfolding view_rows_split [OF assms(2)] set_append image_Un
proof (intro conjI ballI impI)
  show "distinct (map (col (ds_id_field s)) (split_rows pick (ds_id_field s) vf
      (base_part rd s sources bases) (delta_part rd s sources bases)))"
    by (rule ids_split_rows(1) [OF assms(1,3,4)])
  show "col (ds_id_field s) ` set (split_rows pick (ds_id_field s) vf (base_part rd s sources bases)
      (delta_part rd s sources bases)) = col (ds_id_field s) ` set (base_part rd s sources bases)
      \<union> col (ds_id_field s) ` set (delta_part rd s sources bases)"
    by (rule ids_split_rows(2) [OF assms(1,3,4)])
  fix r q assume r: "r \<in> set (split_rows pick (ds_id_field s) vf (base_part rd s sources bases)
      (delta_part rd s sources bases))"
    and q: "q \<in> set (delta_part rd s sources bases)" "col (ds_id_field s) q = col (ds_id_field s) r"
  from q have "col (ds_id_field s) r \<in> col (ds_id_field s) ` set (delta_part rd s sources bases)"
    by (metis imageI)
  with r have "r \<in> set (newest_per_id pick (ds_id_field s) vf (delta_part rd s sources bases))"
    unfolding split_rows_set [OF assms(1,3)] by blast
  from newest_per_id_iff [OF assms(1) this] q
  show "r \<in> set (delta_part rd s sources bases)" "col vf q \<le> col vf r" by blast+
qed

definition wit_versioned :: dataset_spec where
  "wit_versioned = \<lparr>ds_object_name = ''Account'', ds_sources = [[''b.parquet'']], ds_id_field = ''Id'',
     ds_soft_delete_field = None, ds_mode = ''read_only'',
     ds_schema = [(''Id'', ArrowString), (''V'', ArrowInt)], ds_data_roots = [[]],
     ds_delta_patterns = [''d/*.parquet''], ds_version_field = Some ''V'', ds_aliases = [],
     ds_computed_table = None, ds_supports_limit = True, ds_supports_ne = True,
     ds_required_filter_fields = []\<rparr>"

definition wit_row_of :: "string \<Rightarrow> int \<Rightarrow> sql_row" where
  "wit_row_of i v = [(''Id'', TextV i), (''V'', IntV v)]"

definition wit_read :: "path \<Rightarrow> sql_row list" where
  "wit_read p = (if p = [''b.parquet''] then [wit_row_of ''a'' 1, wit_row_of ''b'' 2]
     else if p = [''d1.parquet''] then [wit_row_of ''a'' 3, wit_row_of ''c'' 1]
     else if p = [''d2.parquet''] then [wit_row_of ''a'' 5] else [])"

definition wit_sources :: "path list" where
  "wit_sources = [[''b.parquet''], [''d1.parquet''], [''d2.parquet'']]"

lemma picks_hd: "picks hd" by (simp add: picks_def)

lemma wit_parts:
  "base_part wit_read wit_versioned wit_sources [[''b.parquet'']] = [wit_row_of ''a'' 1, wit_row_of ''b'' 2]"
  "delta_part wit_read wit_versioned wit_sources [[''b.parquet'']]
    = [wit_row_of ''a'' 3, wit_row_of ''c'' 1, wit_row_of ''a'' 5]"
  by code_simp+

lemma wit_cols [simp]: "col ''Id'' (wit_row_of i v) = TextV i" "col ''V'' (wit_row_of i v) = IntV v"
  by (simp_all add: col_def dict_get_or_def wit_row_of_def)

lemma wit_fields: "ds_version_field wit_versioned = Some ''V''" "ds_id_field wit_versioned = ''Id''"
  by (simp_all add: wit_versioned_def)

theorem view_one_row_per_id_witness:
  "distinct (map (col ''Id'') (view_rows hd wit_read wit_versioned wit_sources [[''b.parquet'']]))
   \<and> col ''Id'' ` set (view_rows hd wit_read wit_versioned wit_sources [[''b.parquet'']])
     = {TextV ''a'', TextV ''b'', TextV ''c''}"
  using view_one_row_per_id [OF picks_hd wit_fields(1), of wit_read wit_sources "[[''b.parquet'']]"]
  by (auto simp: wit_parts wit_fields)

text \<open>C3:
  the split plan of the view is an optimisation that does not change the answer: when
  every delta row is newer than the base row of its id and no two rows of an id share a
  version, the view holds the same rows as ranking base and deltas together by version.\<close>

theorem view_equals_ranking_all:
  assumes "picks pick" "ds_version_field s = Some vf"
    and "\<forall>r \<in> set (base_part rd s sources bases). col (ds_id_field s) r \<noteq> NullV"
    and "distinct (map (col (ds_id_field s)) (base_part rd s sources bases))"
    and "deltas_newer (ds_id_field s) vf (base_part rd s sources bases) (delta_part rd s sources bases)"
    and "versions_distinct (ds_id_field s) vf (delta_part rd s sources bases)"
  shows "mset (view_rows pick rd s sources bases) =
    mset (newest_per_id pick (ds_id_field s) vf
      (base_part rd s sources bases @ delta_part rd s sources bases))"
  unfolding view_rows_split [OF assms(2)] by (rule split_rows_newest [OF assms(1,3-6)])

lemma IntV_less [simp]: "IntV a < IntV b \<longleftrightarrow> a < b"
  by (simp add: less_sql_value_def less_prod_def less_le)

theorem view_equals_ranking_all_witness:
  "mset (view_rows hd wit_read wit_versioned wit_sources [[''b.parquet'']]) =
    mset (newest_per_id hd ''Id'' ''V'' [wit_row_of ''a'' 1, wit_row_of ''b'' 2,
      wit_row_of ''a'' 3, wit_row_of ''c'' 1, wit_row_of ''a'' 5])"
  using view_equals_ranking_all [OF picks_hd wit_fields(1), of wit_read wit_sources "[[''b.parquet'']]"]
  by (simp add: wit_parts wit_fields deltas_newer_def versions_distinct_def)


end
