(* ===== verification/Storage.thy ===== *)
theory Storage
  imports Json
begin

text \<open>
  \<open>fakeforce/storage.py\<close>: the file system as a map from paths to contents, the operations
  of the atomic writer and of \<open>publish_temp_file\<close>, and the crash points between them.
  \<open>mkdir\<close> and \<open>fsync\<close> are kept as operations without effect on contents.
\<close>

type_synonym 'c fs = "path \<Rightarrow> 'c option"

datatype 'c fs_op =
  MkDir path | Put path 'c | SyncFile path | Replace path path | SyncDir path | Unlink path

fun fs_apply :: "'c fs_op \<Rightarrow> 'c fs \<Rightarrow> 'c fs" where
  "fs_apply (MkDir p) f = f"
| "fs_apply (Put p c) f = f(p := Some c)"
| "fs_apply (SyncFile p) f = f"
| "fs_apply (Replace a b) f = (case f a of None \<Rightarrow> f | Some c \<Rightarrow> f(b := Some c, a := None))"
| "fs_apply (SyncDir p) f = f"
| "fs_apply (Unlink p) f = f(p := None)"

definition fs_run :: "'c fs_op list \<Rightarrow> 'c fs \<Rightarrow> 'c fs" where
  "fs_run ops f = fold fs_apply ops f"

text \<open>The writer's stream after each chunk, and the two ways the context can exit: normally, or
  by an exception after some chunks.\<close>

definition chunk_puts :: "path \<Rightarrow> string list \<Rightarrow> string fs_op list" where
  "chunk_puts tmp chunks = map (\<lambda>k. Put tmp (concat (take k chunks))) [0 ..< Suc (length chunks)]"

definition atomic_write_ops :: "path \<Rightarrow> path \<Rightarrow> string list \<Rightarrow> string fs_op list" where
  "atomic_write_ops tmp dest chunks =
     MkDir (path_parent dest) # chunk_puts tmp chunks
     @ [SyncFile tmp, Replace tmp dest, SyncDir (path_parent dest)]"

definition atomic_write_failed_ops :: "path \<Rightarrow> path \<Rightarrow> string list \<Rightarrow> string fs_op list" where
  "atomic_write_failed_ops tmp dest written =
     MkDir (path_parent dest) # chunk_puts tmp written @ [Unlink tmp]"

definition publish_temp_ops :: "path \<Rightarrow> path \<Rightarrow> 'c fs_op list" where
  "publish_temp_ops tmp dest =
     [MkDir (path_parent dest), SyncFile tmp, Replace tmp dest, SyncDir (path_parent dest)]"

section \<open>Atomic publication\<close>

lemma fs_run_simps [simp]:
  "fs_run [] f = f" "fs_run (op # ops) f = fs_run ops (fs_apply op f)"
  "fs_run (a @ b) f = fs_run b (fs_run a f)"
  by (simp_all add: fs_run_def)

lemma fs_run_puts: "fs_run (map (\<lambda>x. Put tmp (g x)) xs) f = (if xs = [] then f else f(tmp := Some (g (last xs))))"
  by (induction xs arbitrary: f) auto

definition touches :: "'c fs_op \<Rightarrow> path \<Rightarrow> bool" where
  "touches op p \<longleftrightarrow> (case op of Put q _ \<Rightarrow> p = q | Replace a b \<Rightarrow> p = a \<or> p = b | Unlink q \<Rightarrow> p = q | _ \<Rightarrow> False)"

lemma fs_apply_frame: "\<not> touches op p \<Longrightarrow> fs_apply op f p = f p"
  by (cases op) (auto simp: touches_def split: option.split)

lemma fs_run_frame: "\<forall>op \<in> set ops. \<not> touches op p \<Longrightarrow> fs_run ops f p = f p"
  by (induction ops arbitrary: f) (auto simp: fs_apply_frame)

text \<open>The contract of a publisher of one file: interrupted after any number of its operations
  the destination holds its old content or all of the new one, at the end the new one, and
  no third file changes.\<close>

locale atomic_publisher =
  fixes ops :: "path \<Rightarrow> path \<Rightarrow> 'c \<Rightarrow> 'c fs_op list"
  assumes crash_safe: "tmp \<noteq> dest \<Longrightarrow> fs_run (take i (ops tmp dest c)) f dest \<in> {f dest, Some c}"
    and completes: "tmp \<noteq> dest \<Longrightarrow> fs_run (ops tmp dest c) f dest = Some c"
    and framed: "p \<noteq> tmp \<Longrightarrow> p \<noteq> dest \<Longrightarrow> fs_run (take i (ops tmp dest c)) f p = f p"
begin

fun publish_all :: "(path \<times> 'c) list \<Rightarrow> path \<Rightarrow> 'c fs \<Rightarrow> 'c fs" where
  "publish_all [] dest f = f"
| "publish_all ((tmp, c) # rest) dest f = publish_all rest dest (fs_run (ops tmp dest c) f)"

lemma reader_sees_published:
  assumes "\<forall>(tmp, c) \<in> set ps. tmp \<noteq> dest" "tmp \<noteq> dest"
  shows "fs_run (take i (ops tmp dest c)) (publish_all ps dest f) dest
    \<in> insert (f dest) (insert (Some c) (Some ` snd ` set ps))"
proof -
  have all: "publish_all ps dest f dest \<in> insert (f dest) (Some ` snd ` set ps)" for f
    using assms(1)
  proof (induction ps dest f rule: publish_all.induct)
    case (2 t d rest dest f)
    then have new: "fs_run (ops t dest d) f dest = Some d" by (intro completes) auto
    have "publish_all rest dest (fs_run (ops t dest d) f) dest
        \<in> insert (fs_run (ops t dest d) f dest) (Some ` snd ` set rest)"
      by (rule "2.IH") (use "2.prems" in auto)
    then show ?case by (auto simp: new)
  qed simp
  from crash_safe [OF assms(2), of i c "publish_all ps dest f"] all [of f] show ?thesis
    by (elim insertE) simp_all
qed

end

lemma take_prefix_run:
  assumes "\<forall>op \<in> set a. \<not> touches op p" "tmp \<noteq> p"
  shows "fs_run (take i (a @ [SyncFile tmp, Replace tmp p, SyncDir d])) f p
     = (if length a + 2 \<le> i then fs_run (a @ [SyncFile tmp, Replace tmp p]) f p else f p)"
proof -
  let ?z = "[SyncFile tmp, Replace tmp p, SyncDir d]"
  have frame: "fs_run (take i a) f p = f p" "fs_run a f p = f p"
    using assms(1) by (auto intro!: fs_run_frame dest: in_set_takeD)
  consider "i - length a = 0" | "i - length a = 1" | "i - length a = 2" | "3 \<le> i - length a" by linarith
  then show ?thesis
  proof cases
    case 1
    then show ?thesis by (simp add: frame)
  next
    case 2
    then have "take i (a @ ?z) = a @ [SyncFile tmp]" "\<not> length a + 2 \<le> i" by simp_all
    then show ?thesis by (simp add: frame)
  next
    case 3
    then have "take i (a @ ?z) = a @ [SyncFile tmp, Replace tmp p]" "length a + 2 \<le> i" by simp_all
    then show ?thesis by simp
  next
    case 4
    then have "take i (a @ ?z) = a @ ?z" "length a + 2 \<le> i" by simp_all
    then show ?thesis by simp
  qed
qed

lemma chunk_puts_frame: "tmp \<noteq> p \<Longrightarrow> \<forall>op \<in> set (chunk_puts tmp cs). \<not> touches op p"
  by (auto simp: chunk_puts_def touches_def)

lemma chunk_puts_run: "fs_run (chunk_puts tmp cs) f = f(tmp := Some (concat cs))"
  by (simp add: chunk_puts_def fs_run_puts)

lemma atomic_write_crash:
  assumes "tmp \<noteq> dest"
  shows "fs_run (take i (atomic_write_ops tmp dest cs)) f dest \<in> {f dest, Some (concat cs)}"
proof -
  let ?a = "MkDir (path_parent dest) # chunk_puts tmp cs"
  have "\<forall>op \<in> set ?a. \<not> touches op dest"
    using chunk_puts_frame [OF assms] by (auto simp: touches_def)
  from take_prefix_run [OF this assms, of i "path_parent dest" f] assms show ?thesis
    by (simp add: atomic_write_ops_def chunk_puts_run)
qed

lemma in_take_atomic: "op \<in> set (take i (atomic_write_ops tmp dest cs)) \<Longrightarrow> p \<noteq> tmp \<Longrightarrow> p \<noteq> dest \<Longrightarrow> \<not> touches op p"
  by (drule in_set_takeD) (auto simp: atomic_write_ops_def chunk_puts_def touches_def)

interpretation writer: atomic_publisher "\<lambda>tmp dest cs. atomic_write_ops tmp dest [cs]"
proof
  fix tmp dest p :: path and i c and f :: "string fs"
  show "tmp \<noteq> dest \<Longrightarrow> fs_run (take i (atomic_write_ops tmp dest [c])) f dest \<in> {f dest, Some c}"
    using atomic_write_crash [of tmp dest i "[c]" f] by simp
  show "tmp \<noteq> dest \<Longrightarrow> fs_run (atomic_write_ops tmp dest [c]) f dest = Some c"
    by (simp add: atomic_write_ops_def chunk_puts_run)
  show "p \<noteq> tmp \<Longrightarrow> p \<noteq> dest \<Longrightarrow> fs_run (take i (atomic_write_ops tmp dest [c])) f p = f p"
    by (intro fs_run_frame ballI in_take_atomic)
qed

definition publish_content_ops :: "path \<Rightarrow> path \<Rightarrow> 'c \<Rightarrow> 'c fs_op list" where
  "publish_content_ops tmp dest c = Put tmp c # publish_temp_ops tmp dest"

interpretation temp_file: atomic_publisher publish_content_ops
proof
  fix tmp dest p :: path and i and c :: 'c and f :: "'c fs"
  let ?a = "[Put tmp c, MkDir (path_parent dest)]"
  have ops: "publish_content_ops tmp dest c = ?a @ [SyncFile tmp, Replace tmp dest, SyncDir (path_parent dest)]"
    by (simp add: publish_content_ops_def publish_temp_ops_def)
  show "tmp \<noteq> dest \<Longrightarrow> fs_run (take i (publish_content_ops tmp dest c)) f dest \<in> {f dest, Some c}"
    unfolding ops by (subst take_prefix_run) (auto simp: touches_def)
  show "tmp \<noteq> dest \<Longrightarrow> fs_run (publish_content_ops tmp dest c) f dest = Some c"
    by (simp add: publish_content_ops_def publish_temp_ops_def)
  show "p \<noteq> tmp \<Longrightarrow> p \<noteq> dest \<Longrightarrow> fs_run (take i (publish_content_ops tmp dest c)) f p = f p"
    by (intro fs_run_frame ballI)
      (auto simp: publish_content_ops_def publish_temp_ops_def touches_def dest!: in_set_takeD)
qed

section \<open>Properties\<close>

text \<open>C12:
  the atomic writer never exposes a partial file: interrupted after any of its
  operations, or ended by an exception after any number of chunks, the destination holds
  either what it held before or the complete new content; every other file but the private
  temporary one is untouched, and a failed writer leaves no temporary file behind.\<close>

theorem atomic_writer_crash_safe:
  assumes "tmp \<noteq> dest"
  shows "fs_run (take i (atomic_write_ops tmp dest chunks)) f dest \<in> {f dest, Some (concat chunks)}
    \<and> fs_run (atomic_write_ops tmp dest chunks) f dest = Some (concat chunks)
    \<and> (\<forall>p. p \<noteq> tmp \<and> p \<noteq> dest \<longrightarrow> fs_run (take i (atomic_write_ops tmp dest chunks)) f p = f p)
    \<and> fs_run (atomic_write_failed_ops tmp dest written) f = f(tmp := None)"
proof (intro conjI allI impI)
  show "fs_run (take i (atomic_write_ops tmp dest chunks)) f dest \<in> {f dest, Some (concat chunks)}"
    using assms by (rule atomic_write_crash)
  show "fs_run (atomic_write_ops tmp dest chunks) f dest = Some (concat chunks)"
    using assms by (simp add: atomic_write_ops_def chunk_puts_run)
  fix p assume "p \<noteq> tmp \<and> p \<noteq> dest"
  then show "fs_run (take i (atomic_write_ops tmp dest chunks)) f p = f p"
    by (intro fs_run_frame ballI in_take_atomic) auto
qed (simp add: atomic_write_failed_ops_def chunk_puts_run)

theorem atomic_writer_crash_safe_witness:
  "fs_run (take 3 (atomic_write_ops [''d'', ''.m.tmp''] [''d'', ''m''] [''ab'', ''c''])) (\<lambda>_. None) [''d'', ''m'']
   \<in> {None, Some ''abc''}"
proof -
  have ne: "[''d'', ''.m.tmp''] \<noteq> [''d'', ''m'']" by simp
  have "concat [''ab'', ''c''] = ''abc''" by simp
  with atomic_writer_crash_safe [OF ne, of 3 "[''ab'', ''c'']" "\<lambda>_. None"] show ?thesis by (simp only:)
qed

end
