(* ===== verification/Compaction.thy ===== *)
theory Compaction
  imports EngineProps Storage
begin

text \<open>
  \<open>fakeforce/compaction.py\<close>: planning, the merge, its publication and the removal of the
  merged partitions, as operations on a file system whose Parquet files hold rows; and what a
  reader of the object sees at every point of the run. Directory removal has no effect on
  contents and is not represented.
\<close>

section \<open>Planning\<close>

datatype compaction_error =
  NotConfigured string | NoVersionField string | NoDeltaPatterns string | NoWritableRoot string
| PlanSourceError catalog_error | CompactionDiskReserve

record compaction_plan =
  pl_object :: string
  pl_base_paths :: "path list"
  pl_partitions :: "path list"
  pl_compacted_path :: path

record compaction_result =
  co_object :: string
  co_partitions_merged :: nat
  co_rows_written :: nat
  co_removed :: nat

function nearest_writable :: "(path \<Rightarrow> bool) \<Rightarrow> (path \<Rightarrow> bool) \<Rightarrow> path \<Rightarrow> bool" where
  "nearest_writable ex wr p =
     (if ex p then wr p else if p = [] then False else nearest_writable ex wr (path_parent p))"
  by pat_completeness auto
termination by (relation "measure (\<lambda>(ex, wr, p). length p)") (auto simp: path_parent_def)

declare nearest_writable.simps [simp del]

definition compaction_spec :: "catalog \<Rightarrow> string \<Rightarrow> compaction_error + dataset_spec" where
  "compaction_spec c n =
     (case catalog_get n c of
        None \<Rightarrow> Err (NotConfigured n)
      | Some s \<Rightarrow>
          if ds_version_field s = None then Err (NoVersionField (ds_object_name s))
          else if ds_delta_patterns s = [] then Err (NoDeltaPatterns (ds_object_name s)) else Ok s)"

definition compacted_path :: "(path \<Rightarrow> bool) \<Rightarrow> (path \<Rightarrow> bool) \<Rightarrow> dataset_spec \<Rightarrow> compaction_error + path" where
  "compacted_path ex wr s =
     (case filter (nearest_writable ex wr) (delta_roots s) of
        [] \<Rightarrow> Err (NoWritableRoot (ds_object_name s)) | r # _ \<Rightarrow> Ok (compacted_file r))"

definition plan_compaction ::
  "disk \<Rightarrow> (path \<Rightarrow> bool) \<Rightarrow> (path \<Rightarrow> bool) \<Rightarrow> catalog \<Rightarrow> string \<Rightarrow> compaction_error + compaction_plan" where
  "plan_compaction d ex wr c n =
     rbind (compaction_spec c n) (\<lambda>s.
     rbind (case published_deltas d s of Err e \<Rightarrow> Err (PlanSourceError e) | Ok ps \<Rightarrow> Ok ps) (\<lambda>parts.
     rbind (compacted_path ex wr s) (\<lambda>dest.
       Ok \<lparr>pl_object = ds_object_name s, pl_base_paths = effective_base d s,
           pl_partitions = parts, pl_compacted_path = dest\<rparr>)))"

definition is_worthwhile :: "compaction_plan \<Rightarrow> bool" where
  "is_worthwhile p \<longleftrightarrow> 0 < length (pl_partitions p)"

section \<open>Merging\<close>

type_synonym row_fs = "sql_row list fs"

definition rows_at :: "row_fs \<Rightarrow> path \<Rightarrow> sql_row list" where
  "rows_at f p = (case f p of None \<Rightarrow> [] | Some rs \<Rightarrow> rs)"

definition version_column :: "dataset_spec \<Rightarrow> string \<Rightarrow> string" where
  "version_column s vf = dict_get_or (dict_of_pairs (ds_aliases s)) vf vf"

definition merged_rows :: "picker \<Rightarrow> dataset_spec \<Rightarrow> string \<Rightarrow> row_fs \<Rightarrow> path list \<Rightarrow> sql_row list" where
  "merged_rows pick s vf f ps =
     newest_per_id pick (ds_id_field s) (version_column s vf) (concat (map (rows_at f) ps))"

definition compact_ops ::
  "picker \<Rightarrow> dataset_spec \<Rightarrow> string \<Rightarrow> compaction_plan \<Rightarrow> path \<Rightarrow> row_fs \<Rightarrow> sql_row list fs_op list" where
  "compact_ops pick s vf p tmp f =
     [MkDir (path_parent (pl_compacted_path p)),
      Put tmp (merged_rows pick s vf f (pl_base_paths p @ pl_partitions p)),
      Replace tmp (pl_compacted_path p)]
     @ map Unlink (pl_partitions p)"

definition compact ::
  "picker \<Rightarrow> dataset_spec \<Rightarrow> string \<Rightarrow> bool \<Rightarrow> compaction_plan \<Rightarrow> path \<Rightarrow> row_fs
   \<Rightarrow> (compaction_error + compaction_result) \<times> row_fs" where
  "compact pick s vf reserve_ok p tmp f =
     (if \<not> is_worthwhile p then
        (Ok \<lparr>co_object = pl_object p, co_partitions_merged = 0, co_rows_written = 0, co_removed = 0\<rparr>, f)
      else if \<not> reserve_ok then (Err CompactionDiskReserve, f)
      else
        (Ok \<lparr>co_object = pl_object p, co_partitions_merged = length (pl_partitions p),
             co_rows_written = length (merged_rows pick s vf f (pl_base_paths p @ pl_partitions p)),
             co_removed = length (filter (\<lambda>q. f q \<noteq> None) (pl_partitions p))\<rparr>,
         fs_run (compact_ops pick s vf p tmp f) f))"

text \<open>\<open>compact_all\<close>: the configured objects that have versions and deltas, in order.\<close>

definition compaction_targets :: "catalog \<Rightarrow> string list" where
  "compaction_targets c = filter (\<lambda>n. case catalog_get n c of None \<Rightarrow> False
     | Some s \<Rightarrow> ds_version_field s \<noteq> None \<and> ds_delta_patterns s \<noteq> []) (object_names c)"

section \<open>What a reader sees\<close>

text \<open>Resolution and the view on a file system: the first delta root that holds a compacted file
  supplies the base, the partitions that exist are the deltas.\<close>

definition reader_base :: "path list \<Rightarrow> path list \<Rightarrow> row_fs \<Rightarrow> path list" where
  "reader_base roots configured f =
     (case first_opt (filter (\<lambda>p. f p \<noteq> None) (map compacted_file roots)) of
        None \<Rightarrow> configured | Some p \<Rightarrow> [p])"

definition reader_rows ::
  "picker \<Rightarrow> dataset_spec \<Rightarrow> path list \<Rightarrow> path list \<Rightarrow> path list \<Rightarrow> row_fs \<Rightarrow> sql_row list" where
  "reader_rows pick s roots configured parts f =
     (let base = reader_base roots configured f in
      view_rows pick (rows_at f) s (sorted_set (base @ filter (\<lambda>p. f p \<noteq> None) parts)) base)"

lemma reader_base_spec:
  assumes "\<And>r. r \<in> set (delta_roots s) \<Longrightarrow> dk_is_file d (compacted_file r) \<longleftrightarrow> f (compacted_file r) \<noteq> None"
  shows "reader_base (delta_roots s) (ds_sources s) f = effective_base d s"
proof -
  have "filter (dk_is_file d) (map compacted_file rs) = filter (\<lambda>p. f p \<noteq> None) (map compacted_file rs)"
    if "set rs \<subseteq> set (delta_roots s)" for rs
    using that assms by (induction rs) auto
  then show ?thesis
    by (simp add: reader_base_def effective_base_def compacted_base_def)
qed

end
