(* ===== verification/CompactionProps.thy ===== *)
theory CompactionProps
  imports Compaction
begin

text \<open>
  Crash safety of compaction: at every point of a run a reader sees the same rows, under the
  conditions the publisher keeps; and what goes wrong without them.
\<close>

section \<open>Newest rows as sets\<close>

definition newest_set :: "string \<Rightarrow> string \<Rightarrow> sql_row set \<Rightarrow> sql_row set" where
  "newest_set idf vf X = {r \<in> X. \<forall>q \<in> X. col idf q = col idf r \<longrightarrow> col vf q \<le> col vf r}"

definition split_set :: "string \<Rightarrow> string \<Rightarrow> sql_row set \<Rightarrow> sql_row set \<Rightarrow> sql_row set" where
  "split_set idf vf B D = {b \<in> B. col idf b \<notin> col idf ` D} \<union> newest_set idf vf D"

text \<open>Every row of \<open>X\<close> is older than the rows of its id in \<open>Y\<close>.\<close>

definition older :: "string \<Rightarrow> string \<Rightarrow> sql_row set \<Rightarrow> sql_row set \<Rightarrow> bool" where
  "older idf vf X Y \<longleftrightarrow> (\<forall>x \<in> X. \<forall>y \<in> Y. col idf x = col idf y \<longrightarrow> col vf x < col vf y)"

lemma olderD: "older idf vf X Y \<Longrightarrow> x \<in> X \<Longrightarrow> y \<in> Y \<Longrightarrow> col idf x = col idf y \<Longrightarrow> col vf x < col vf y"
  by (simp add: older_def)

lemma newest_remaining:
  assumes "older idf vf X D"
  shows "newest_set idf vf D \<subseteq> newest_set idf vf (X \<union> D)"
  using assms by (auto simp: newest_set_def older_def intro: less_imp_le)

lemma newest_in_remaining:
  assumes "older idf vf X D" "r \<in> newest_set idf vf (X \<union> D)" "col idf r \<in> col idf ` D"
  shows "r \<in> newest_set idf vf D"
proof -
  obtain y where y: "y \<in> D" "col idf y = col idf r" using assms(3) by auto
  then have "col vf y \<le> col vf r" using assms(2) by (auto simp: newest_set_def)
  then have "r \<notin> X" using olderD [OF assms(1) _ y(1)] y(2) by (metis not_le)
  with assms(2) show ?thesis by (auto simp: newest_set_def)
qed

lemma split_merged:
  assumes "older idf vf X D"
  shows "split_set idf vf (newest_set idf vf (X \<union> D)) D = newest_set idf vf (X \<union> D)"
  using newest_remaining [OF assms] newest_in_remaining [OF assms] by (auto simp: split_set_def)

lemma split_base:
  assumes "older idf vf B D" "\<forall>x \<in> B. \<forall>y \<in> B. col idf x = col idf y \<longrightarrow> x = y"
  shows "split_set idf vf B D = newest_set idf vf (B \<union> D)"
proof
  show "split_set idf vf B D \<subseteq> newest_set idf vf (B \<union> D)"
    using newest_remaining [OF assms(1)] assms(2)
    by (auto simp: split_set_def newest_set_def) (metis imageI)
  show "newest_set idf vf (B \<union> D) \<subseteq> split_set idf vf B D"
  proof
    fix r assume r: "r \<in> newest_set idf vf (B \<union> D)"
    show "r \<in> split_set idf vf B D"
    proof (cases "col idf r \<in> col idf ` D")
      case True
      with newest_in_remaining [OF assms(1) r] show ?thesis by (simp add: split_set_def)
    next
      case False
      with r show ?thesis by (auto simp: split_set_def newest_set_def)
    qed
  qed
qed

lemma newest_per_id_set:
  "picks pick \<Longrightarrow> versions_distinct idf vf rows \<Longrightarrow>
   set (newest_per_id pick idf vf rows) = newest_set idf vf (set rows)"
  by (auto simp: newest_per_id_unique newest_set_def)

lemma split_rows_as_set:
  assumes "picks pick" "\<forall>r \<in> set base. col idf r \<noteq> NullV" "versions_distinct idf vf deltas"
  shows "set (split_rows pick idf vf base deltas) = split_set idf vf (set base) (set deltas)"
  by (simp add: split_rows_set [OF assms(1,2)] newest_per_id_set [OF assms(1,3)] split_set_def)

section \<open>Aliased columns\<close>

text \<open>The id and version columns of a row read through its aliases.\<close>

definition alias_faithful :: "dataset_spec \<Rightarrow> string \<Rightarrow> sql_row set \<Rightarrow> bool" where
  "alias_faithful s vf X \<longleftrightarrow> (\<forall>r \<in> X.
     col (ds_id_field s) (add_aliases (ds_aliases s) r) = col (ds_id_field s) r
     \<and> col vf (add_aliases (ds_aliases s) r) = col (version_column s vf) r)"

lemma alias_newest:
  assumes "alias_faithful s vf X"
  shows "add_aliases (ds_aliases s) ` newest_set (ds_id_field s) (version_column s vf) X
    = newest_set (ds_id_field s) vf (add_aliases (ds_aliases s) ` X)"
  using assms by (auto simp: newest_set_def alias_faithful_def)

section \<open>What the reader reads\<close>

abbreviation raw_rows :: "row_fs \<Rightarrow> path list \<Rightarrow> sql_row list" where
  "raw_rows f ps \<equiv> concat (map (rows_at f) ps)"

definition aliased :: "dataset_spec \<Rightarrow> sql_row list \<Rightarrow> sql_row set" where
  "aliased s rows = add_aliases (ds_aliases s) ` set rows"

lemma set_sorted_set [simp]: "set (sorted_set xs) = set xs"
  by (simp add: sorted_set_def)

lemma base_part_set: "set ps \<inter> set base = {} \<Longrightarrow>
  set (base_part rd s (sorted_set (base @ ps)) base) = aliased s (concat (map rd base))"
  by (auto simp: base_part_def read_rows_def aliased_def)

lemma delta_part_set: "set ps \<inter> set base = {} \<Longrightarrow>
  set (delta_part rd s (sorted_set (base @ ps)) base) = aliased s (concat (map rd ps))"
  by (auto simp: delta_part_def read_rows_def aliased_def)

lemma reader_rows_set:
  assumes "picks pick" "ds_version_field s = Some vf"
    and base: "reader_base roots configured f = base" and "set ps \<inter> set base = {}"
    and ps: "filter (\<lambda>p. f p \<noteq> None) parts = ps"
    and "\<forall>r \<in> aliased s (raw_rows f base). col (ds_id_field s) r \<noteq> NullV"
    and "\<forall>x \<in> aliased s (raw_rows f ps). \<forall>y \<in> aliased s (raw_rows f ps).
      col (ds_id_field s) x = col (ds_id_field s) y \<and> col vf x = col vf y \<longrightarrow> x = y"
  shows "set (reader_rows pick s roots configured parts f)
    = split_set (ds_id_field s) vf (aliased s (raw_rows f base)) (aliased s (raw_rows f ps))"
proof -
  have "set (reader_rows pick s roots configured parts f) =
    set (split_rows pick (ds_id_field s) vf (base_part (rows_at f) s (sorted_set (base @ ps)) base)
      (delta_part (rows_at f) s (sorted_set (base @ ps)) base))"
    unfolding reader_rows_def base ps view_rows_split [OF assms(2)] Let_def by (rule refl)
  also have "\<dots> = split_set (ds_id_field s) vf
      (set (base_part (rows_at f) s (sorted_set (base @ ps)) base))
      (set (delta_part (rows_at f) s (sorted_set (base @ ps)) base))"
    using assms(6,7) by (intro split_rows_as_set [OF assms(1)])
      (simp_all only: base_part_set [OF assms(4)] delta_part_set [OF assms(4)] versions_distinct_def)
  finally show ?thesis by (simp only: base_part_set [OF assms(4)] delta_part_set [OF assms(4)])
qed

section \<open>Crash points\<close>

definition rows_of :: "row_fs \<Rightarrow> path list \<Rightarrow> sql_row set" where
  "rows_of f ps = set (raw_rows f ps)"

lemma rows_of_append: "rows_of f (ps @ qs) = rows_of f ps \<union> rows_of f qs"
  by (simp add: rows_of_def)

text \<open>The conditions under which a run is safe. On the files: the destination is the compacted
  file of the first root that has one, the temporary path is private, the partitions exist.
  On the rows: ids are not NULL, the base has one row per id, no two rows of an id share a
  version, and every partition is newer, id by id, than the base and the partitions before it.\<close>

definition files_ready :: "path list \<Rightarrow> path list \<Rightarrow> compaction_plan \<Rightarrow> path \<Rightarrow> row_fs \<Rightarrow> bool" where
  "files_ready roots configured p tmp f \<longleftrightarrow>
     distinct roots \<and> (\<exists>pre r post. roots = pre @ r # post \<and> pl_compacted_path p = compacted_file r
        \<and> (\<forall>q \<in> set pre. f (compacted_file q) = None))
     \<and> pl_base_paths p = reader_base roots configured f
     \<and> distinct (pl_partitions p) \<and> (\<forall>q \<in> set (pl_partitions p). f q \<noteq> None)
     \<and> pl_compacted_path p \<notin> set (pl_partitions p)
     \<and> set (pl_partitions p) \<inter> set (pl_base_paths p) = {}
     \<and> tmp \<notin> set (pl_partitions p) \<union> set (pl_base_paths p) \<union> compacted_file ` set roots"

definition rows_ready :: "dataset_spec \<Rightarrow> string \<Rightarrow> compaction_plan \<Rightarrow> row_fs \<Rightarrow> bool" where
  "rows_ready s vf p f \<longleftrightarrow>
     (let idf = ds_id_field s; vc = version_column s vf; all = pl_base_paths p @ pl_partitions p in
      alias_faithful s vf (rows_of f all)
      \<and> (\<forall>r \<in> rows_of f all. col idf r \<noteq> NullV)
      \<and> (\<forall>x \<in> rows_of f (pl_base_paths p). \<forall>y \<in> rows_of f (pl_base_paths p). col idf x = col idf y \<longrightarrow> x = y)
      \<and> versions_distinct idf vc (raw_rows f all)
      \<and> (\<forall>j \<le> length (pl_partitions p).
           older idf vc (rows_of f (pl_base_paths p @ take j (pl_partitions p)))
             (rows_of f (drop j (pl_partitions p)))))"

lemma alias_older:
  assumes "alias_faithful s vf Z" "X \<subseteq> Z" "Y \<subseteq> Z" "older (ds_id_field s) (version_column s vf) X Y"
  shows "older (ds_id_field s) vf (add_aliases (ds_aliases s) ` X) (add_aliases (ds_aliases s) ` Y)"
  unfolding older_def
proof (intro ballI impI)
  fix x' y' assume "x' \<in> add_aliases (ds_aliases s) ` X" "y' \<in> add_aliases (ds_aliases s) ` Y"
    and eq: "col (ds_id_field s) x' = col (ds_id_field s) y'"
  then obtain x y where x: "x \<in> X" "x' = add_aliases (ds_aliases s) x"
    and y: "y \<in> Y" "y' = add_aliases (ds_aliases s) y" by blast
  have "x \<in> Z" "y \<in> Z" using assms(2,3) x y by blast+
  with assms(1) eq x y olderD [OF assms(4) x(1) y(1)] show "col vf x' < col vf y'"
    by (simp add: alias_faithful_def)
qed

lemma alias_distinct:
  assumes "alias_faithful s vf Z" "X \<subseteq> Z"
    "\<forall>x \<in> Z. \<forall>y \<in> Z. col (ds_id_field s) x = col (ds_id_field s) y
       \<and> col (version_column s vf) x = col (version_column s vf) y \<longrightarrow> x = y"
  shows "\<forall>x \<in> add_aliases (ds_aliases s) ` X. \<forall>y \<in> add_aliases (ds_aliases s) ` X.
      col (ds_id_field s) x = col (ds_id_field s) y \<and> col vf x = col vf y \<longrightarrow> x = y"
proof (intro ballI impI)
  fix x' y' assume "x' \<in> add_aliases (ds_aliases s) ` X" "y' \<in> add_aliases (ds_aliases s) ` X"
    and eq: "col (ds_id_field s) x' = col (ds_id_field s) y' \<and> col vf x' = col vf y'"
  then obtain x y where x: "x \<in> X" "x' = add_aliases (ds_aliases s) x"
    and y: "y \<in> X" "y' = add_aliases (ds_aliases s) y" by blast
  then have Z: "x \<in> Z" "y \<in> Z" using assms(2) by blast+
  with assms(1) eq x(2) y(2) have "col (ds_id_field s) x = col (ds_id_field s) y
       \<and> col (version_column s vf) x = col (version_column s vf) y" by (simp add: alias_faithful_def)
  with assms(3) Z x(2) y(2) show "x' = y'" by blast
qed

lemma alias_not_null:
  "alias_faithful s vf Z \<Longrightarrow> X \<subseteq> Z \<Longrightarrow> \<forall>r \<in> Z. col (ds_id_field s) r \<noteq> NullV \<Longrightarrow>
   \<forall>r \<in> add_aliases (ds_aliases s) ` X. col (ds_id_field s) r \<noteq> NullV"
  by (auto simp: alias_faithful_def subset_iff)

lemma crash_split:
  assumes "picks pick" "ds_version_field s = Some vf" "rows_ready s vf p f" "j \<le> length (pl_partitions p)"
  defines "al \<equiv> add_aliases (ds_aliases s)"
  defines "newest \<equiv> newest_set (ds_id_field s) vf (al ` rows_of f (pl_base_paths p @ pl_partitions p))"
  shows "al ` set (merged_rows pick s vf f (pl_base_paths p @ pl_partitions p)) = newest"
    and "split_set (ds_id_field s) vf newest (al ` rows_of f (drop j (pl_partitions p))) = newest"
    and "split_set (ds_id_field s) vf (al ` rows_of f (pl_base_paths p)) (al ` rows_of f (pl_partitions p)) = newest"
proof -
  let ?idf = "ds_id_field s" and ?vc = "version_column s vf"
  let ?all = "pl_base_paths p @ pl_partitions p"
  have faithful: "alias_faithful s vf (rows_of f ?all)"
    and vdist: "versions_distinct ?idf ?vc (raw_rows f ?all)"
    and bdist: "\<forall>x \<in> rows_of f (pl_base_paths p). \<forall>y \<in> rows_of f (pl_base_paths p). col ?idf x = col ?idf y \<longrightarrow> x = y"
    and old: "\<And>j. j \<le> length (pl_partitions p) \<Longrightarrow> older ?idf ?vc (rows_of f (pl_base_paths p @ take j (pl_partitions p)))
             (rows_of f (drop j (pl_partitions p)))"
    using assms(3) by (simp_all add: rows_ready_def Let_def)
  show "al ` set (merged_rows pick s vf f ?all) = newest"
    unfolding merged_rows_def newest_per_id_set [OF assms(1) vdist] newest_def al_def
    using alias_newest [OF faithful] by (simp add: rows_of_def)
  have sub: "rows_of f (pl_base_paths p @ take i (pl_partitions p)) \<subseteq> rows_of f ?all"
    "rows_of f (drop i (pl_partitions p)) \<subseteq> rows_of f ?all" for i
    by (auto simp: rows_of_def dest: in_set_takeD in_set_dropD)
  have whole: "rows_of f (pl_base_paths p @ take i (pl_partitions p)) \<union> rows_of f (drop i (pl_partitions p)) = rows_of f ?all" for i
    by (metis append_assoc append_take_drop_id rows_of_append)
  note al_old = alias_older [OF faithful sub old, folded al_def]
  show "split_set ?idf vf newest (al ` rows_of f (drop j (pl_partitions p))) = newest"
    using split_merged [OF al_old [OF assms(4)]] by (simp only: newest_def whole flip: image_Un)
  have "\<forall>x \<in> al ` rows_of f (pl_base_paths p). \<forall>y \<in> al ` rows_of f (pl_base_paths p).
      col ?idf x = col ?idf y \<longrightarrow> x = y"
    using bdist faithful by (auto simp: alias_faithful_def al_def rows_of_append)
  then show "split_set ?idf vf (al ` rows_of f (pl_base_paths p)) (al ` rows_of f (pl_partitions p)) = newest"
    using split_base [OF al_old [of 0]] by (simp add: newest_def rows_of_append image_Un)
qed

lemma unlink_run: "fs_run (map Unlink ps) f q = (if q \<in> set ps then None else f q)"
  by (induction ps arbitrary: f) auto

lemma raw_rows_cong: "(\<And>q. q \<in> set ps \<Longrightarrow> g q = f q) \<Longrightarrow> raw_rows g ps = raw_rows f ps"
  by (induction ps) (auto simp: rows_at_def)

lemma aliased_rows: "aliased s (raw_rows f ps) = add_aliases (ds_aliases s) ` rows_of f ps"
  by (simp add: aliased_def rows_of_def)

lemma filter_exists_drop:
  assumes "distinct ps" "\<And>q. q \<in> set ps \<Longrightarrow> g q \<noteq> None \<longleftrightarrow> q \<notin> set (take j ps)"
  shows "filter (\<lambda>q. g q \<noteq> None) ps = drop j ps"
proof -
  have "filter (\<lambda>q. g q \<noteq> None) ps = filter (\<lambda>q. g q \<noteq> None) (take j ps) @ filter (\<lambda>q. g q \<noteq> None) (drop j ps)"
    by (metis append_take_drop_id filter_append)
  moreover have "g q = None" if "q \<in> set (take j ps)" for q
    using assms(2) [of q] that by (auto dest: in_set_takeD)
  then have "filter (\<lambda>q. g q \<noteq> None) (take j ps) = []" by (simp add: filter_empty_conv)
  moreover have "set (take j ps) \<inter> set (drop j ps) = {}"
    using assms(1) by (simp add: set_take_disj_set_drop_if_distinct)
  then have "filter (\<lambda>q. g q \<noteq> None) (drop j ps) = drop j ps"
    using assms(2) by (auto simp: filter_id_conv dest: in_set_dropD)
  ultimately show ?thesis by simp
qed

lemma rows_readyD:
  assumes "rows_ready s vf p f"
  shows "alias_faithful s vf (rows_of f (pl_base_paths p @ pl_partitions p))"
    and "\<forall>r \<in> rows_of f (pl_base_paths p @ pl_partitions p). col (ds_id_field s) r \<noteq> NullV"
    and "\<forall>x \<in> rows_of f (pl_base_paths p @ pl_partitions p). \<forall>y \<in> rows_of f (pl_base_paths p @ pl_partitions p).
       col (ds_id_field s) x = col (ds_id_field s) y
       \<and> col (version_column s vf) x = col (version_column s vf) y \<longrightarrow> x = y"
  using assms unfolding rows_ready_def Let_def versions_distinct_def rows_of_def
  by - (elim conjE, assumption)+

lemma files_readyD:
  assumes "files_ready roots configured p tmp f"
  shows "distinct roots" "pl_base_paths p = reader_base roots configured f"
    "distinct (pl_partitions p)" "\<forall>q \<in> set (pl_partitions p). f q \<noteq> None"
    "pl_compacted_path p \<notin> set (pl_partitions p)"
    "set (pl_partitions p) \<inter> set (pl_base_paths p) = {}"
    "tmp \<notin> set (pl_partitions p) \<union> set (pl_base_paths p) \<union> compacted_file ` set roots"
    "\<exists>pre r post. roots = pre @ r # post \<and> pl_compacted_path p = compacted_file r
        \<and> (\<forall>q \<in> set pre. f (compacted_file q) = None)"
  using assms unfolding files_ready_def by - (elim conjE, assumption)+

lemma reader_before:
  assumes "picks pick" "ds_version_field s = Some vf" "files_ready roots configured p tmp f" "rows_ready s vf p f"
    and g: "\<And>q. q \<noteq> tmp \<Longrightarrow> g q = f q"
  shows "set (reader_rows pick s roots configured (pl_partitions p) g) =
    newest_set (ds_id_field s) vf (add_aliases (ds_aliases s) ` rows_of f (pl_base_paths p @ pl_partitions p))"
proof -
  let ?ps = "pl_partitions p" and ?base = "pl_base_paths p"
  have fr: "?base = reader_base roots configured f" "distinct ?ps" "\<And>q. q \<in> set ?ps \<Longrightarrow> f q \<noteq> None"
    "set ?ps \<inter> set ?base = {}" "tmp \<notin> set ?ps" "tmp \<notin> set ?base" "tmp \<notin> compacted_file ` set roots"
    using files_readyD [OF assms(3)] by (blast+)
  have same: "g q = f q" if "q \<in> set ?ps \<union> set ?base \<union> compacted_file ` set roots" for q
  proof (rule g)
    show "q \<noteq> tmp" using that fr(5-7) by blast
  qed
  have "filter (\<lambda>q. g q \<noteq> None) (map compacted_file roots) = filter (\<lambda>q. f q \<noteq> None) (map compacted_file roots)"
    by (rule filter_cong) (use same in auto)
  then have base: "reader_base roots configured g = ?base"
    by (simp only: reader_base_def fr(1))
  have ex: "filter (\<lambda>q. g q \<noteq> None) ?ps = ?ps"
    using fr(3) same by (auto simp: filter_id_conv)
  have rows: "raw_rows g ?base = raw_rows f ?base" "raw_rows g ?ps = raw_rows f ?ps"
    by (rule raw_rows_cong, use same in auto)+
  note rr = rows_readyD [OF assms(4)]
  have "set (reader_rows pick s roots configured ?ps g) =
    split_set (ds_id_field s) vf (aliased s (raw_rows g ?base)) (aliased s (raw_rows g ?ps))"
  proof (rule reader_rows_set [OF assms(1,2) base fr(4) ex])
    show "\<forall>r \<in> aliased s (raw_rows g ?base). col (ds_id_field s) r \<noteq> NullV"
      unfolding rows aliased_rows by (rule alias_not_null [OF rr(1) _ rr(2)]) (simp add: rows_of_append)
    show "\<forall>x \<in> aliased s (raw_rows g ?ps). \<forall>y \<in> aliased s (raw_rows g ?ps).
        col (ds_id_field s) x = col (ds_id_field s) y \<and> col vf x = col vf y \<longrightarrow> x = y"
      unfolding rows aliased_rows
      by (rule alias_distinct [OF rr(1) _ rr(3)]) (simp add: rows_of_append)
  qed
  then show ?thesis
    unfolding rows aliased_rows using crash_split(3) [OF assms(1,2,4), of 0] by simp
qed

lemma reader_after:
  assumes "picks pick" "ds_version_field s = Some vf" "files_ready roots configured p tmp f" "rows_ready s vf p f"
    and j: "j \<le> length (pl_partitions p)"
    and dest: "g (pl_compacted_path p) = Some (merged_rows pick s vf f (pl_base_paths p @ pl_partitions p))"
    and gone: "\<And>q. q \<in> set (take j (pl_partitions p)) \<Longrightarrow> g q = None"
    and g: "\<And>q. q \<noteq> tmp \<Longrightarrow> q \<noteq> pl_compacted_path p \<Longrightarrow> q \<notin> set (take j (pl_partitions p)) \<Longrightarrow> g q = f q"
  shows "set (reader_rows pick s roots configured (pl_partitions p) g) =
    newest_set (ds_id_field s) vf (add_aliases (ds_aliases s) ` rows_of f (pl_base_paths p @ pl_partitions p))"
proof -
  let ?ps = "pl_partitions p" and ?base = "pl_base_paths p" and ?dest = "pl_compacted_path p"
  let ?m = "merged_rows pick s vf f (?base @ ?ps)"
  obtain pre r post where roots: "roots = pre @ r # post" "?dest = compacted_file r"
    "\<forall>q \<in> set pre. f (compacted_file q) = None"
    using files_readyD(8) [OF assms(3)] by blast
  have fr: "distinct ?ps" "\<And>q. q \<in> set ?ps \<Longrightarrow> f q \<noteq> None" "?dest \<notin> set ?ps"
    "tmp \<notin> set ?ps" "tmp \<notin> compacted_file ` set roots" "distinct roots"
    using files_readyD [OF assms(3)] by blast+
  have "g (compacted_file q) = None" if q: "q \<in> set pre" for q
  proof (cases "compacted_file q \<in> set (take j ?ps)")
    case False
    have "compacted_file q \<noteq> ?dest"
      using fr(6) q by (auto simp: roots(1,2) compacted_file_def)
    moreover have "compacted_file q \<noteq> tmp" using fr(5) q roots(1) by auto
    ultimately show ?thesis using g False roots(3) q by simp
  qed (rule gone)
  then have "filter (\<lambda>q. g q \<noteq> None) (map compacted_file roots)
      = ?dest # filter (\<lambda>q. g q \<noteq> None) (map compacted_file post)"
    using dest by (simp add: roots(1,2) filter_empty_conv)
  then have base: "reader_base roots configured g = [?dest]" by (simp add: reader_base_def)
  have present: "g q \<noteq> None \<longleftrightarrow> q \<notin> set (take j ?ps)" if "q \<in> set ?ps" for q
  proof (cases "q \<in> set (take j ?ps)")
    case False
    have "q \<noteq> tmp" "q \<noteq> ?dest" using that fr(3,4) by blast+
    then have "g q = f q" using False by (rule g)
    with False fr(2) [OF that] show ?thesis by simp
  qed (simp add: gone)
  then have ex: "filter (\<lambda>q. g q \<noteq> None) ?ps = drop j ?ps"
    by (rule filter_exists_drop [OF fr(1)])
  have disj: "set (take j ?ps) \<inter> set (drop j ?ps) = {}"
    using fr(1) by (simp add: set_take_disj_set_drop_if_distinct)
  have "raw_rows g (drop j ?ps) = raw_rows f (drop j ?ps)"
  proof (rule raw_rows_cong)
    fix q assume q: "q \<in> set (drop j ?ps)"
    then have "q \<in> set ?ps" "q \<notin> set (take j ?ps)" using disj by (auto dest: in_set_dropD)
    with fr(3,4) show "g q = f q" by (intro g) auto
  qed
  moreover have "raw_rows g [?dest] = ?m" using dest by (simp add: rows_at_def)
  moreover have "set (reader_rows pick s roots configured ?ps g) =
    split_set (ds_id_field s) vf (aliased s (raw_rows g [?dest])) (aliased s (raw_rows g (drop j ?ps)))"
  proof (rule reader_rows_set [OF assms(1,2) base _ ex])
    note rr = rows_readyD [OF assms(4)]
    show "set (drop j ?ps) \<inter> set [?dest] = {}" using fr(3) by (auto dest: in_set_dropD)
    have "set ?m \<subseteq> rows_of f (pl_base_paths p @ ?ps)"
      by (auto simp: merged_rows_def rows_of_def dest: newest_per_id_iff [OF assms(1)])
    then show "\<forall>r \<in> aliased s (raw_rows g [?dest]). col (ds_id_field s) r \<noteq> NullV"
      unfolding \<open>raw_rows g [?dest] = ?m\<close> aliased_def by (rule alias_not_null [OF rr(1) _ rr(2)])
    have "rows_of f (drop j ?ps) \<subseteq> rows_of f (pl_base_paths p @ ?ps)"
      by (auto simp: rows_of_def dest: in_set_dropD)
    then show "\<forall>x \<in> aliased s (raw_rows g (drop j ?ps)). \<forall>y \<in> aliased s (raw_rows g (drop j ?ps)).
        col (ds_id_field s) x = col (ds_id_field s) y \<and> col vf x = col vf y \<longrightarrow> x = y"
      unfolding \<open>raw_rows g (drop j ?ps) = raw_rows f (drop j ?ps)\<close> aliased_rows
      by (rule alias_distinct [OF rr(1) _ rr(3)])
  qed
  ultimately show ?thesis
    using crash_split(1,2) [OF assms(1,2,4) j]
    by (simp only: aliased_rows) (simp only: aliased_def rows_of_def)
qed

lemma run_after_replace:
  assumes "tmp \<noteq> pl_compacted_path p"
  shows "fs_run (take (Suc (Suc (Suc j))) (compact_ops pick s vf p tmp f)) f q =
    (if q \<in> set (take j (pl_partitions p)) then None
     else if q = tmp then None
     else if q = pl_compacted_path p then Some (merged_rows pick s vf f (pl_base_paths p @ pl_partitions p))
     else f q)"
  using assms by (simp add: compact_ops_def take_map unlink_run)

section \<open>Properties\<close>

text \<open>C2:
  compaction never changes what a reader sees: stopped by a crash after any number of its
  file operations (before the merged file is published, between publication and removal,
  after removing only some partitions, or at the end) the object's view holds exactly the
  rows it held before, when partitions are newer than the base and than the partitions
  removed before them.\<close>

theorem compaction_crash_safe:
  assumes "picks pick" "ds_version_field s = Some vf"
    and "files_ready roots configured p tmp f" "rows_ready s vf p f"
  shows "set (reader_rows pick s roots configured (pl_partitions p)
      (fs_run (take k (compact_ops pick s vf p tmp f)) f))
    = set (reader_rows pick s roots configured (pl_partitions p) f)"
proof -
  let ?ops = "compact_ops pick s vf p tmp f"
  let ?v = "newest_set (ds_id_field s) vf (add_aliases (ds_aliases s) ` rows_of f (pl_base_paths p @ pl_partitions p))"
  have before: "set (reader_rows pick s roots configured (pl_partitions p) f) = ?v"
    by (rule reader_before [OF assms]) simp
  have dest: "pl_compacted_path p \<in> compacted_file ` set roots"
    using files_readyD(8) [OF assms(3)] by auto
  then have tmp: "tmp \<noteq> pl_compacted_path p" "tmp \<notin> set (pl_partitions p)"
    using files_readyD(7) [OF assms(3)] by auto
  consider "k = 0" | "k = 1" | "k = 2" | j where "k = Suc (Suc (Suc j))"
    by (metis One_nat_def Suc_1 not0_implies_Suc)
  then have "set (reader_rows pick s roots configured (pl_partitions p) (fs_run (take k ?ops) f)) = ?v"
  proof cases
    case (4 j)
    let ?j = "min j (length (pl_partitions p))"
    have tk: "take j (pl_partitions p) = take ?j (pl_partitions p)" by (simp add: min_def)
    show ?thesis
    proof (rule reader_after [OF assms, of ?j])
      show "fs_run (take k ?ops) f (pl_compacted_path p)
          = Some (merged_rows pick s vf f (pl_base_paths p @ pl_partitions p))"
        using files_readyD(5) [OF assms(3)] tmp(1)
        by (auto simp: 4 run_after_replace [OF tmp(1)] dest: in_set_takeD)
      show "fs_run (take k ?ops) f q = None" if "q \<in> set (take ?j (pl_partitions p))" for q
        using that by (simp only: 4 run_after_replace [OF tmp(1)] tk if_True)
      show "fs_run (take k ?ops) f q = f q"
        if "q \<noteq> tmp" "q \<noteq> pl_compacted_path p" "q \<notin> set (take ?j (pl_partitions p))" for q
        using that by (simp only: 4 run_after_replace [OF tmp(1)] tk if_False)
    qed simp
  qed (rule reader_before [OF assms], simp add: compact_ops_def)+
  then show ?thesis by (simp only: before)
qed

definition wit_plan :: compaction_plan where
  "wit_plan = \<lparr>pl_object = ''Account'', pl_base_paths = [[''b.parquet'']],
     pl_partitions = [[''d'', ''1.parquet''], [''d'', ''2.parquet'']],
     pl_compacted_path = [''d'', ''compacted'', ''base.parquet'']\<rparr>"

definition wit_fs :: row_fs where
  "wit_fs = [[''b.parquet''] \<mapsto> [wit_row_of ''a'' 1, wit_row_of ''b'' 2],
     [''d'', ''1.parquet''] \<mapsto> [wit_row_of ''a'' 3, wit_row_of ''c'' 1],
     [''d'', ''2.parquet''] \<mapsto> [wit_row_of ''a'' 5]]"

lemma wit_files_ready: "files_ready [[''d'']] [[''b.parquet'']] wit_plan [''d'', ''compacted'', ''.tmp''] wit_fs"
  unfolding files_ready_def
proof (intro conjI)
  show "\<exists>pre r post. [[''d'']] = pre @ r # post \<and> pl_compacted_path wit_plan = compacted_file r
        \<and> (\<forall>q \<in> set pre. wit_fs (compacted_file q) = None)"
    by (intro exI [of _ "[]"] exI [of _ "[''d'']"])
      (simp add: wit_plan_def compacted_file_def compacted_directory_def compacted_base_filename_def)
qed (simp_all add: wit_plan_def wit_fs_def reader_base_def compacted_file_def compacted_directory_def
    compacted_base_filename_def)

lemma wit_rows: "rows_at wit_fs [''b.parquet''] = [wit_row_of ''a'' 1, wit_row_of ''b'' 2]"
  "rows_at wit_fs [''d'', ''1.parquet''] = [wit_row_of ''a'' 3, wit_row_of ''c'' 1]"
  "rows_at wit_fs [''d'', ''2.parquet''] = [wit_row_of ''a'' 5]"
  by (simp_all add: rows_at_def wit_fs_def)

lemma wit_version_column: "version_column wit_versioned ''V'' = ''V''"
  by (simp add: version_column_def wit_versioned_def dict_of_pairs_def dict_get_or_def)

lemma wit_no_aliases: "add_aliases (ds_aliases wit_versioned) r = r"
  by (simp add: add_aliases_def wit_versioned_def)

lemma wit_rows_ready: "rows_ready wit_versioned ''V'' wit_plan wit_fs"
proof -
  let ?ps = "[[''d'', ''1.parquet''], [''d'', ''2.parquet'']]"
  have "older ''Id'' ''V'' (rows_of wit_fs ([[''b.parquet'']] @ take j ?ps)) (rows_of wit_fs (drop j ?ps))"
    if "j \<le> 2" for j
  proof -
    from that consider "j = 0" | "j = 1" | "j = 2" by linarith
    then show ?thesis by cases (auto simp: rows_of_def wit_rows older_def)
  qed
  then show ?thesis
    unfolding rows_ready_def Let_def wit_version_column wit_fields alias_faithful_def wit_no_aliases
    by (simp add: wit_plan_def versions_distinct_def) (simp add: rows_of_def wit_rows)
qed

theorem compaction_crash_safe_witness:
  "set (reader_rows hd wit_versioned [[''d'']] [[''b.parquet'']] (pl_partitions wit_plan)
      (fs_run (take 4 (compact_ops hd wit_versioned ''V'' wit_plan [''d'', ''compacted'', ''.tmp''] wit_fs)) wit_fs))
   = set (reader_rows hd wit_versioned [[''d'']] [[''b.parquet'']] (pl_partitions wit_plan) wit_fs)"
  by (rule compaction_crash_safe [OF picks_hd wit_fields(1) wit_files_ready wit_rows_ready])

definition unordered_fs :: row_fs where
  "unordered_fs = [[''b.parquet''] \<mapsto> [],
     [''d'', ''1.parquet''] \<mapsto> [wit_row_of ''a'' 5], [''d'', ''2.parquet''] \<mapsto> [wit_row_of ''a'' 3]]"


end
