(* ===== verification/CursorArtifacts.thy ===== *)
theory CursorArtifacts
  imports Storage StateStore
begin

text \<open>
  \<open>fakeforce/cursor_artifacts.py\<close> and \<open>fakeforce/recovery.py\<close>: the id indexes of
  query locators. An index file holds the rows of its Parquet table, a sequence number and a
  record id each; \<open>resolve\<close> is \<open>Path.resolve\<close>, a parameter, and paths the
  state store keeps as text are given as paths.
\<close>

section \<open>Indexes\<close>

type_synonym index_rows = "(int \<times> string) list"
type_synonym index_fs = "index_rows fs"

definition index_of :: "string list \<Rightarrow> index_rows" where
  "index_of ids = map (\<lambda>(n, i). (int n, i)) (enumerate_from 0 ids)"

definition index_path :: "path \<Rightarrow> string \<Rightarrow> path" where
  "index_path dir locator_id = dir @ [locator_id @ ''.parquet'']"

definition write_index_ops :: "path \<Rightarrow> path \<Rightarrow> string \<Rightarrow> string list \<Rightarrow> index_rows fs_op list" where
  "write_index_ops dir tmp locator_id ids =
     MkDir dir # Put tmp (index_of ids) # publish_temp_ops tmp (index_path dir locator_id)"

definition read_page_ids :: "index_rows \<Rightarrow> int \<Rightarrow> int \<Rightarrow> string list" where
  "read_page_ids rows offset count =
     map snd (sort_key fst (filter (\<lambda>(n, _). offset \<le> n \<and> n < offset + count) rows))"

section \<open>Removal\<close>

definition remove_artifact :: "(path \<Rightarrow> path) \<Rightarrow> path \<Rightarrow> path \<Rightarrow> 'c fs \<Rightarrow> bool \<times> 'c fs" where
  "remove_artifact resolve dir p f =
     (if \<not> path_under (resolve p) (resolve dir) then (False, f)
      else if f p = None then (False, f) else (True, f(p := None)))"

definition in_dir :: "path \<Rightarrow> path \<Rightarrow> bool" where
  "in_dir dir p \<longleftrightarrow> p \<noteq> [] \<and> path_parent p = dir"

text \<open>\<open>reconcile\<close>, given the names the directory listings return.\<close>

definition reconcile ::
  "(path \<Rightarrow> path) \<Rightarrow> path \<Rightarrow> path list \<Rightarrow> path list \<Rightarrow> path list \<Rightarrow> path list \<Rightarrow> 'c fs \<Rightarrow> 'c fs" where
  "reconcile resolve dir parquet_listing tmp_listing expired active f =
     (let f1 = fold (\<lambda>p g. snd (remove_artifact resolve dir p g)) expired f;
          f2 = fold (\<lambda>p g. if resolve p \<notin> set (map resolve active)
                          then snd (remove_artifact resolve dir p g) else g) parquet_listing f1
      in fold (\<lambda>p g. g(p := None)) tmp_listing f2)"

section \<open>Recovery\<close>

definition recover_cursor_artifacts ::
  "timestamp \<Rightarrow> (path \<Rightarrow> path) \<Rightarrow> (string \<Rightarrow> path) \<Rightarrow> path \<Rightarrow> (index_fs \<Rightarrow> path list) \<Rightarrow> path list
   \<Rightarrow> store \<Rightarrow> index_fs \<Rightarrow> store \<times> index_fs" where
  "recover_cursor_artifacts now resolve to_path dir listing tmps s f =
     (case expire_cursors now s of
        (Err e, t) \<Rightarrow> (t, f)
      | (Ok expired, t) \<Rightarrow>
          (let active = map to_path (active_cursor_artifacts now t);
               f1 = fold (\<lambda>p g. snd (remove_artifact resolve dir p g)) (map to_path expired) f in
           (t, reconcile resolve dir (listing f1) tmps (map to_path expired) active f)))"

definition recover_bulk_artifacts ::
  "timestamp \<Rightarrow> (string \<Rightarrow> 'f \<Rightarrow> 'f) list \<Rightarrow> store \<Rightarrow> 'f \<Rightarrow> store \<times> 'f" where
  "recover_bulk_artifacts now removers s f =
     (case expire_jobs now s of
        (Err e, t) \<Rightarrow> (t, f)
      | (Ok ids, t) \<Rightarrow> (t, fold (\<lambda>i g. fold (\<lambda>rm h. rm i h) removers g) ids f))"

section \<open>Pages of an index\<close>

lemma index_filter:
  "filter (\<lambda>(n, _). a \<le> n \<and> n < b) (map (\<lambda>(n, i). (int n, i)) (enumerate_from k ids))
   = map (\<lambda>(n, i). (int n, i)) (filter (\<lambda>(n, _). a \<le> int n \<and> int n < b) (enumerate_from k ids))"
  by (simp add: filter_map comp_def split_def)

lemma filter_enumerate:
  "map snd (filter (\<lambda>(n, _). lo \<le> n \<and> n < hi) (enumerate_from k xs))
   = take (hi - max lo k) (drop (lo - k) xs)"
proof (induction xs arbitrary: k)
  case (Cons x xs)
  show ?case
  proof (cases "lo \<le> k")
    case True
    then show ?thesis using Cons [of "Suc k"] by (cases "k < hi") (auto simp: Suc_diff_Suc max_def take_Cons' split: if_splits)
  next
    case False
    then have "lo - k = Suc (lo - Suc k)" "max lo k = lo" "max lo (Suc k) = lo" by auto
    then show ?thesis using False Cons [of "Suc k"] by simp
  qed
qed simp

lemma sorted_enumerate: "sorted (map fst (filter P (enumerate_from k xs)))"
proof -
  have "sorted (map fst (enumerate_from k xs))" by simp
  then show ?thesis by (rule sorted_filter)
qed

lemma read_page_index:
  assumes "0 \<le> offset" "0 \<le> count"
  shows "read_page_ids (index_of ids) offset count = take (nat count) (drop (nat offset) ids)"
proof -
  let ?f = "filter (\<lambda>(n, _). offset \<le> int n \<and> int n < offset + count) (enumerate_from 0 ids)"
  have eq: "filter (\<lambda>(n, _). offset \<le> n \<and> n < offset + count) (index_of ids) = map (\<lambda>(n, i). (int n, i)) ?f"
    unfolding index_of_def by (rule index_filter)
  have "sorted (map fst (map (\<lambda>(n, i). (int n, i)) ?f))"
    using sorted_enumerate [of _ 0 ids] by (simp add: sorted_map comp_def case_prod_beta sorted_wrt_map)
  then have "read_page_ids (index_of ids) offset count = map snd ?f"
    unfolding read_page_ids_def eq by (simp add: sort_key_id_if_sorted comp_def case_prod_beta)
  also have "?f = filter (\<lambda>(n, _). nat offset \<le> n \<and> n < nat (offset + count)) (enumerate_from 0 ids)"
    using assms by (intro filter_cong) auto
  also have "map snd \<dots> = take (nat (offset + count) - max (nat offset) 0) (drop (nat offset) ids)"
    using filter_enumerate [of "nat offset" "nat (offset + count)" 0 ids] by simp
  also have "\<dots> = take (nat count) (drop (nat offset) ids)"
    using assms by (simp add: nat_add_distrib)
  finally show ?thesis .
qed

lemma concat_pages:
  "concat (map (\<lambda>k. take b (drop (k * b) xs)) [0 ..< m]) = take (m * b) xs"
proof (induction m)
  case (Suc m)
  then show ?case by (simp add: take_add add.commute [of b])
qed simp

section \<open>What cleanup leaves\<close>

lemma fold_remove:
  "fold (\<lambda>p g. if P p then snd (remove_artifact resolve dir p g) else g) ps f q =
     (if f q \<noteq> None \<and> path_under (resolve q) (resolve dir) \<and> q \<in> set ps \<and> P q then None else f q)"
proof (induction ps arbitrary: f)
  case (Cons p ps)
  show ?case
    unfolding fold.simps comp_apply Cons.IH
    by (auto simp: remove_artifact_def)
qed simp

lemma fold_remove_all:
  "fold (\<lambda>p g. snd (remove_artifact resolve dir p g)) ps f q =
     (if f q \<noteq> None \<and> path_under (resolve q) (resolve dir) \<and> q \<in> set ps then None else f q)"
  using fold_remove [of "\<lambda>_. True" resolve dir ps f q] by (simp only: if_True simp_thms)

lemma fold_unlink: "fold (\<lambda>p g. g(p := None)) ps f q = (if q \<in> set ps then None else f q)"
  by (induction ps arbitrary: f) auto

lemma reconcile_survivors:
  "reconcile resolve dir listing tmps expired active f p =
     (if p \<in> set tmps \<or> f p \<noteq> None \<and> path_under (resolve p) (resolve dir)
          \<and> (p \<in> set expired \<or> p \<in> set listing \<and> resolve p \<notin> resolve ` set active)
      then None else f p)"
  unfolding reconcile_def Let_def fold_unlink fold_remove fold_remove_all set_map by auto

section \<open>Properties\<close>



text \<open>C14:
  after restart recovery an index file of the cursor directory survives exactly when a
  live cursor of the store refers to it and no expired one does; private temporary files are
  gone, and nothing outside the directory is removed.\<close>

theorem recovery_keeps_live_indexes:
  assumes "recover_cursor_artifacts now resolve to_path dir listing tmps s f = (t, g)"
    and "p \<notin> set tmps"
    and "\<And>h. f p \<noteq> None \<Longrightarrow> p \<in> set (listing h) \<longleftrightarrow> in_dir dir p \<and> h p \<noteq> None"
  shows "g p = (if f p \<noteq> None \<and> path_under (resolve p) (resolve dir)
      \<and> (p \<in> to_path ` cu_artifact ` {r \<in> set (st_cursors s). cu_expires_at r \<le> now}
         \<or> in_dir dir p \<and> resolve p \<notin> resolve ` to_path ` cu_artifact ` {r \<in> set (st_cursors s). cursor_live now r})
      then None else f p)"
proof -
  let ?ex = "map to_path (map cu_artifact (filter (\<lambda>r. cu_expires_at r \<le> now) (st_cursors s)))"
  let ?f1 = "fold (\<lambda>p g. snd (remove_artifact resolve dir p g)) ?ex f"
  have f1: "?f1 p = (if f p \<noteq> None \<and> path_under (resolve p) (resolve dir) \<and> p \<in> set ?ex then None else f p)"
    by (rule fold_remove_all)
  have live: "{x \<in> set (st_cursors s). \<not> cu_expires_at x \<le> now \<and> cursor_live now x}
      = {r \<in> set (st_cursors s). cursor_live now r}"
    by (auto simp: cursor_live_def)
  have g: "g = reconcile resolve dir (listing ?f1) tmps ?ex
      (map to_path (active_cursor_artifacts now (snd (expire_cursors now s)))) f"
    using assms(1) by (auto simp: recover_cursor_artifacts_def expire_cursors_def Let_def)
  have act: "set (map to_path (active_cursor_artifacts now (snd (expire_cursors now s))))
      = to_path ` cu_artifact ` {r \<in> set (st_cursors s). cursor_live now r}"
    by (simp add: active_cursor_artifacts_def expire_cursors_def live image_image)
  show ?thesis
    unfolding g reconcile_survivors act
    using assms(2) assms(3) [of ?f1] f1 by auto
qed

definition wit_cursor :: "string \<Rightarrow> timestamp \<Rightarrow> cursor_row" where
  "wit_cursor l e = \<lparr>cu_locator = l, cu_api_version = ''v66.0'', cu_query = ''q'', cu_query_hash = ''h'',
     cu_object = ''Account'', cu_snapshot = ''s'', cu_batch_size = 200, cu_offset = 0, cu_total = 3,
     cu_artifact = l @ ''.parquet'', cu_status = ''open'', cu_created_at = 0,
     cu_last_accessed_at = 0, cu_expires_at = e\<rparr>"

definition wit_index_fs :: index_fs where
  "wit_index_fs = [[''c'', ''live.parquet''] \<mapsto> index_of [''a''], [''c'', ''old.parquet''] \<mapsto> index_of [''b'']]"

definition wit_listing :: "index_fs \<Rightarrow> path list" where
  "wit_listing h = filter (\<lambda>p. h p \<noteq> None) [[''c'', ''live.parquet''], [''c'', ''old.parquet'']]"

theorem recovery_keeps_live_indexes_witness:
  "snd (recover_cursor_artifacts 5 id (\<lambda>a. [''c'', a]) [''c''] wit_listing []
      (empty_store\<lparr>st_cursors := [wit_cursor ''live'' 9, wit_cursor ''old'' 4]\<rparr>) wit_index_fs) [''c'', ''old.parquet''] = None"
proof -
  let ?s = "empty_store\<lparr>st_cursors := [wit_cursor ''live'' 9, wit_cursor ''old'' 4]\<rparr>"
  obtain t g where run: "recover_cursor_artifacts 5 id (\<lambda>a. [''c'', a]) [''c''] wit_listing [] ?s wit_index_fs = (t, g)"
    by (cases "recover_cursor_artifacts 5 id (\<lambda>a. [''c'', a]) [''c''] wit_listing [] ?s wit_index_fs")
  have sets: "{r \<in> set (st_cursors ?s). cu_expires_at r \<le> 5} = {wit_cursor ''old'' 4}"
    "{r \<in> set (st_cursors ?s). cursor_live 5 r} = {wit_cursor ''live'' 9}"
    by (auto simp: wit_cursor_def cursor_live_def)
  have art: "cu_artifact (wit_cursor l e) = l @ ''.parquet''" for l e by (simp add: wit_cursor_def)
  have "g [''c'', ''old.parquet''] = None"
    using recovery_keeps_live_indexes [OF run, of "[''c'', ''old.parquet'']", unfolded sets]
    by (simp add: art wit_listing_def in_dir_def path_parent_def path_under_def split: if_splits)
  with run show ?thesis by simp
qed

end
