(* ===== verification/QueryService.thy ===== *)
theory QueryService
  imports Soql Engine CursorArtifacts
begin

text \<open>
  \<open>fakeforce/query_service.py\<close>: planning of a parsed query into parameterised SQL,
  execution of pages, and rehydration of records by id for query locators. DuckDB is the
  argument \<open>run\<close>: the rows of a statement under its parameters; counting and paging
  such a statement are count and slice of those rows. \<open>fmt\<close> is the text Python
  formats an id value as.
\<close>

section \<open>Options\<close>

datatype query_error =
  QueryValidation string
| QueryOption string
| QueryInternal string

definition min_query_batch_size :: int where "min_query_batch_size = 200"
definition max_query_batch_size :: int where "max_query_batch_size = 2000"
definition default_query_batch_size :: int where "default_query_batch_size = 2000"
definition max_offset :: int where "max_offset = 2000"

definition parse_option :: "(string, string) dict \<Rightarrow> string \<Rightarrow> query_error + (string, string) dict" where
  "parse_option options opt =
     (case partition_chr (CHR ''='') opt of
        (key, sep, value) \<Rightarrow>
          if \<not> sep \<or> strip key = [] \<or> strip value = [] then Err (QueryOption ''use batchSize=<integer>'')
          else Ok (dict_set (str_lower (strip key)) (strip value) options))"

definition parse_query_batch_size :: "string option \<Rightarrow> query_error + int" where
  "parse_query_batch_size header =
     (case header of
        None \<Rightarrow> Ok default_query_batch_size
      | Some h \<Rightarrow>
          if strip h = [] then Ok default_query_batch_size
          else rbind (rfold parse_option [] (split_chr (CHR '';'') h)) (\<lambda>options.
            if set (map fst options) \<noteq> {''batchsize''} then Err (QueryOption ''only batchSize'')
            else (case py_int (dict_get_or options ''batchsize'' []) of
                    None \<Rightarrow> Err (QueryOption ''must be an integer'')
                  | Some n \<Rightarrow>
                      if min_query_batch_size \<le> n \<and> n \<le> max_query_batch_size then Ok n
                      else Err (QueryOption ''out of range''))))"

section \<open>Planning\<close>

record query_plan =
  qp_object_name :: string
  qp_fields :: "string list"
  qp_id_field :: string
  qp_source_sql :: string
  qp_sql :: string
  qp_parameters :: "literal list"
  qp_has_order_by :: bool

definition internal_id_field :: string where "internal_id_field = ''__fakeforce_record_id''"

definition field_name :: "dataset_spec \<Rightarrow> string \<Rightarrow> query_error + string" where
  "field_name s f =
     of_opt (QueryValidation ''INVALID_FIELD'')
       (map_of (dict_of_pairs (map (\<lambda>n. (str_lower n, n)) (schema_names (ds_schema s)))) (str_lower f))"

definition plan_fields :: "select_query \<Rightarrow> dataset_spec \<Rightarrow> query_error + string list" where
  "plan_fields q s = (if q_fields q = [''*''] then Ok [''*''] else rmap (field_name s) (q_fields q))"

fun has_required_filter :: "dataset_spec \<Rightarrow> predicate list \<Rightarrow> query_error + bool" where
  "has_required_filter s [] = Ok False"
| "has_required_filter s (InComparison f vs # ps) = has_required_filter s ps"
| "has_required_filter s (Comparison f op v # ps) =
     (if op = ''='' then rbind (field_name s f) (\<lambda>n.
        if n \<in> set (ds_required_filter_fields s) then Ok True else has_required_filter s ps)
      else has_required_filter s ps)"

definition is_text_field :: "string \<Rightarrow> dataset_spec \<Rightarrow> bool" where
  "is_text_field f s \<longleftrightarrow> map_of (ds_schema s) f \<in> {Some ArrowString, Some ArrowLargeString}"

definition is_str :: "literal \<Rightarrow> bool" where
  "is_str v = (case v of LStr _ \<Rightarrow> True | _ \<Rightarrow> False)"

fun where_clause :: "dataset_spec \<Rightarrow> predicate \<Rightarrow> query_error + string \<times> literal list" where
  "where_clause s (InComparison f vs) =
     rbind (field_name s f) (\<lambda>n.
       let qf = quote_identifier n in
       if is_text_field n s \<and> list_all is_str vs
       then Ok (''lower('' @ qf @ '') IN ('' @ join_with '', '' (map (\<lambda>_. ''lower(?)'') vs) @ '')'', vs)
       else Ok (qf @ '' IN ('' @ join_with '', '' (map (\<lambda>_. ''?'') vs) @ '')'', vs))"
| "where_clause s (Comparison f op v) =
     (if op = ''!='' \<and> \<not> ds_supports_ne s then Err (QueryValidation ''MALFORMED_QUERY'')
      else rbind (field_name s f) (\<lambda>n.
        let qf = quote_identifier n in
        if v = LNull then
          (if op = ''='' then Ok (qf @ '' IS NULL'', [])
           else if op = ''!='' then Ok (qf @ '' IS NOT NULL'', [])
           else Err (QueryValidation ''MALFORMED_QUERY''))
        else if is_text_field n s \<and> is_str v then
          (if op = ''LIKE'' then Ok (qf @ '' ILIKE ?'', [v])
           else if op = ''='' \<or> op = ''!='' then Ok (''lower('' @ qf @ '') '' @ op @ '' lower(?)'', [v])
           else Ok (qf @ '' '' @ op @ '' ?'', [v]))
        else Ok (qf @ '' '' @ op @ '' ?'', [v])))"

definition where_clauses :: "dataset_spec \<Rightarrow> predicate list \<Rightarrow> query_error + string list \<times> literal list" where
  "where_clauses s ps = rbind (rmap (where_clause s) ps)
     (\<lambda>cs. Ok (map fst cs, concat (map snd cs)))"

definition projection_sql :: "string list \<Rightarrow> dataset_spec \<Rightarrow> string" where
  "projection_sql fs s =
     (if fs = [''*''] then ''*'' else join_with '', '' (map quote_identifier fs))
     @ '', '' @ quote_identifier (ds_id_field s) @ '' AS '' @ quote_identifier internal_id_field"

definition where_sql :: "string list \<Rightarrow> string" where
  "where_sql clauses =
     (if clauses = [] then [] else '' WHERE '' @ join_with '' AND '' (map (\<lambda>c. ''('' @ c @ '')'') clauses))"

definition order_sql :: "dataset_spec \<Rightarrow> order_by option \<Rightarrow> query_error + string" where
  "order_sql s ob =
     (case ob of
        None \<Rightarrow> Ok []
      | Some b \<Rightarrow> rbind (field_name s (ob_field b)) (\<lambda>f.
          Ok ('' ORDER BY '' @ quote_identifier f @ '' '' @ ob_direction b @ '' NULLS '' @ ob_nulls b)))"

definition limit_sql :: "int option \<Rightarrow> int \<Rightarrow> string" where
  "limit_sql lmt off =
     (case lmt of None \<Rightarrow> [] | Some n \<Rightarrow> '' LIMIT '' @ int_str n)
     @ (if off = 0 then [] else '' OFFSET '' @ int_str off)"

definition plan_spec :: "catalog \<Rightarrow> select_query \<Rightarrow> dataset_spec \<Rightarrow> bool \<Rightarrow> query_error + query_plan" where
  "plan_spec c q s include_deleted =
     rbind (if ds_required_filter_fields s = [] then Ok True
            else has_required_filter s (q_predicates q)) (\<lambda>ok.
     if \<not> ok then Err (QueryValidation ''MALFORMED_QUERY'')
     else rbind (plan_fields q s) (\<lambda>fs.
       let deleted = (if \<not> include_deleted then
              (case ds_soft_delete_field s of None \<Rightarrow> [] | Some f \<Rightarrow> [''NOT '' @ quote_identifier f])
              else []) in
       rbind (where_clauses s (q_predicates q)) (\<lambda>(clauses, params).
       rbind (case relation_name (ds_object_name s) c of Err _ \<Rightarrow> Err (QueryInternal ''KeyError'') | Ok r \<Rightarrow> Ok r) (\<lambda>rel.
       rbind (order_sql s (q_order_by q)) (\<lambda>ord.
       let source_sql = ''SELECT '' @ projection_sql fs s @ '' FROM '' @ quote_identifier rel
              @ where_sql (deleted @ clauses) @ ord;
           mk = (\<lambda>sql. \<lparr>qp_object_name = ds_object_name s, qp_fields = fs, qp_id_field = ds_id_field s,
              qp_source_sql = source_sql, qp_sql = sql, qp_parameters = params,
              qp_has_order_by = (q_order_by q \<noteq> None)\<rparr>) in
       if \<not> ds_supports_limit s then Ok (mk source_sql)
       else if q_offset q > max_offset then Err (QueryValidation ''NUMBER_OUTSIDE_VALID_RANGE'')
       else Ok (mk (source_sql @ limit_sql (q_limit q) (q_offset q))))))))"

definition plan :: "catalog \<Rightarrow> string \<Rightarrow> bool \<Rightarrow> query_error + query_plan" where
  "plan c query include_deleted =
     (case parse_soql query of
        Err _ \<Rightarrow> Err (QueryValidation ''MALFORMED_QUERY'')
      | Ok q \<Rightarrow>
          (case catalog_get (q_object q) c of
             None \<Rightarrow> Err (QueryValidation ''INVALID_TYPE'')
           | Some s \<Rightarrow> plan_spec c q s include_deleted))"

section \<open>Execution\<close>

datatype out_value = Attributes string string | Column sql_value

type_synonym out_record = "(string, out_value) dict"

type_synonym runner = "string \<Rightarrow> literal list \<Rightarrow> sql_row list"

record query_page =
  qg_object_name :: string
  qg_total_size :: nat
  qg_records :: "out_record list"

definition record_id_of :: "sql_row \<Rightarrow> sql_value" where
  "record_id_of r = col internal_id_field r"

definition out_record_of :: "(sql_value \<Rightarrow> string) \<Rightarrow> string \<Rightarrow> query_plan \<Rightarrow> bool \<Rightarrow> sql_row \<Rightarrow> out_record" where
  "out_record_of fmt api p include_id r =
     (let rid = record_id_of r;
          attrs = Attributes (qp_object_name p)
            (''/services/data/'' @ api @ ''/sobjects/'' @ qp_object_name p @ ''/'' @ fmt rid);
          rec = dict_update [(''attributes'', attrs)]
            (map (\<lambda>(k, v). (k, Column v)) (AList.delete internal_id_field r)) in
      if include_id then dict_set internal_id_field (Column rid) rec else rec)"

definition execute_page ::
  "runner \<Rightarrow> (sql_value \<Rightarrow> string) \<Rightarrow> string \<Rightarrow> query_plan \<Rightarrow> int \<Rightarrow> int \<Rightarrow> query_page" where
  "execute_page run fmt api p page_size page_offset =
     (let rows = run (qp_sql p) (qp_parameters p) in
      \<lparr>qg_object_name = qp_object_name p, qg_total_size = length rows,
       qg_records = map (out_record_of fmt api p False)
         (take (nat page_size) (drop (nat page_offset) rows))\<rparr>)"

definition fetch_page ::
  "runner \<Rightarrow> (sql_value \<Rightarrow> string) \<Rightarrow> string \<Rightarrow> catalog \<Rightarrow> string \<Rightarrow> bool \<Rightarrow> int \<Rightarrow> int \<Rightarrow> query_error + query_page" where
  "fetch_page run fmt api c query include_deleted page_size page_offset =
     (if page_size \<le> 0 \<or> page_offset < 0 then Err (QueryInternal ''ValueError'')
      else rbind (plan c query include_deleted) (\<lambda>p. Ok (execute_page run fmt api p page_size page_offset)))"

text \<open>The index a page leaves behind when it is not the last one: the ids of the whole result.\<close>

definition fetch_page_with_cursor_index ::
  "runner \<Rightarrow> (sql_value \<Rightarrow> string) \<Rightarrow> string \<Rightarrow> catalog \<Rightarrow> string \<Rightarrow> bool \<Rightarrow> int \<Rightarrow> int
   \<Rightarrow> query_error + query_page \<times> index_rows option" where
  "fetch_page_with_cursor_index run fmt api c query include_deleted page_size page_offset =
     (if page_size \<le> 0 \<or> page_offset < 0 then Err (QueryInternal ''ValueError'')
      else rbind (plan c query include_deleted) (\<lambda>p.
        let pg = execute_page run fmt api p page_size page_offset in
        if page_offset + int (length (qg_records pg)) \<ge> int (qg_total_size pg) then Ok (pg, None)
        else Ok (pg, Some (index_of (map (fmt \<circ> record_id_of) (run (qp_sql p) (qp_parameters p)))))))"

definition execute_records_by_ids ::
  "runner \<Rightarrow> (sql_value \<Rightarrow> string) \<Rightarrow> string \<Rightarrow> query_plan \<Rightarrow> string list \<Rightarrow> query_error + out_record list" where
  "execute_records_by_ids run fmt api p ids =
     (let matching = filter (\<lambda>r. record_id_of r \<in> TextV ` set ids) (run (qp_source_sql p) (qp_parameters p));
          by_id = dict_of_pairs (map (\<lambda>r. (record_id_of r, out_record_of fmt api p True r)) matching);
          found = filter (\<lambda>i. map_of by_id (TextV i) \<noteq> None) ids in
      if \<not> distinct found then Err (QueryInternal ''KeyError'')
      else Ok (map (\<lambda>i. AList.delete internal_id_field (dict_get_or by_id (TextV i) [])) found))"

definition fetch_records_by_ids ::
  "runner \<Rightarrow> (sql_value \<Rightarrow> string) \<Rightarrow> string \<Rightarrow> catalog \<Rightarrow> string \<Rightarrow> bool \<Rightarrow> string list \<Rightarrow> query_error + out_record list" where
  "fetch_records_by_ids run fmt api c query include_deleted ids =
     (if ids = [] then Ok []
      else rbind (plan c query include_deleted) (\<lambda>p. execute_records_by_ids run fmt api p ids))"

definition fetch_records_for_locator ::
  "runner \<Rightarrow> (sql_value \<Rightarrow> string) \<Rightarrow> string \<Rightarrow> catalog \<Rightarrow> string \<Rightarrow> bool \<Rightarrow> index_rows \<Rightarrow> int \<Rightarrow> int
   \<Rightarrow> query_error + out_record list" where
  "fetch_records_for_locator run fmt api c query include_deleted idx page_offset batch_size =
     rbind (plan c query include_deleted) (\<lambda>p.
       let ids = read_page_ids idx page_offset batch_size in
       if ids = [] then Ok [] else execute_records_by_ids run fmt api p ids)"

definition build_cursor_index ::
  "runner \<Rightarrow> (sql_value \<Rightarrow> string) \<Rightarrow> catalog \<Rightarrow> string \<Rightarrow> bool \<Rightarrow> query_error + index_rows" where
  "build_cursor_index run fmt c query include_deleted =
     rbind (plan c query include_deleted) (\<lambda>p.
       Ok (index_of (map (fmt \<circ> record_id_of) (run (qp_sql p) (qp_parameters p)))))"

end
