(* ===== verification/QueryServiceProps.thy ===== *)
theory QueryServiceProps
  imports QueryService SoqlProps CatalogProps
begin

text \<open>
  The query service: batch size bounds, the SQL a plan holds (balanced, its placeholders
  matched by its parameters, independent of literal values), paging, and the replay of a
  locator.
\<close>

section \<open>Placeholders\<close>

lemma binds_op: "op = ''LIKE'' \<or> op \<in> set operators \<Longrightarrow> binds op 0"
  by (rule binds_plain) (auto simp: operators_def)

lemma binds_texts [simp]:
  "binds ''lower('' 0" "binds '') IN ('' 0" "binds '')'' 0" "binds ''('' 0" "binds '' IN ('' 0"
  "binds '' IS NULL'' 0" "binds '' IS NOT NULL'' 0" "binds '' ILIKE ?'' 1" "binds '' '' 0"
  "binds '' ?'' 1" "binds '' lower(?)'' 1" "binds '') '' 0" "binds '', '' 0" "binds ''?'' 1"
  "binds ''lower(?)'' 1" "binds '' AND '' 0" "binds '' WHERE '' 0" "binds ''SELECT '' 0" "binds '' FROM '' 0"
  "binds '' AS '' 0" "binds '' ORDER BY '' 0" "binds '' NULLS '' 0" "binds ''NOT '' 0" "binds ''*'' 0"
  "binds '' LIMIT '' 0" "binds '' OFFSET '' 0"
  by (simp_all add: binds_def)

lemma binds_Cons: "c \<noteq> dquote \<Longrightarrow> c \<noteq> CHR ''?'' \<Longrightarrow> binds (c # s) n = binds s n"
  by (simp add: binds_def)

lemma binds_repeat: "binds t 1 \<Longrightarrow> binds (join_with '', '' (map (\<lambda>_. t) vs)) (length vs)"
proof -
  assume t: "binds t 1"
  have "list_all2 binds (map (\<lambda>_. t) vs) (map (\<lambda>_. 1) vs)"
    using t by (simp add: list_all2_conv_all_nth)
  from binds_join [OF binds_texts(13) this] show ?thesis by (simp add: sum_list_triv)
qed

lemma binds_cat3: "binds a l \<Longrightarrow> binds b m \<Longrightarrow> binds c n \<Longrightarrow> binds (a @ b @ c) (l + m + n)"
  using binds_append [OF _ binds_append, of a l b m c n] by (simp add: add.assoc)

lemma where_clause_binds:
  "predicate_ok p \<Longrightarrow> where_clause s p = Ok (c, vs) \<Longrightarrow> binds c (length vs)"
proof (cases p)
  case (InComparison f ws)
  assume "where_clause s p = Ok (c, vs)"
  with InComparison obtain n where n: "field_name s f = Ok n" and vs: "vs = ws"
    and c: "c = ''lower('' @ quote_identifier n @ '') IN ('' @ join_with '', '' (map (\<lambda>_. ''lower(?)'') ws) @ '')''
      \<or> c = quote_identifier n @ '' IN ('' @ join_with '', '' (map (\<lambda>_. ''?'') ws) @ '')''"
    by (auto simp: rbind_eq_Inr Let_def split: if_splits)
  from c show ?thesis
    unfolding vs
    by (elim disjE; hypsubst)
      (intro binds_append0 binds_append_0 binds_repeat binds_texts binds_identifier)+
next
  case (Comparison f op v)
  assume ok: "predicate_ok p" and "where_clause s p = Ok (c, vs)"
  with Comparison obtain n where
    "c = quote_identifier n @ '' IS NULL'' \<and> vs = [] \<or> c = quote_identifier n @ '' IS NOT NULL'' \<and> vs = []
     \<or> c = quote_identifier n @ '' ILIKE ?'' \<and> vs = [v]
     \<or> c = ''lower('' @ quote_identifier n @ '') '' @ op @ '' lower(?)'' \<and> vs = [v]
     \<or> c = quote_identifier n @ '' '' @ op @ '' ?'' \<and> vs = [v]"
    by (auto simp: rbind_eq_Inr Let_def split: if_splits)
  moreover have op: "binds op 0" using ok Comparison by (intro binds_op) simp
  have "binds (quote_identifier n @ '' IS NULL'') 0" "binds (quote_identifier n @ '' IS NOT NULL'') 0"
    "binds (quote_identifier n @ '' ILIKE ?'') 1"
    by (intro binds_append0 binds_identifier binds_texts)+
  moreover have "binds (''lower('' @ quote_identifier n @ '') '' @ op @ '' lower(?)'') 1"
    "binds (quote_identifier n @ '' '' @ op @ '' ?'') 1"
    by (intro binds_append0 binds_identifier binds_texts op)+
  ultimately show ?thesis by auto
qed

lemma where_clauses_binds:
  "list_all predicate_ok ps \<Longrightarrow> where_clauses s ps = Ok (cs, vs) \<Longrightarrow>
   \<exists>ns. list_all2 binds cs ns \<and> sum_list ns = length vs"
proof (induction ps arbitrary: cs vs)
  case Nil
  then show ?case by (intro exI [of _ "[]"]) (simp add: where_clauses_def)
next
  case (Cons p ps)
  then obtain c ws cs' vs' where p: "where_clause s p = Ok (c, ws)" "where_clauses s ps = Ok (cs', vs')"
    and eq: "cs = c # cs'" "vs = ws @ vs'"
    by (auto simp: where_clauses_def rbind_eq_Inr)
  with Cons obtain ns where "list_all2 binds cs' ns" "sum_list ns = length vs'" by auto
  moreover have "binds c (length ws)" using where_clause_binds [OF _ p(1)] Cons.prems by simp
  ultimately show ?case by (intro exI [of _ "length ws # ns"]) (simp add: eq)
qed

lemma binds_join0:
  "binds sep 0 \<Longrightarrow> (\<And>x. x \<in> set xs \<Longrightarrow> binds x 0) \<Longrightarrow> binds (join_with sep xs) 0"
proof -
  assume sep: "binds sep 0" and xs: "\<And>x. x \<in> set xs \<Longrightarrow> binds x 0"
  have "list_all2 binds xs (map (\<lambda>_. 0) xs)" using xs by (simp add: list_all2_conv_all_nth)
  from binds_join [OF sep this] show ?thesis by (simp add: sum_list_triv)
qed

lemma projection_binds: "binds (projection_sql fs s) 0"
  unfolding projection_sql_def
  by (intro binds_append0 binds_identifier binds_texts) (auto intro!: binds_join0)

lemma where_sql_binds:
  assumes "list_all2 binds cs ns"
  shows "binds (where_sql cs) (sum_list ns)"
proof (cases "cs = []")
  case True
  with assms show ?thesis by (simp add: where_sql_def)
next
  case False
  have "list_all2 binds (map (\<lambda>c. ''('' @ c @ '')'') cs) ns"
    using assms by (auto simp: list_all2_map1 binds_Cons elim!: list_all2_mono intro!: binds_append_0)
  with False show ?thesis
    by (simp add: where_sql_def) (intro binds_append0 [of "'' WHERE ''", simplified] binds_texts binds_join)
qed

lemma digits_plain: "list_all is_digit s \<Longrightarrow> dquote \<notin> set s \<and> CHR ''?'' \<notin> set s"
proof -
  have "\<not> is_digit dquote" "\<not> is_digit (CHR ''?'')" by code_simp+
  then show "list_all is_digit s \<Longrightarrow> dquote \<notin> set s \<and> CHR ''?'' \<notin> set s" by (auto simp: list_all_iff)
qed

lemma int_str_binds: "binds (int_str n) 0"
  using digits_plain [OF nat_digits_all] by (intro binds_plain) (auto simp: int_str_def)

lemma limit_sql_binds: "binds (limit_sql l n) 0"
  unfolding limit_sql_def
  by (intro binds_append0 [of _ _ 0]) (auto simp: binds_Cons int_str_binds split: option.split)

lemma order_sql_binds: "\<forall>b. ob = Some b \<longrightarrow> order_ok b \<Longrightarrow> order_sql s ob = Ok t \<Longrightarrow> binds t 0"
proof (cases ob)
  case (Some b)
  assume "\<forall>b. ob = Some b \<longrightarrow> order_ok b" and "order_sql s ob = Ok t"
  with Some obtain f where "order_ok b" and t: "t = '' ORDER BY '' @ quote_identifier f @ '' '' @ ob_direction b @ '' NULLS '' @ ob_nulls b"
    by (auto simp: order_sql_def rbind_eq_Inr)
  then have "binds (ob_direction b) 0" "binds (ob_nulls b) 0"
    by (auto simp: order_ok_def intro!: binds_plain)
  then show ?thesis unfolding t by (intro binds_append0 binds_identifier binds_texts)
qed (simp add: order_sql_def)

lemma plan_spec_parts:
  assumes "plan_spec c q s incl = Ok p"
  obtains fs clauses params rel ord where
    "plan_fields q s = Ok fs" "where_clauses s (q_predicates q) = Ok (clauses, params)"
    "relation_name (ds_object_name s) c = Ok rel" "order_sql s (q_order_by q) = Ok ord"
    "qp_object_name p = ds_object_name s" "qp_parameters p = params"
    "qp_source_sql p = ''SELECT '' @ projection_sql fs s @ '' FROM '' @ quote_identifier rel
       @ where_sql ((if \<not> incl then (case ds_soft_delete_field s of None \<Rightarrow> []
            | Some f \<Rightarrow> [''NOT '' @ quote_identifier f]) else []) @ clauses) @ ord"
    "qp_sql p = qp_source_sql p @ (if ds_supports_limit s then limit_sql (q_limit q) (q_offset q) else [])"
  using assms
  by (auto simp: plan_spec_def rbind_eq_Inr Let_def split: if_splits sum.splits)

lemma plan_spec_binds:
  assumes "query_ok q" "plan_spec c q s incl = Ok p"
  shows "binds (qp_source_sql p) (length (qp_parameters p)) \<and> binds (qp_sql p) (length (qp_parameters p))"
proof -
  let ?deleted = "if \<not> incl then (case ds_soft_delete_field s of None \<Rightarrow> [] | Some f \<Rightarrow> [''NOT '' @ quote_identifier f]) else []"
  from assms(2) obtain fs clauses params rel ord where
    w: "where_clauses s (q_predicates q) = Ok (clauses, params)"
    and o: "order_sql s (q_order_by q) = Ok ord"
    and p: "qp_parameters p = params"
      "qp_source_sql p = ''SELECT '' @ projection_sql fs s @ '' FROM '' @ quote_identifier rel
              @ where_sql (?deleted @ clauses) @ ord"
      "qp_sql p = qp_source_sql p @ (if ds_supports_limit s then limit_sql (q_limit q) (q_offset q) else [])"
    by (rule plan_spec_parts)
  obtain ns where ns: "list_all2 binds clauses ns" "sum_list ns = length params"
    using where_clauses_binds [OF _ w] assms(1) by (auto simp: query_ok_def)
  have "list_all2 binds (?deleted @ clauses) (map (\<lambda>_. 0) ?deleted @ ns)"
    using ns(1) by (intro list_all2_appendI) (auto simp: binds_Cons split: option.splits)
  from where_sql_binds [OF this] have "binds (where_sql (?deleted @ clauses)) (length params)"
    using ns(2) by (simp add: sum_list_triv split: option.splits if_splits)
  then have "binds (where_sql (?deleted @ clauses) @ ord) (length params)"
    using order_sql_binds [OF _ o] assms(1) by (intro binds_append_0) (auto simp: query_ok_def)
  then have src: "binds (qp_source_sql p) (length params)"
    unfolding p(2)
    by (rule binds_append0 [OF binds_texts(18) binds_append0 [OF projection_binds
        binds_append0 [OF binds_texts(19) binds_append0 [OF binds_identifier]]]])
  have "binds (if ds_supports_limit s then limit_sql (q_limit q) (q_offset q) else []) 0"
    by (simp add: limit_sql_binds)
  with src show ?thesis unfolding p(1,3) by (intro conjI binds_append_0)
qed

section \<open>Literals never reach the SQL text\<close>

fun shape_literal :: "literal \<Rightarrow> literal" where
  "shape_literal (LStr _) = LStr []"
| "shape_literal LNull = LNull"
| "shape_literal (LBool _) = LBool True"
| "shape_literal (LInt _) = LInt 0"
| "shape_literal (LFloat _) = LFloat []"

fun shape_predicate :: "predicate \<Rightarrow> predicate" where
  "shape_predicate (Comparison f op v) = Comparison f op (shape_literal v)"
| "shape_predicate (InComparison f vs) = InComparison f (map shape_literal vs)"

lemma shape_literal_simps [simp]:
  "shape_literal v = LNull \<longleftrightarrow> v = LNull" "is_str (shape_literal v) = is_str v"
  by (cases v; simp add: is_str_def)+

lemma where_clause_shape:
  "where_clause s (shape_predicate p) =
     (case where_clause s p of Err e \<Rightarrow> Err e | Ok (c, vs) \<Rightarrow> Ok (c, map shape_literal vs))"
proof (cases p)
  case (InComparison f vs)
  have "list_all is_str (map shape_literal vs) = list_all is_str vs"
    by (simp add: list_all_iff)
  with InComparison show ?thesis
    by (cases "field_name s f") (simp_all add: Let_def comp_def)
next
  case (Comparison f op v)
  then show ?thesis by (cases "field_name s f") (simp_all add: Let_def)
qed

lemma where_clauses_shape:
  "map shape_predicate ps = map shape_predicate qs \<Longrightarrow>
   where_clauses s ps = Ok (cs, vs) \<Longrightarrow> where_clauses s qs = Ok (ds, ws) \<Longrightarrow> cs = ds"
proof (induction ps arbitrary: qs cs vs ds ws)
  case (Cons p ps)
  then obtain q qs' where qs: "qs = q # qs'" by (cases qs) auto
  from Cons.prems obtain c v cs' vs' where p: "where_clause s p = Ok (c, v)" "where_clauses s ps = Ok (cs', vs')" "cs = c # cs'"
    by (auto simp: where_clauses_def rbind_eq_Inr)
  from Cons.prems qs obtain d w ds' ws' where q: "where_clause s q = Ok (d, w)" "where_clauses s qs' = Ok (ds', ws')" "ds = d # ds'"
    by (auto simp: where_clauses_def rbind_eq_Inr)
  have "where_clause s (shape_predicate p) = where_clause s (shape_predicate q)"
    using Cons.prems(1) qs by simp
  then have "c = d" by (simp add: where_clause_shape p q)
  moreover have "cs' = ds'" using Cons qs p q by auto
  ultimately show ?case by (simp add: p q)
qed (simp add: where_clauses_def)

lemma plan_spec_shape:
  assumes "map shape_predicate (q_predicates q) = map shape_predicate (q_predicates q')"
    "q_fields q = q_fields q'" "q_order_by q = q_order_by q'" "q_limit q = q_limit q'" "q_offset q = q_offset q'"
    "plan_spec c q s incl = Ok p" "plan_spec c q' s incl = Ok p'"
  shows "qp_sql p = qp_sql p' \<and> qp_source_sql p = qp_source_sql p'"
proof -
  from assms(6) obtain fs clauses params rel ord where p:
    "plan_fields q s = Ok fs" "where_clauses s (q_predicates q) = Ok (clauses, params)"
    "relation_name (ds_object_name s) c = Ok rel" "order_sql s (q_order_by q) = Ok ord"
    "qp_source_sql p = ''SELECT '' @ projection_sql fs s @ '' FROM '' @ quote_identifier rel
       @ where_sql ((if \<not> incl then (case ds_soft_delete_field s of None \<Rightarrow> []
            | Some f \<Rightarrow> [''NOT '' @ quote_identifier f]) else []) @ clauses) @ ord"
    "qp_sql p = qp_source_sql p @ (if ds_supports_limit s then limit_sql (q_limit q) (q_offset q) else [])"
    by (rule plan_spec_parts)
  from assms(7) obtain fs' clauses' params' rel' ord' where p':
    "plan_fields q' s = Ok fs'" "where_clauses s (q_predicates q') = Ok (clauses', params')"
    "relation_name (ds_object_name s) c = Ok rel'" "order_sql s (q_order_by q') = Ok ord'"
    "qp_source_sql p' = ''SELECT '' @ projection_sql fs' s @ '' FROM '' @ quote_identifier rel'
       @ where_sql ((if \<not> incl then (case ds_soft_delete_field s of None \<Rightarrow> []
            | Some f \<Rightarrow> [''NOT '' @ quote_identifier f]) else []) @ clauses') @ ord'"
    "qp_sql p' = qp_source_sql p' @ (if ds_supports_limit s then limit_sql (q_limit q') (q_offset q') else [])"
    by (rule plan_spec_parts)
  have "clauses = clauses'" by (rule where_clauses_shape [OF assms(1) p(2) p'(2)])
  moreover have "plan_fields q s = plan_fields q' s" by (simp only: plan_fields_def assms(2))
  then have "fs = fs'" using p(1) p'(1) by simp
  moreover have "rel = rel'" "ord = ord'" using p(3,4) p'(3,4) assms(3) by simp_all
  ultimately have "qp_source_sql p = qp_source_sql p'" by (simp only: p(5) p'(5))
  then show ?thesis by (simp only: p(6) p'(6) assms(4,5))
qed

section \<open>Locator replay\<close>

lemma internal_not_column:
  "internal_id_field \<notin> set (map fst (map (\<lambda>(k, v). (k, f v)) (AList.delete internal_id_field r)))"
  using delete_notin_dom [of internal_id_field r] by (simp add: image_image case_prod_beta)

lemma out_record_internal:
  "AList.delete internal_id_field (out_record_of fmt api p True r) = out_record_of fmt api p False r"
proof -
  have "internal_id_field \<noteq> ''attributes''" by (simp add: internal_id_field_def)
  then have "internal_id_field \<notin> set (map fst (out_record_of fmt api p False r))"
    using internal_not_column [of Column r]
    by (simp only: out_record_of_def Let_def if_False keys_dict_update Un_iff) simp
  moreover have "out_record_of fmt api p True r
      = dict_set internal_id_field (Column (record_id_of r)) (out_record_of fmt api p False r)"
    by (simp add: out_record_of_def Let_def)
  ultimately show ?thesis
    by (simp add: delete_update_same)
qed

lemma execute_records_slice:
  assumes src: "run (qp_source_sql p) (qp_parameters p) = all_rows"
    and ids: "\<forall>r \<in> set all_rows. record_id_of r = TextV (fmt (record_id_of r))"
    and dist: "distinct (map record_id_of all_rows)"
    and page: "set page \<subseteq> set all_rows" "distinct (map record_id_of page)"
  shows "execute_records_by_ids run fmt api p (map (fmt \<circ> record_id_of) page)
    = Ok (map (out_record_of fmt api p False) page)"
proof -
  let ?ids = "map (fmt \<circ> record_id_of) page"
  let ?match = "filter (\<lambda>r. record_id_of r \<in> TextV ` set ?ids) all_rows"
  let ?by = "dict_of_pairs (map (\<lambda>r. (record_id_of r, out_record_of fmt api p True r)) ?match)"
  have key: "TextV (fmt (record_id_of r)) = record_id_of r" if "r \<in> set page" for r
    using ids page(1) that by (metis subsetD)
  have by_id: "map_of ?by (record_id_of r) = Some (out_record_of fmt api p True r)" if r: "r \<in> set page" for r
  proof -
    have "distinct (map fst (map (\<lambda>r. (record_id_of r, out_record_of fmt api p True r)) ?match))"
      using dist by (simp add: comp_def distinct_map_filter)
    moreover have "r \<in> set ?match" using r page(1) key by (force simp: image_iff)
    ultimately show ?thesis by (subst dict_of_pairs_id) (auto intro!: map_of_is_SomeI)
  qed
  have found: "filter (\<lambda>i. map_of ?by (TextV i) \<noteq> None) ?ids = ?ids"
    using by_id key by (auto simp: filter_id_conv)
  have "distinct (map TextV ?ids)"
    using page(2) key by (simp add: comp_def cong: map_cong)
  then have "distinct ?ids" by (rule distinct_map [THEN iffD1, THEN conjunct1])
  moreover have "map (\<lambda>i. AList.delete internal_id_field (dict_get_or ?by (TextV i) [])) ?ids
      = map (out_record_of fmt api p False) page"
    using by_id key by (simp add: dict_get_or_def out_record_internal)
  ultimately show ?thesis
    unfolding execute_records_by_ids_def Let_def src found by simp
qed

lemma plan_parts:
  assumes "plan c t incl = Ok p"
  obtains q s where "parse_soql t = Ok q" "catalog_get (q_object q) c = Some s" "plan_spec c q s incl = Ok p"
  using assms by (auto simp: plan_def split: sum.splits option.splits)

lemma execute_page_records:
  "0 \<le> off \<Longrightarrow> qg_records (execute_page run fmt api p n off)
     = take (nat n) (drop (nat off) (map (out_record_of fmt api p False) (run (qp_sql p) (qp_parameters p))))"
  by (simp add: execute_page_def Let_def take_map drop_map)

lemma first_page_indexed:
  "plan c t incl = Ok p \<Longrightarrow> 0 < n \<Longrightarrow> nat n < length (run (qp_sql p) (qp_parameters p)) \<Longrightarrow>
   \<exists>pg idx. fetch_page_with_cursor_index run fmt api c t incl n 0 = Ok (pg, Some idx)"
  by (simp add: fetch_page_with_cursor_index_def execute_page_def Let_def)

section \<open>Properties\<close>

text \<open>C6:
  every SQL text a plan holds, for the page and for the count over the unlimited
  result, is well-bound: each quoted identifier is closed and the number of parameter
  markers outside identifiers is the number of parameters, whatever the query text, the
  field names of the catalog and the literals are.\<close>

theorem planned_sql_well_bound:
  assumes "plan c t incl = Ok p"
  shows "binds (qp_source_sql p) (length (qp_parameters p)) \<and> binds (qp_sql p) (length (qp_parameters p))"
  using assms by (rule plan_parts) (blast dest: parse_soql_ok plan_spec_binds)

definition plan_or :: "query_error + query_plan \<Rightarrow> query_plan" where
  "plan_or r = (case r of Ok p \<Rightarrow> p | Err _ \<Rightarrow> \<lparr>qp_object_name = [], qp_fields = [], qp_id_field = [],
     qp_source_sql = [], qp_sql = [], qp_parameters = [], qp_has_order_by = False\<rparr>)"

lemma plan_or: "is_ok r \<Longrightarrow> r = Ok (plan_or r)"
  by (auto simp: plan_or_def is_ok_iff)

abbreviation wit_text :: "string \<Rightarrow> string" where
  "wit_text name \<equiv> ''select Id from account where Name = '' @ [CHR 0x27] @ name @ [CHR 0x27]"

lemma wit_planned:
  "plan wit_catalog (wit_text ''a?'') False = Ok (plan_or (plan wit_catalog (wit_text ''a?'') False))"
  "plan wit_catalog (wit_text ''b'') False = Ok (plan_or (plan wit_catalog (wit_text ''b'') False))"
  by (rule plan_or, code_simp)+

theorem planned_sql_well_bound_witness:
  "\<exists>p. plan wit_catalog (wit_text ''a?'') False = Ok p
     \<and> binds (qp_sql p) (length (qp_parameters p)) \<and> qp_parameters p = [LStr ''a?'']"
proof -
  have "qp_parameters (plan_or (plan wit_catalog (wit_text ''a?'') False)) = [LStr ''a?'']" by code_simp
  with planned_sql_well_bound [OF wit_planned(1)] wit_planned(1) show ?thesis by blast
qed

text \<open>C7:
  no literal of a query reaches the SQL text. Two queries that differ in the values
  of their literals only, of the same kinds, are planned into the same SQL; only the
  parameters differ.\<close>

theorem plan_ignores_literal_values:
  assumes "parse_soql t = Ok q" "parse_soql t' = Ok q'"
    and "q'\<lparr>q_predicates := map shape_predicate (q_predicates q')\<rparr>
       = q\<lparr>q_predicates := map shape_predicate (q_predicates q)\<rparr>"
    and "plan c t incl = Ok p" "plan c t' incl = Ok p'"
  shows "qp_sql p = qp_sql p' \<and> qp_source_sql p = qp_source_sql p'"
proof -
  have eq: "map shape_predicate (q_predicates q) = map shape_predicate (q_predicates q')"
    "q_fields q = q_fields q'" "q_order_by q = q_order_by q'" "q_limit q = q_limit q'"
    "q_offset q = q_offset q'" "q_object q = q_object q'"
    using assms(3) by (cases q; cases q'; simp)+
  obtain s where s: "catalog_get (q_object q) c = Some s" "plan_spec c q s incl = Ok p"
    using assms(1,4) by (auto elim!: plan_parts)
  have "plan_spec c q' s incl = Ok p'" using assms(2,5) s(1) eq(6) by (auto elim!: plan_parts)
  from plan_spec_shape [OF eq(1-5) s(2) this] show ?thesis .
qed

theorem plan_ignores_literal_values_witness:
  "qp_sql (plan_or (plan wit_catalog (wit_text ''a?'') False)) = qp_sql (plan_or (plan wit_catalog (wit_text ''b'') False))"
proof -
  let ?q = "\<lambda>v. \<lparr>q_fields = [''Id''], q_object = ''account'', q_predicates = [Comparison ''Name'' ''='' (LStr v)],
     q_order_by = None, q_limit = None, q_offset = 0\<rparr>"
  have "parse_soql (wit_text ''a?'') = Ok (?q ''a?'')" "parse_soql (wit_text ''b'') = Ok (?q ''b'')" by code_simp+
  from plan_ignores_literal_values [OF this _ wit_planned] show ?thesis by simp
qed

text \<open>
  the Sforce-Query-Options header only ever selects a batch size between 200 and
  2000; without one the default is taken.\<close>

theorem query_batch_size_bounds:
  assumes "parse_query_batch_size h = Ok n"
  shows "200 \<le> n \<and> n \<le> 2000 \<and> (h = None \<longrightarrow> n = 2000)"
  using assms
  by (auto simp: parse_query_batch_size_def rbind_eq_Inr default_query_batch_size_def min_query_batch_size_def
      max_query_batch_size_def split: option.splits if_splits)

theorem query_batch_size_bounds_witness:
  "parse_query_batch_size (Some ''foo=1; batchSize = 250'') = Err (QueryOption ''only batchSize'')
   \<and> parse_query_batch_size (Some '' BATCHSIZE = 250'') = Ok 250 \<and> (200::int) \<le> 250"
proof -
  have w: "parse_query_batch_size (Some '' BATCHSIZE = 250'') = Ok 250"
    "parse_query_batch_size (Some ''foo=1; batchSize = 250'') = Err (QueryOption ''only batchSize'')" by code_simp+
  from query_batch_size_bounds [OF w(1)] w show ?thesis by simp
qed


definition wit_id_row :: "string \<Rightarrow> sql_row" where
  "wit_id_row i = [(''Id'', TextV i), (internal_id_field, TextV i)]"

definition wit_run :: runner where
  "wit_run sql ps = map wit_id_row [''a'', ''b'', ''c'']"

definition wit_fmt :: "sql_value \<Rightarrow> string" where
  "wit_fmt v = (case v of TextV t \<Rightarrow> t | _ \<Rightarrow> [])"


lemma locator_records:
  fixes run :: runner
  assumes plan: "plan c t incl = Ok p" and b: "0 < b" and off: "0 \<le> off"
    and text_ids: "\<forall>r \<in> set (run (qp_source_sql p) (qp_parameters p)). record_id_of r = TextV (fmt (record_id_of r))"
    and unique: "distinct (map record_id_of (run (qp_source_sql p) (qp_parameters p)))"
    and limited: "set (run (qp_sql p) (qp_parameters p)) \<subseteq> set (run (qp_source_sql p) (qp_parameters p))"
      "distinct (map record_id_of (run (qp_sql p) (qp_parameters p)))"
  shows "fetch_records_for_locator run fmt api c t incl
      (index_of (map (fmt \<circ> record_id_of) (run (qp_sql p) (qp_parameters p)))) off b
    = Ok (map (out_record_of fmt api p False) (take (nat b) (drop (nat off) (run (qp_sql p) (qp_parameters p)))))"
proof -
  let ?rows = "run (qp_sql p) (qp_parameters p)"
  let ?page = "take (nat b) (drop (nat off) ?rows)"
  have ids: "read_page_ids (index_of (map (fmt \<circ> record_id_of) ?rows)) off b = map (fmt \<circ> record_id_of) ?page"
    using read_page_index [of off b] b off by (simp add: take_map drop_map)
  have sub: "set ?page \<subseteq> set (run (qp_source_sql p) (qp_parameters p))"
    using limited(1) by (meson in_set_dropD in_set_takeD subset_iff)
  have dist: "distinct (map record_id_of ?page)"
    using limited(2) by (metis distinct_drop distinct_take drop_map take_map)
  have "execute_records_by_ids run fmt api p (map (fmt \<circ> record_id_of) ?page) = Ok (map (out_record_of fmt api p False) ?page)"
    using execute_records_slice [where run = run and p = p, OF refl text_ids unique sub dist] by simp
  then show ?thesis by (simp add: fetch_records_for_locator_def plan ids)
qed



end
