(* ===== verification/Batches.thy ===== *)
theory Batches
  imports Prelude
begin

text \<open>
  Loops that collect items into a batch and flush it when it is full, with one more flush for
  what is left: the full batches and the remainder, and the facts a consumer needs to resume
  after any number of flushed batches.
\<close>

fun batches :: "nat \<Rightarrow> 'a list \<Rightarrow> 'a list \<Rightarrow> 'a list list \<times> 'a list" where
  "batches n acc [] = ([], acc)"
| "batches n acc (x # xs) =
     (let acc' = acc @ [x] in
      if length acc' \<ge> n then (case batches n [] xs of (bs, r) \<Rightarrow> (acc' # bs, r))
      else batches n acc' xs)"

definition flushed :: "nat \<Rightarrow> 'a list \<Rightarrow> 'a list list" where
  "flushed n xs = (case batches n [] xs of (bs, r) \<Rightarrow> if r = [] then bs else bs @ [r])"

lemma batches_unroll:
  "length acc < n \<Longrightarrow> batches n acc xs =
     (if length acc + length xs < n then ([], acc @ xs)
      else (case batches n [] (drop (n - length acc) xs) of
              (bs, r) \<Rightarrow> ((acc @ take (n - length acc) xs) # bs, r)))"
proof (induction xs arbitrary: acc)
  case (Cons x xs)
  show ?case
  proof (cases "length (acc @ [x]) \<ge> n")
    case True
    then have "n - length acc = 1" using Cons.prems by simp
    with True Cons.prems show ?thesis by (simp add: Let_def)
  next
    case False
    then have "n - length acc = Suc (n - length (acc @ [x]))" by simp
    with False Cons.IH [of "acc @ [x]"] show ?thesis by (simp add: Let_def)
  qed
qed simp

lemma flushed_Nil [simp]: "flushed n [] = []"
  by (simp add: flushed_def)

lemma flushed_unroll: "0 < n \<Longrightarrow> xs \<noteq> [] \<Longrightarrow> flushed n xs = take n xs # flushed n (drop n xs)"
  using batches_unroll [of "[]" n xs]
  by (cases "length xs < n") (simp_all add: flushed_def split: prod.splits)

lemma flushed_cases:
  assumes "0 < n"
  obtains "xs = []" "flushed n xs = []"
  | "xs \<noteq> []" "flushed n xs = take n xs # flushed n (drop n xs)" "length (drop n xs) < length xs"
  using assms flushed_unroll [of n xs] by (cases "xs = []") auto

lemma flushed_induct [consumes 1, case_names Nil Step]:
  assumes "0 < n" "P []" "\<And>xs. 0 < n \<Longrightarrow> xs \<noteq> [] \<Longrightarrow> P (drop n xs) \<Longrightarrow> P xs"
  shows "P xs"
proof (induction xs rule: length_induct)
  case (1 xs)
  show ?case
  proof (cases "xs = []")
    case False
    with assms(1) have "length (drop n xs) < length xs" by simp
    with 1 assms(3) [OF assms(1) False] show ?thesis by blast
  qed (simp add: assms(2))
qed

lemma concat_flushed: "0 < n \<Longrightarrow> concat (flushed n xs) = xs"
  by (induction xs rule: flushed_induct) (simp_all add: flushed_unroll)

lemma flushed_bounds: "0 < n \<Longrightarrow> b \<in> set (flushed n xs) \<Longrightarrow> b \<noteq> [] \<and> length b \<le> n"
proof (induction xs rule: flushed_induct)
  case (Step xs)
  then show ?case by (auto simp: flushed_unroll)
qed simp

text \<open>Dropping what the first \<open>k\<close> batches hold leaves exactly the remaining batches.\<close>

lemma flushed_resume:
  "0 < n \<Longrightarrow> flushed n (drop (length (concat (take k (flushed n xs)))) xs) = drop k (flushed n xs)"
proof (induction k arbitrary: xs)
  case (Suc k)
  show ?case
  proof (cases "xs = []")
    case False
    let ?c = "concat (take k (flushed n (drop n xs)))"
    have "drop (length (take n xs) + length ?c) xs = drop (length ?c) (drop n xs)"
    proof (cases "length xs < n")
      case True
      then have "drop n xs = []" by simp
      then show ?thesis using True by simp
    qed (simp add: add.commute min_def)
    with Suc.IH [OF Suc.prems, of "drop n xs"] Suc.prems False show ?thesis
      by (simp add: flushed_unroll del: drop_drop)
  qed simp
qed simp

lemma flushed_take_length: "0 < n \<Longrightarrow> length (concat (take k (flushed n xs))) \<le> length xs"
  using concat_flushed [of n xs] append_take_drop_id [of k "flushed n xs"]
  by (metis concat_append length_append le_add1)

lemma concat_take_Suc:
  "k < length bs \<Longrightarrow> concat (take (Suc k) bs) = concat (take k bs) @ bs ! k"
  by (simp add: take_Suc_conv_app_nth)

lemma full_unroll: "0 < n \<Longrightarrow> fst (batches n [] xs) =
   (if length xs < n then [] else take n xs # fst (batches n [] (drop n xs)))"
  using batches_unroll [of "[]" n xs] by (simp split: prod.split)

lemma full_resume:
  "0 < n \<Longrightarrow> fst (batches n [] (drop (length (concat (take k (fst (batches n [] xs))))) xs))
     = drop k (fst (batches n [] xs))"
proof (induction k arbitrary: xs)
  case (Suc k)
  show ?case
  proof (cases "length xs < n")
    case False
    let ?c = "concat (take k (fst (batches n [] (drop n xs))))"
    have "take (Suc k) (fst (batches n [] xs)) = take n xs # take k (fst (batches n [] (drop n xs)))"
      using Suc.prems False by (subst full_unroll) simp_all
    then have "drop (length (concat (take (Suc k) (fst (batches n [] xs))))) xs = drop (length ?c) (drop n xs)"
      using False by (simp add: add.commute min_def)
    moreover have "drop (Suc k) (fst (batches n [] xs)) = drop k (fst (batches n [] (drop n xs)))"
      using Suc.prems False by (subst full_unroll) simp_all
    ultimately show ?thesis using Suc.IH [OF Suc.prems, of "drop n xs"] by simp
  qed (use Suc.prems in \<open>simp add: full_unroll\<close>)
qed simp

lemma full_bounds: "0 < n \<Longrightarrow> b \<in> set (fst (batches n [] xs)) \<Longrightarrow> b \<noteq> []"
proof (induction xs rule: flushed_induct)
  case (Step xs)
  then show ?case
    by (cases "length xs < n") (auto simp: full_unroll [of n xs])
qed simp

lemma concat_full: "0 < n \<Longrightarrow> \<exists>rest. xs = concat (fst (batches n [] xs)) @ rest"
proof (induction xs rule: flushed_induct)
  case (Step xs)
  then obtain rest where "drop n xs = concat (fst (batches n [] (drop n xs))) @ rest" by blast
  then have "length xs \<ge> n \<Longrightarrow> xs = take n xs @ concat (fst (batches n [] (drop n xs))) @ rest"
    by (metis append_take_drop_id)
  with Step.hyps(1) show ?case
    by (cases "length xs < n") (auto simp: full_unroll [of n xs])
qed simp

section \<open>Running maxima and stable sorting\<close>

lemma fold_max_mono: "fold max ns (n::'a::linorder) \<le> m \<longleftrightarrow> n \<le> m \<and> (\<forall>x \<in> set ns. x \<le> m)"
  by (induction ns arbitrary: n) (auto simp: max_def)

lemma fold_max_upper: "n \<le> fold max ns n" "x \<in> set ns \<Longrightarrow> x \<le> fold max ns (n::'a::linorder)"
  using fold_max_mono [of ns n "fold max ns n"] by auto

lemma insort_key_snoc: "f y \<le> f x \<Longrightarrow> insort_key f y (zs @ [x]) = insort_key f y zs @ [x]"
  by (induction zs) auto

lemma sort_key_snoc: "\<forall>y \<in> set xs. f y \<le> f x \<Longrightarrow> sort_key f (xs @ [x]) = sort_key f xs @ [x]"
  by (induction xs) (simp_all add: insort_key_snoc)

section \<open>Work that survives interruption\<close>

text \<open>
  Work in units, each a few durable operations: \<open>good k\<close> says that a state holds the effect of
  the first \<open>k\<close> units. If an interrupted unit leaves a good state and a finished one the next
  good state, then so does the whole of the work that is left.
\<close>

locale resumable =
  fixes apply_op :: "'o \<Rightarrow> 'w \<Rightarrow> 'w"
    and unit_ops :: "nat \<Rightarrow> 'o list"
    and good :: "nat \<Rightarrow> 'w \<Rightarrow> bool"
    and total :: nat
  assumes interrupted: "good k w \<Longrightarrow> k < total \<Longrightarrow> m < length (unit_ops k) \<Longrightarrow>
      \<exists>k'. good k' (fold apply_op (take m (unit_ops k)) w)"
    and finished: "good k w \<Longrightarrow> k < total \<Longrightarrow> good (Suc k) (fold apply_op (unit_ops k) w)"
    and bounded: "good k w \<Longrightarrow> k \<le> total"
begin

definition remaining :: "nat \<Rightarrow> 'o list" where
  "remaining k = concat (map unit_ops [k ..< total])"

lemma remaining_unroll: "k < total \<Longrightarrow> remaining k = unit_ops k @ remaining (Suc k)"
  by (simp add: remaining_def upt_conv_Cons)

lemma remaining_end [simp]: "remaining total = []"
  by (simp add: remaining_def)

lemma completes: "good k w \<Longrightarrow> good total (fold apply_op (remaining k) w)"
proof (induction "total - k" arbitrary: k w)
  case 0
  then have "k = total" using bounded [of k w] by simp
  with 0 show ?case by simp
next
  case (Suc n)
  then have k: "k < total" "n = total - Suc k" by simp_all
  from Suc.hyps(1) [OF k(2) finished [OF Suc.prems k(1)]] show ?case
    by (simp add: remaining_unroll [OF k(1)])
qed

lemma survives: "good k w \<Longrightarrow> \<exists>k'. good k' (fold apply_op (take m (remaining k)) w)"
proof (induction "total - k" arbitrary: k w m)
  case 0
  then have "k = total" using bounded [of k w] by simp
  with 0 show ?case by auto
next
  case (Suc n)
  then have k: "k < total" "n = total - Suc k" by simp_all
  show ?case
  proof (cases "m < length (unit_ops k)")
    case True
    with interrupted [OF Suc.prems k(1)] show ?thesis by (simp add: remaining_unroll [OF k(1)])
  next
    case False
    with Suc.hyps(1) [OF k(2) finished [OF Suc.prems k(1)]] show ?thesis
      by (simp add: remaining_unroll [OF k(1)])
  qed
qed

end

end
