(* ===== verification/BulkQuery.thy ===== *)
theory BulkQuery
  imports QueryService StateStore Batches
begin

text \<open>
  \<open>fakeforce/bulk/query.py\<close>: the worker that streams a query into CSV parts. A run is the
  sequence of durable operations it performs on the job's directory and on the state store;
  each publication of a file is one operation (\<open>Storage\<close> shows that the atomic writer
  makes it one). \<open>fault\<close> says after how many of them the environment raises an exception
  in the worker, or kills the process. DuckDB is the argument \<open>exec\<close> (column names and
  rows of a statement), \<open>show_cell\<close> is the text the CSV writer gives a value,
  \<open>sha\<close> the digest. The manifest's JSON is kept as the value it encodes.
\<close>

section \<open>Directories of results\<close>

record bulk_part =
  bp_part :: nat
  bp_path :: string
  bp_start_record :: int
  bp_end_record :: int
  bp_record_count :: int
  bp_byte_size :: int
  bp_checksum :: string

record out_dir =
  od_manifest :: "bulk_part list option"
  od_files :: "(string, string) dict"

definition empty_dir :: out_dir where
  "empty_dir = \<lparr>od_manifest = None, od_files = []\<rparr>"

type_synonym out_dirs = "path \<Rightarrow> out_dir option"

record bulk_world =
  bw_store :: store
  bw_dirs :: out_dirs

definition dir_at :: "path \<Rightarrow> out_dirs \<Rightarrow> out_dir" where
  "dir_at d ds = (case ds d of None \<Rightarrow> empty_dir | Some od \<Rightarrow> od)"

definition manifest_parts :: "out_dir \<Rightarrow> bulk_part list" where
  "manifest_parts od = (case od_manifest od of None \<Rightarrow> [] | Some ps \<Rightarrow> ps)"

section \<open>Operations of a run\<close>

datatype bulk_op =
  MakeDir
| UnlinkPart string
| PublishPart string string
| PublishManifest "bulk_part list"
| Checkpoint int int string

fun bulk_apply :: "timestamp \<Rightarrow> path \<Rightarrow> string \<Rightarrow> bulk_op \<Rightarrow> bulk_world \<Rightarrow> bulk_world" where
  "bulk_apply now d job_id MakeDir w = w\<lparr>bw_dirs := (bw_dirs w)(d := Some (dir_at d (bw_dirs w)))\<rparr>"
| "bulk_apply now d job_id (UnlinkPart n) w = (let od = dir_at d (bw_dirs w) in
     w\<lparr>bw_dirs := (bw_dirs w)(d := Some (od\<lparr>od_files := AList.delete n (od_files od)\<rparr>))\<rparr>)"
| "bulk_apply now d job_id (PublishPart n t) w = (let od = dir_at d (bw_dirs w) in
     w\<lparr>bw_dirs := (bw_dirs w)(d := Some (od\<lparr>od_files := dict_set n t (od_files od)\<rparr>))\<rparr>)"
| "bulk_apply now d job_id (PublishManifest ps) w = (let od = dir_at d (bw_dirs w) in
     w\<lparr>bw_dirs := (bw_dirs w)(d := Some (od\<lparr>od_manifest := Some ps\<rparr>))\<rparr>)"
| "bulk_apply now d job_id (Checkpoint n b p) w =
     w\<lparr>bw_store := snd (add_job_checkpoint now job_id n b (Some p) 0 None (bw_store w))\<rparr>"

definition bulk_exec :: "timestamp \<Rightarrow> path \<Rightarrow> string \<Rightarrow> bulk_op list \<Rightarrow> bulk_world \<Rightarrow> bulk_world" where
  "bulk_exec now d job_id ops = fold (bulk_apply now d job_id) ops"

section \<open>Streaming\<close>

datatype bulk_error =
  BulkNoJob string
| BulkNotReady string
| BulkPlanFailed query_error
| BulkPartMissing string
| BulkCheckpointAhead
| BulkInterrupted
| BulkStore store_error

record bulk_result =
  br_job_id :: string
  br_records_processed :: int
  br_parts_written :: nat

record bulk_env =
  be_exec :: "string \<Rightarrow> literal list \<Rightarrow> string list \<times> sql_value list list"
  be_show_cell :: "sql_value \<Rightarrow> string"
  be_sha :: "string \<Rightarrow> string"
  be_catalog :: catalog
  be_results_directory :: path
  be_part_records :: nat

definition part_name :: "nat \<Rightarrow> string" where
  "part_name n = ''part-'' @ zero_pad 5 (int n) @ ''.csv''"

definition is_part_file :: "string \<Rightarrow> bool" where
  "is_part_file n \<longleftrightarrow> starts_with n ''part-'' \<and> ends_with n ''.csv''"

definition load_manifest :: "out_dir \<Rightarrow> bulk_error + bulk_part list" where
  "load_manifest od =
     (case filter (\<lambda>p. map_of (od_files od) (bp_path p) = None) (manifest_parts od) of
        [] \<Rightarrow> Ok (manifest_parts od)
      | p # _ \<Rightarrow> Err (BulkPartMissing (bp_path p)))"

definition discard_uncommitted :: "out_dir \<Rightarrow> bulk_part list \<Rightarrow> bulk_op list" where
  "discard_uncommitted od parts =
     map UnlinkPart (filter (\<lambda>n. is_part_file n \<and> n \<notin> set (map bp_path parts)) (map fst (od_files od)))"

definition part_text :: "bulk_env \<Rightarrow> string list \<Rightarrow> sql_value list list \<Rightarrow> string" where
  "part_text env cols rows = csv_text (cols # map (map (be_show_cell env)) rows)"

definition make_part ::
  "bulk_env \<Rightarrow> nat \<Rightarrow> string list \<Rightarrow> sql_value list list \<Rightarrow> int \<Rightarrow> bulk_part" where
  "make_part env n cols rows start =
     (let data = part_text env cols rows in
      \<lparr>bp_part = n, bp_path = part_name n, bp_start_record = start,
       bp_end_record = start + int (length rows) - 1, bp_record_count = int (length rows),
       bp_byte_size = int (length data), bp_checksum = be_sha env data\<rparr>)"

text \<open>The variables of the row loop, with the operations performed so far.\<close>

record part_loop =
  pl_part_number :: nat
  pl_processed :: int
  pl_manifest :: "bulk_part list"
  pl_written :: nat
  pl_ops :: "bulk_op list"

definition write_part ::
  "bulk_env \<Rightarrow> path \<Rightarrow> string list \<Rightarrow> sql_value list list \<Rightarrow> part_loop \<Rightarrow> part_loop" where
  "write_part env d cols rows s =
     (let part = make_part env (pl_part_number s) cols rows (pl_processed s);
          processed = pl_processed s + int (length rows);
          manifest = pl_manifest s @ [part] in
      \<lparr>pl_part_number = pl_part_number s + 1, pl_processed = processed, pl_manifest = manifest,
       pl_written = pl_written s + 1,
       pl_ops = pl_ops s @
         [PublishPart (bp_path part) (part_text env cols rows), PublishManifest manifest,
          Checkpoint processed (bp_byte_size part) (path_str (d @ [bp_path part]))]\<rparr>)"

definition execution_sql :: "query_plan \<Rightarrow> string" where
  "execution_sql p =
     qp_source_sql p
     @ (if qp_has_order_by p then [] else '' ORDER BY '' @ quote_identifier internal_id_field)
     @ drop (length (qp_source_sql p)) (qp_sql p)"

definition public_indexes :: "string list \<Rightarrow> nat list" where
  "public_indexes cols = filter (\<lambda>i. cols ! i \<noteq> internal_id_field) [0 ..< length cols]"

definition job_dir :: "bulk_env \<Rightarrow> string \<Rightarrow> path" where
  "job_dir env job_id = be_results_directory env @ [job_id]"

definition next_part_number :: "bulk_part list \<Rightarrow> nat" where
  "next_part_number parts = (case map bp_part parts of [] \<Rightarrow> 0 | n # ns \<Rightarrow> fold max ns n + 1)"

definition stream_start :: "bulk_part list \<Rightarrow> part_loop" where
  "stream_start parts =
     \<lparr>pl_part_number = next_part_number parts, pl_processed = sum_list (map bp_record_count parts),
      pl_manifest = parts, pl_written = 0, pl_ops = []\<rparr>"

definition public_rows :: "bulk_env \<Rightarrow> query_plan \<Rightarrow> string list \<times> sql_value list list" where
  "public_rows env p =
     (case be_exec env (execution_sql p) (qp_parameters p) of
        (cols, rows) \<Rightarrow>
          (map ((!) cols) (public_indexes cols), map (\<lambda>r. map ((!) r) (public_indexes cols)) rows))"

definition stream_parts ::
  "bulk_env \<Rightarrow> path \<Rightarrow> query_plan \<Rightarrow> bulk_part list \<Rightarrow> part_loop" where
  "stream_parts env d p parts =
     (case public_rows env p of
        (cols, rows) \<Rightarrow>
          fold (write_part env d cols)
            (flushed (be_part_records env) (drop (nat (sum_list (map bp_record_count parts))) rows))
            (stream_start parts))"

text \<open>What \<open>_stream\<close> does from a state: its operations up to the end or to the exception
  it raises itself.\<close>

definition bulk_stream ::
  "bulk_env \<Rightarrow> string \<Rightarrow> string \<Rightarrow> bulk_world \<Rightarrow> bulk_op list \<times> (bulk_error + bulk_result)" where
  "bulk_stream env job_id query w =
     (case plan (be_catalog env) query False of
        Err e \<Rightarrow> ([], Err (BulkPlanFailed e))
      | Ok p \<Rightarrow>
          (let d = job_dir env job_id; od = dir_at d (bw_dirs w) in
           case load_manifest od of
             Err e \<Rightarrow> ([MakeDir], Err e)
           | Ok parts \<Rightarrow>
               (let opening = MakeDir # discard_uncommitted od parts in
                if latest_job_checkpoint_records job_id (bw_store w) > sum_list (map bp_record_count parts)
                then (opening, Err BulkCheckpointAhead)
                else (let s = stream_parts env d p parts in
                      (opening @ pl_ops s,
                       Ok \<lparr>br_job_id = job_id, br_records_processed = pl_processed s,
                           br_parts_written = pl_written s\<rparr>)))))"

section \<open>Running a job\<close>

datatype fault = NoFault | RaisesAfter nat | KilledAfter nat

datatype run_end = Returned bulk_result | Raised bulk_error | Killed

definition finish_job ::
  "timestamp \<Rightarrow> string \<Rightarrow> bulk_job_state \<Rightarrow> string option \<Rightarrow> string option \<Rightarrow> run_end \<Rightarrow> bulk_world
   \<Rightarrow> run_end \<times> bulk_world" where
  "finish_job now job_id st code msg ending w =
     (case transition_job now job_id st code msg (bw_store w) of
        (Err e, t) \<Rightarrow> (Raised (BulkStore e), w\<lparr>bw_store := t\<rparr>)
      | (Ok _, t) \<Rightarrow> (ending, w\<lparr>bw_store := t\<rparr>))"

definition fail_job :: "timestamp \<Rightarrow> string \<Rightarrow> bulk_error \<Rightarrow> bulk_world \<Rightarrow> run_end \<times> bulk_world" where
  "fail_job now job_id e w =
     finish_job now job_id FAILED (Some ''BULK_PROCESSING_ERROR'') (Some ''Bulk query processing failed'')
       (Raised e) w"

definition bulk_stream_run ::
  "timestamp \<Rightarrow> bulk_env \<Rightarrow> fault \<Rightarrow> string \<Rightarrow> string \<Rightarrow> bulk_world \<Rightarrow> run_end \<times> bulk_world" where
  "bulk_stream_run now env flt job_id query w =
     (case bulk_stream env job_id query w of
        (ops, outcome) \<Rightarrow>
          (let done_by = (\<lambda>k. bulk_exec now (job_dir env job_id) job_id (take k ops) w) in
           case flt of
             KilledAfter k \<Rightarrow> (Killed, done_by k)
           | RaisesAfter k \<Rightarrow> fail_job now job_id BulkInterrupted (done_by k)
           | NoFault \<Rightarrow>
               (case outcome of
                  Err e \<Rightarrow> fail_job now job_id e (done_by (length ops))
                | Ok r \<Rightarrow> finish_job now job_id JOB_COMPLETE None None (Returned r) (done_by (length ops)))))"

definition bulk_run ::
  "timestamp \<Rightarrow> bulk_env \<Rightarrow> fault \<Rightarrow> string \<Rightarrow> bulk_world \<Rightarrow> run_end \<times> bulk_world" where
  "bulk_run now env flt job_id w =
     (case get_job now job_id (bw_store w) of
        None \<Rightarrow> (Raised (BulkNoJob job_id), w)
      | Some job \<Rightarrow>
          (case bj_query_text job of
             None \<Rightarrow> (Raised (BulkNoJob job_id), w)
           | Some query \<Rightarrow>
               if bj_type job \<noteq> QUERY then (Raised (BulkNoJob job_id), w)
               else if bj_state job = UPLOAD_COMPLETE then
                 (case transition_job now job_id IN_PROGRESS None None (bw_store w) of
                    (Err e, t) \<Rightarrow> (Raised (BulkStore e), w\<lparr>bw_store := t\<rparr>)
                  | (Ok _, t) \<Rightarrow> bulk_stream_run now env flt job_id query (w\<lparr>bw_store := t\<rparr>))
               else if bj_state job \<noteq> IN_PROGRESS then (Raised (BulkNotReady job_id), w)
               else bulk_stream_run now env flt job_id query w))"

end
