(* ===== verification/JobControl.thy ===== *)
theory JobControl
  imports StateStoreProps
begin

text \<open>
  What the bulk workers and handlers rely on when they drive a job through the state store: a
  stored, unexpired job is found, and every transition its state allows succeeds and is seen
  by the next lookup.
\<close>

text \<open>The row of a stored job of one type, query and expiry, in a given state.\<close>

definition stored_job ::
  "string \<Rightarrow> bulk_job_type \<Rightarrow> string option \<Rightarrow> string option \<Rightarrow> timestamp option \<Rightarrow> bulk_job_state \<Rightarrow> store \<Rightarrow> bool" where
  "stored_job j t ob q e st s \<longleftrightarrow> distinct (map jr_id (st_jobs s))
     \<and> (\<exists>r. lookup_by jr_id j (st_jobs s) = Some r \<and> jr_type r = t \<and> jr_object_name r = ob
          \<and> jr_query_text r = q \<and> jr_expires_at r = e \<and> jr_state r = st)"

definition unexpired :: "timestamp option \<Rightarrow> timestamp \<Rightarrow> bool" where
  "unexpired e now \<longleftrightarrow> (case e of None \<Rightarrow> True | Some t \<Rightarrow> t > now)"

lemma job_live_unexpired: "job_live now r = unexpired (jr_expires_at r) now"
  by (simp add: job_live_def unexpired_def)

lemma get_job_lookup:
  assumes "distinct (map jr_id (st_jobs s))" "lookup_by jr_id j (st_jobs s) = Some r" "job_live now r"
  shows "get_job now j s = Some (job_of_row r)"
proof -
  have "r \<in> set (st_jobs s)" "jr_id r = j" using assms(2) by (auto dest: lookup_by_Some)
  then have "first_opt (filter (\<lambda>x. jr_id x = j \<and> job_live now x) (st_jobs s)) = Some r"
    using first_opt_filter_unique [OF assms(1), of r "job_live now"] assms(3) by simp
  then show ?thesis by (simp add: get_job_def)
qed

lemma stored_job_get:
  assumes "stored_job j t ob q e st s" "unexpired e now"
  shows "\<exists>job. get_job now j s = Some job \<and> bj_type job = t \<and> bj_object_name job = ob
     \<and> bj_query_text job = q \<and> bj_state job = st"
proof -
  from assms(1) obtain r where r: "distinct (map jr_id (st_jobs s))" "lookup_by jr_id j (st_jobs s) = Some r"
    and f: "jr_type r = t" "jr_object_name r = ob" "jr_query_text r = q" "jr_expires_at r = e" "jr_state r = st"
    by (auto simp: stored_job_def)
  have "get_job now j s = Some (job_of_row r)"
    using get_job_lookup [OF r] f(4) assms(2) by (simp add: job_live_unexpired)
  then show ?thesis using f by (simp add: job_of_row_def)
qed

lemma stored_job_set:
  assumes "stored_job j t ob q e st s"
  shows "stored_job j t ob q e st' (set_job_state now j st' ec em s)"
proof -
  from assms obtain r where r: "lookup_by jr_id j (st_jobs s) = Some r" and "jr_id r = j"
    by (auto simp: stored_job_def dest: lookup_by_Some)
  then have "lookup_by jr_id j (st_jobs (set_job_state now j st' ec em s)) =
      Some (r\<lparr>jr_state := st', jr_error_code := ec, jr_error_message := em, jr_updated_at := now\<rparr>)"
    by (simp add: lookup_set_job_state)
  with assms r show ?thesis by (simp add: stored_job_def)
qed

lemma stored_job_transition:
  assumes "stored_job j t ob q e st s" "unexpired e now" "job_step st st'"
  shows "\<exists>job. transition_job now j st' ec em s = (Ok job, set_job_state now j st' ec em s)"
proof -
  from assms(1) obtain r where r: "lookup_by jr_id j (st_jobs s) = Some r" "jr_state r = st"
    by (auto simp: stored_job_def)
  obtain job where "get_job now j (set_job_state now j st' ec em s) = Some job"
    using stored_job_get [OF stored_job_set [OF assms(1)] assms(2)] by blast
  with r assms(3) show ?thesis by (simp add: transition_job_eq Let_def)
qed

end
