(* ===== verification/BulkQueryProps.thy ===== *)
theory BulkQueryProps
  imports BulkQuery JobControl QueryServiceProps
begin

text \<open>
  The bulk query worker: whatever kills it and however often, a later run resumes at the
  first record that is not in a committed part, and the parts it leaves are those of a single
  uninterrupted run.
\<close>

section \<open>The parts of a result\<close>

definition chunk_rows :: "'a list list \<Rightarrow> nat \<Rightarrow> int" where
  "chunk_rows C i = int (length (concat (take i C)))"

definition part_at :: "bulk_env \<Rightarrow> string list \<Rightarrow> sql_value list list list \<Rightarrow> nat \<Rightarrow> bulk_part" where
  "part_at env cols C i = make_part env i cols (C ! i) (chunk_rows C i)"

definition ops_at :: "bulk_env \<Rightarrow> path \<Rightarrow> string list \<Rightarrow> sql_value list list list \<Rightarrow> nat \<Rightarrow> bulk_op list" where
  "ops_at env d cols C i =
     [PublishPart (part_name i) (part_text env cols (C ! i)),
      PublishManifest (map (part_at env cols C) [0 ..< Suc i]),
      Checkpoint (chunk_rows C (Suc i)) (bp_byte_size (part_at env cols C i))
        (path_str (d @ [part_name i]))]"

lemma chunk_rows_Suc: "i < length C \<Longrightarrow> chunk_rows C (Suc i) = chunk_rows C i + int (length (C ! i))"
  by (simp add: chunk_rows_def concat_take_Suc)

lemma make_part_simps [simp]:
  "bp_part (make_part env n cols rows st) = n" "bp_path (make_part env n cols rows st) = part_name n"
  "bp_record_count (make_part env n cols rows st) = int (length rows)"
  "bp_start_record (make_part env n cols rows st) = st"
  by (simp_all add: make_part_def Let_def)

lemma part_at_simps [simp]:
  "bp_part (part_at env cols C i) = i" "bp_path (part_at env cols C i) = part_name i"
  "bp_record_count (part_at env cols C i) = int (length (C ! i))"
  "bp_start_record (part_at env cols C i) = chunk_rows C i"
  by (simp_all add: part_at_def)

lemma sum_counts: "k \<le> length C \<Longrightarrow> sum_list (map (bp_record_count \<circ> part_at env cols C) [0 ..< k]) = chunk_rows C k"
  by (induction k) (simp_all add: chunk_rows_Suc chunk_rows_def [of C 0])

lemma fold_max_from: "fold max (map f [Suc m ..< Suc m + n]) (f m) = f (m + n)"
  if "\<And>i j. i \<le> j \<Longrightarrow> f i \<le> f j" for f :: "nat \<Rightarrow> nat"
proof (induction n)
  case (Suc n)
  then show ?case using that [of "m + n" "Suc (m + n)"] by (simp add: max_def)
qed simp

lemma next_part_number_at: "next_part_number (map (part_at env cols C) [0 ..< k]) = k"
proof (cases k)
  case (Suc n)
  have "map (bp_part \<circ> part_at env cols C) [0 ..< k] = 0 # map id [Suc 0 ..< Suc 0 + n]"
    using Suc by (simp add: upt_conv_Cons comp_def del: upt_Suc)
  then show ?thesis
    using fold_max_from [of id 0 n] Suc by (simp add: next_part_number_def del: upt_Suc)
qed (simp add: next_part_number_def)

lemma fold_write_part:
  assumes "k \<le> length C"
  shows "fold (write_part env d cols) (drop k C)
      \<lparr>pl_part_number = k, pl_processed = chunk_rows C k, pl_manifest = map (part_at env cols C) [0 ..< k],
       pl_written = n, pl_ops = ops\<rparr>
    = \<lparr>pl_part_number = length C, pl_processed = chunk_rows C (length C),
       pl_manifest = map (part_at env cols C) [0 ..< length C], pl_written = n + (length C - k),
       pl_ops = ops @ concat (map (ops_at env d cols C) [k ..< length C])\<rparr>"
  using assms
proof (induction "length C - k" arbitrary: k n ops)
  case (Suc m)
  then have k: "k < length C" by simp
  then have drop: "drop k C = C ! k # drop (Suc k) C" by (simp add: Cons_nth_drop_Suc)
  have step: "write_part env d cols (C ! k)
      \<lparr>pl_part_number = k, pl_processed = chunk_rows C k, pl_manifest = map (part_at env cols C) [0 ..< k],
       pl_written = n, pl_ops = ops\<rparr>
    = \<lparr>pl_part_number = Suc k, pl_processed = chunk_rows C (Suc k),
       pl_manifest = map (part_at env cols C) [0 ..< Suc k], pl_written = Suc n,
       pl_ops = ops @ ops_at env d cols C k\<rparr>"
    using k by (simp add: write_part_def Let_def chunk_rows_Suc ops_at_def part_at_def)
  have "fold (write_part env d cols) (drop (Suc k) C)
      \<lparr>pl_part_number = Suc k, pl_processed = chunk_rows C (Suc k),
       pl_manifest = map (part_at env cols C) [0 ..< Suc k], pl_written = Suc n,
       pl_ops = ops @ ops_at env d cols C k\<rparr>
    = \<lparr>pl_part_number = length C, pl_processed = chunk_rows C (length C),
       pl_manifest = map (part_at env cols C) [0 ..< length C], pl_written = Suc n + (length C - Suc k),
       pl_ops = (ops @ ops_at env d cols C k) @ concat (map (ops_at env d cols C) [Suc k ..< length C])\<rparr>"
    by (rule Suc.hyps(1)) (use Suc.hyps(2) k in auto)
  moreover have "[k ..< length C] = k # [Suc k ..< length C]" using k by (simp add: upt_conv_Cons)
  ultimately show ?case using k by (simp add: drop step)
qed simp

lemma part_name_inj: "part_name i = part_name j \<longleftrightarrow> i = j"
proof
  assume "part_name i = part_name j"
  then have "zero_pad 5 (int i) = zero_pad 5 (int j)" by (simp add: part_name_def)
  moreover have "digits_val (zero_pad 5 (int n)) = n" for n
    by (simp add: zero_pad_def digits_val_zeros)
  ultimately show "i = j" by metis
qed simp

section \<open>The invariant of interrupted runs\<close>

definition committed ::
  "bulk_env \<Rightarrow> path \<Rightarrow> string \<Rightarrow> string list \<Rightarrow> sql_value list list list \<Rightarrow> nat \<Rightarrow> bulk_world \<Rightarrow> bool" where
  "committed env d job_id cols C k w \<longleftrightarrow> k \<le> length C
     \<and> od_manifest (dir_at d (bw_dirs w)) = (if k = 0 then None else Some (map (part_at env cols C) [0 ..< k]))
     \<and> (\<forall>i < k. map_of (od_files (dir_at d (bw_dirs w))) (part_name i) = Some (part_text env cols (C ! i)))
     \<and> latest_job_checkpoint_records job_id (bw_store w) \<le> chunk_rows C k"

lemma committed_parts:
  "committed env d job_id cols C k w \<Longrightarrow> manifest_parts (dir_at d (bw_dirs w)) = map (part_at env cols C) [0 ..< k]"
  by (simp add: committed_def manifest_parts_def)

lemma dir_at_upd [simp]: "dir_at d (ds(d := Some od)) = od"
  by (simp add: dir_at_def)

lemma latest_le_iff:
  "latest_job_checkpoint_records j s \<le> m \<longleftrightarrow>
     (if filter (\<lambda>c. cp_job_id c = j) (st_checkpoints s) = [] then 0 \<le> m
      else \<forall>c \<in> set (st_checkpoints s). cp_job_id c = j \<longrightarrow> cp_processed c \<le> m)"
proof (cases "filter (\<lambda>c. cp_job_id c = j) (st_checkpoints s)")
  case (Cons c cs)
  then have "set (c # cs) = {c \<in> set (st_checkpoints s). cp_job_id c = j}" by (metis set_filter)
  then have "(\<forall>c \<in> set (st_checkpoints s). cp_job_id c = j \<longrightarrow> cp_processed c \<le> m)
      \<longleftrightarrow> (\<forall>x \<in> set (c # cs). cp_processed x \<le> m)" by auto
  with Cons show ?thesis by (simp add: latest_job_checkpoint_records_def fold_max_mono)
qed (simp add: latest_job_checkpoint_records_def)

lemma latest_after_checkpoint:
  assumes "latest_job_checkpoint_records j s \<le> a" "a \<le> m" "0 \<le> m" "n \<le> m"
  shows "latest_job_checkpoint_records j (snd (add_job_checkpoint now j n b p f r s)) \<le> m"
  using assms by (auto simp: latest_le_iff add_job_checkpoint_def emodify_def filter_empty_conv split: if_splits)

lemma chunk_rows_bounds: "0 \<le> chunk_rows C i" "i \<le> j \<Longrightarrow> chunk_rows C i \<le> chunk_rows C j"
proof -
  show "0 \<le> chunk_rows C i" by (simp add: chunk_rows_def)
  assume "i \<le> j"
  then obtain n where "j = i + n" by (auto simp: le_iff_add)
  then have "concat (take j C) = concat (take i C) @ concat (take n (drop i C))" by (simp add: take_add)
  then show "chunk_rows C i \<le> chunk_rows C j" by (simp add: chunk_rows_def)
qed

lemma committed_opening:
  "committed env d j cols C k w \<Longrightarrow> committed env d j cols C k (bulk_apply now d j MakeDir w)"
  "committed env d j cols C k w \<Longrightarrow> \<forall>i < k. part_name i \<noteq> n \<Longrightarrow>
     committed env d j cols C k (bulk_apply now d j (UnlinkPart n) w)"
  by (simp_all add: committed_def Let_def manifest_parts_def delete_conv')

lemma committed_publish:
  assumes "committed env d j cols C k w" "k \<le> i"
  shows "committed env d j cols C k (bulk_apply now d j (PublishPart (part_name i) t) w)"
  using assms by (auto simp: committed_def Let_def manifest_parts_def update_conv' part_name_inj)

lemma committed_manifest:
  assumes "committed env d j cols C k w" "k < length C"
    "map_of (od_files (dir_at d (bw_dirs w))) (part_name k) = Some (part_text env cols (C ! k))"
  shows "committed env d j cols C (Suc k)
     (bulk_apply now d j (PublishManifest (map (part_at env cols C) [0 ..< Suc k])) w)"
  using assms chunk_rows_bounds(2) [of k "Suc k" C]
  by (auto simp: committed_def Let_def less_Suc_eq simp del: upt_Suc)

lemma committed_checkpoint:
  assumes "committed env d j cols C k w"
  shows "committed env d j cols C k (bulk_apply now d j (Checkpoint (chunk_rows C k) b p) w)"
proof -
  have "latest_job_checkpoint_records j (bw_store w) \<le> chunk_rows C k" using assms by (simp add: committed_def)
  from latest_after_checkpoint [OF this order.refl chunk_rows_bounds(1) order.refl] assms
  show ?thesis by (auto simp: committed_def)
qed

lemma bulk_exec_simps [simp]:
  "bulk_exec now d j [] w = w"
  "bulk_exec now d j (x # xs) w = bulk_exec now d j xs (bulk_apply now d j x w)"
  "bulk_exec now d j (xs @ ys) w = bulk_exec now d j ys (bulk_exec now d j xs w)"
  by (simp_all add: bulk_exec_def)

lemma less_3_cases: "m < (3::nat) \<Longrightarrow> m = 0 \<or> m = Suc 0 \<or> m = Suc (Suc 0)"
  by linarith

lemma committed_step:
  assumes "committed env d j cols C k w" "k < length C"
  shows "committed env d j cols C k (bulk_exec now d j (take (Suc 0) (ops_at env d cols C k)) w)"
    "committed env d j cols C (Suc k) (bulk_exec now d j (take (Suc (Suc 0)) (ops_at env d cols C k)) w)"
    "committed env d j cols C (Suc k) (bulk_exec now d j (ops_at env d cols C k) w)"
proof -
  let ?w1 = "bulk_apply now d j (PublishPart (part_name k) (part_text env cols (C ! k))) w"
  have w1: "committed env d j cols C k ?w1" by (rule committed_publish [OF assms(1)]) simp
  have "map_of (od_files (dir_at d (bw_dirs ?w1))) (part_name k) = Some (part_text env cols (C ! k))"
    by (simp add: Let_def update_conv')
  note w2 = committed_manifest [OF w1 assms(2) this, of now]
  note w3 = committed_checkpoint [OF w2, of now]
  show "committed env d j cols C k (bulk_exec now d j (take (Suc 0) (ops_at env d cols C k)) w)"
    using w1 by (simp add: ops_at_def del: bulk_apply.simps)
  show "committed env d j cols C (Suc k) (bulk_exec now d j (take (Suc (Suc 0)) (ops_at env d cols C k)) w)"
    using w2 by (simp add: ops_at_def del: bulk_apply.simps upt_Suc)
  show "committed env d j cols C (Suc k) (bulk_exec now d j (ops_at env d cols C k) w)"
    using w3 by (simp add: ops_at_def del: bulk_apply.simps upt_Suc)
qed

lemma committed_discard:
  assumes "committed env d j cols C k w" "\<forall>n \<in> set ns. \<forall>i < k. part_name i \<noteq> n"
  shows "committed env d j cols C k (bulk_exec now d j (map UnlinkPart ns) w)"
  using assms
proof (induction ns arbitrary: w)
  case (Cons n ns)
  have "committed env d j cols C k (bulk_apply now d j (UnlinkPart n) w)"
    by (rule committed_opening(2) [OF Cons.prems(1)]) (use Cons.prems(2) in auto)
  with Cons show ?case by (simp del: bulk_apply.simps)
qed simp

interpretation parts: resumable "bulk_apply now d j" "ops_at env d cols C" "committed env d j cols C" "length C"
  for now d j env cols C
proof unfold_locales
  fix k w m
  assume c: "committed env d j cols C k w" "k < length C"
  then show "committed env d j cols C (Suc k) (fold (bulk_apply now d j) (ops_at env d cols C k) w)"
    using committed_step(3) [OF c, of now] by (simp add: bulk_exec_def)
  assume "m < length (ops_at env d cols C k)"
  then have "m = 0 \<or> m = Suc 0 \<or> m = Suc (Suc 0)" by (intro less_3_cases) (simp add: ops_at_def)
  then show "\<exists>k'. committed env d j cols C k' (fold (bulk_apply now d j) (take m (ops_at env d cols C k)) w)"
    using c(1) committed_step(1,2) [OF c, of now, unfolded bulk_exec_def] by (elim disjE) (auto simp del: take_Suc)
qed (simp add: committed_def)

section \<open>One run\<close>

lemma load_committed:
  "committed env d j cols C k w \<Longrightarrow>
   load_manifest (dir_at d (bw_dirs w)) = Ok (map (part_at env cols C) [0 ..< k])"
  using committed_parts [of env d j cols C k w]
  by (auto simp: load_manifest_def committed_def filter_empty_conv split: list.split)

lemma stream_committed:
  assumes p: "plan (be_catalog env) q False = Ok p" "public_rows env p = (cols, rows)"
    and lim: "0 < be_part_records env" and C: "C = flushed (be_part_records env) rows"
    and c: "committed env (job_dir env j) j cols C k w"
  shows "bulk_stream env j q w =
     (MakeDir # discard_uncommitted (dir_at (job_dir env j) (bw_dirs w)) (map (part_at env cols C) [0 ..< k])
        @ parts.remaining env (job_dir env j) cols C k,
      Ok \<lparr>br_job_id = j, br_records_processed = int (length rows), br_parts_written = length C - k\<rparr>)"
proof -
  have k: "k \<le> length C" and latest: "latest_job_checkpoint_records j (bw_store w) \<le> chunk_rows C k"
    using c by (simp_all add: committed_def)
  have counts: "sum_list (map bp_record_count (map (part_at env cols C) [0 ..< k])) = chunk_rows C k"
    using sum_counts [OF k] by simp
  have rest: "flushed (be_part_records env) (drop (nat (chunk_rows C k)) rows) = drop k C"
    using flushed_resume [OF lim, of k rows] by (simp add: C chunk_rows_def)
  have all: "chunk_rows C (length C) = int (length rows)"
    using concat_flushed [OF lim, of rows] by (simp add: C chunk_rows_def)
  have "stream_parts env (job_dir env j) p (map (part_at env cols C) [0 ..< k])
    = \<lparr>pl_part_number = length C, pl_processed = int (length rows),
       pl_manifest = map (part_at env cols C) [0 ..< length C], pl_written = length C - k,
       pl_ops = parts.remaining env (job_dir env j) cols C k\<rparr>"
    unfolding stream_parts_def p(2) prod.case counts rest stream_start_def next_part_number_at
      fold_write_part [OF k] all parts.remaining_def by simp
  with p(1) latest show ?thesis
    by (simp add: bulk_stream_def load_committed [OF c] Let_def counts del: upt_Suc map_map)
qed

lemma committed_set_state [simp]:
  "committed env d j cols C k (w\<lparr>bw_store := set_job_state now i st ec em s\<rparr>)
   = committed env d j cols C k (w\<lparr>bw_store := s\<rparr>)"
  by (simp add: committed_def latest_job_checkpoint_records_def set_job_state_def)

lemma bulk_apply_jobs [simp]: "st_jobs (bw_store (bulk_apply now d j x w)) = st_jobs (bw_store w)"
  by (cases x) (simp_all add: Let_def add_job_checkpoint_def emodify_def)

lemma bulk_exec_jobs [simp]: "st_jobs (bw_store (bulk_exec now d j xs w)) = st_jobs (bw_store w)"
  by (induction xs arbitrary: w) simp_all

lemma stored_job_exec [simp]:
  "stored_job i t ob q e st (bw_store (bulk_exec now d j xs w)) = stored_job i t ob q e st (bw_store w)"
  by (simp add: stored_job_def)

text \<open>A run over a committed state: killed it leaves a committed state, undisturbed it commits
  every part.\<close>

lemma opening_committed:
  assumes "committed env d j cols C k w"
  shows "committed env d j cols C k (bulk_exec now d j
     (take m (MakeDir # discard_uncommitted (dir_at d (bw_dirs w)) (map (part_at env cols C) [0 ..< k]))) w)"
proof (cases m)
  case (Suc n)
  let ?ns = "filter (\<lambda>f. is_part_file f \<and> f \<notin> set (map bp_path (map (part_at env cols C) [0 ..< k])))
       (map fst (od_files (dir_at d (bw_dirs w))))"
  have "\<forall>f \<in> set (take n ?ns). \<forall>i < k. part_name i \<noteq> f" by (auto dest!: in_set_takeD)
  from committed_discard [OF committed_opening(1) [OF assms] this] show ?thesis
    by (simp add: Suc discard_uncommitted_def take_map del: bulk_apply.simps)
qed (use assms in simp)

lemma stream_prefix:
  assumes c: "committed env d j cols C k w"
  defines "opening \<equiv> MakeDir # discard_uncommitted (dir_at d (bw_dirs w)) (map (part_at env cols C) [0 ..< k])"
  shows "\<exists>k'. committed env d j cols C k' (bulk_exec now d j (take m (opening @ parts.remaining env d cols C k)) w)"
    "committed env d j cols C (length C) (bulk_exec now d j (opening @ parts.remaining env d cols C k) w)"
proof -
  have all: "committed env d j cols C k (bulk_exec now d j opening w)"
    using opening_committed [OF c, of now "length opening"] by (simp add: opening_def)
  show "committed env d j cols C (length C) (bulk_exec now d j (opening @ parts.remaining env d cols C k) w)"
    using parts.completes [OF all, of now] by (simp add: bulk_exec_def)
  show "\<exists>k'. committed env d j cols C k' (bulk_exec now d j (take m (opening @ parts.remaining env d cols C k)) w)"
  proof (cases "m \<le> length opening")
    case True
    then have "take m (opening @ parts.remaining env d cols C k) = take m opening" by simp
    with opening_committed [OF c, of now m] show ?thesis unfolding opening_def by metis
  next
    case False
    then show ?thesis
      using parts.survives [OF all, of now "m - length opening"] by (simp add: bulk_exec_def)
  qed
qed

lemma finish_job_ok:
  assumes "stored_job j t ob q e IN_PROGRESS (bw_store w)" "unexpired e now" "st \<in> {JOB_COMPLETE, FAILED}"
  shows "finish_job now j st c msg ending w = (ending, w\<lparr>bw_store := set_job_state now j st c msg (bw_store w)\<rparr>)
     \<and> stored_job j t ob q e st (set_job_state now j st c msg (bw_store w))"
proof -
  have "job_step IN_PROGRESS st" using assms(3) by (auto simp: job_step_iff)
  from stored_job_transition [OF assms(1,2) this, of c msg] stored_job_set [OF assms(1)]
  show ?thesis by (auto simp: finish_job_def)
qed

lemma run_interrupted:
  assumes p: "plan (be_catalog env) q False = Ok p" "public_rows env p = (cols, rows)"
    and lim: "0 < be_part_records env" and C: "C = flushed (be_part_records env) rows"
    and c: "committed env (job_dir env j) j cols C k w"
    and job: "stored_job j QUERY ob (Some q) e st (bw_store w)" "st \<in> {UPLOAD_COMPLETE, IN_PROGRESS}"
    and live: "unexpired e now"
  shows "\<exists>k' w'. bulk_run now env (KilledAfter m) j w = (Killed, w')
     \<and> committed env (job_dir env j) j cols C k' w' \<and> stored_job j QUERY ob (Some q) e IN_PROGRESS (bw_store w')"
    "\<exists>w'. bulk_run now env NoFault j w
        = (Returned \<lparr>br_job_id = j, br_records_processed = int (length rows), br_parts_written = length C - k\<rparr>, w')
     \<and> committed env (job_dir env j) j cols C (length C) w' \<and> stored_job j QUERY ob (Some q) e JOB_COMPLETE (bw_store w')"
    "\<exists>w'. bulk_run now env (RaisesAfter m) j w = (Raised BulkInterrupted, w')
     \<and> stored_job j QUERY ob (Some q) e FAILED (bw_store w')"
proof -
  obtain job0 where j0: "get_job now j (bw_store w) = Some job0" "bj_type job0 = QUERY"
      "bj_query_text job0 = Some q" "bj_state job0 = st"
    using stored_job_get [OF job(1) live] by blast
  obtain w0 where run: "\<forall>flt. bulk_run now env flt j w = bulk_stream_run now env flt j q w0"
    and c0: "committed env (job_dir env j) j cols C k w0"
    and job1: "stored_job j QUERY ob (Some q) e IN_PROGRESS (bw_store w0)"
  proof (cases "st = UPLOAD_COMPLETE")
    case True
    obtain job1 where "transition_job now j IN_PROGRESS None None (bw_store w)
        = (Ok job1, set_job_state now j IN_PROGRESS None None (bw_store w))"
      using stored_job_transition [OF job(1) live] True by (metis job_step.start)
    then have "bulk_run now env flt j w
        = bulk_stream_run now env flt j q (w\<lparr>bw_store := set_job_state now j IN_PROGRESS None None (bw_store w)\<rparr>)" for flt
      using True by (simp add: bulk_run_def j0)
    from that [OF allI, OF this] c stored_job_set [OF job(1)] show thesis by simp
  next
    case False
    then have "bulk_run now env flt j w = bulk_stream_run now env flt j q w" for flt
      using job(2) by (simp add: bulk_run_def j0)
    from that [OF allI, OF this c] job False show thesis by simp
  qed
  note stream = stream_committed [OF p lim C c0]
  note prefix = stream_prefix [OF c0]
  show "\<exists>k' w'. bulk_run now env (KilledAfter m) j w = (Killed, w')
     \<and> committed env (job_dir env j) j cols C k' w' \<and> stored_job j QUERY ob (Some q) e IN_PROGRESS (bw_store w')"
    using prefix(1) [of now m] job1
    unfolding run [rule_format] bulk_stream_run_def stream prod.case Let_def fault.case by auto
  define all where "all = bulk_exec now (job_dir env j) j (MakeDir # discard_uncommitted (dir_at (job_dir env j) (bw_dirs w0))
        (map (part_at env cols C) [0 ..< k]) @ parts.remaining env (job_dir env j) cols C k) w0"
  let ?r = "\<lparr>br_job_id = j, br_records_processed = int (length rows), br_parts_written = length C - k\<rparr>"
  have jobs: "stored_job j QUERY ob (Some q) e IN_PROGRESS (bw_store (bulk_exec now d i xs w0))" for d i xs
    using job1 by simp
  note finish = finish_job_ok [OF jobs live]
  have "bulk_run now env NoFault j w = finish_job now j JOB_COMPLETE None None (Returned ?r) all"
    unfolding run [rule_format] bulk_stream_run_def stream prod.case Let_def fault.case sum.case
      take_all [OF order.refl] all_def by (rule refl)
  moreover have "committed env (job_dir env j) j cols C (length C) all"
    using prefix(2) [of now] by (simp add: all_def)
  moreover have "stored_job j QUERY ob (Some q) e IN_PROGRESS (bw_store all)"
    unfolding all_def by (rule jobs)
  ultimately show "\<exists>w'. bulk_run now env NoFault j w = (Returned ?r, w')
     \<and> committed env (job_dir env j) j cols C (length C) w' \<and> stored_job j QUERY ob (Some q) e JOB_COMPLETE (bw_store w')"
    using finish_job_ok [OF _ live, of j QUERY ob "Some q" all JOB_COMPLETE None None "Returned ?r"] by simp
  have "bulk_run now env (RaisesAfter m) j w = finish_job now j FAILED (Some ''BULK_PROCESSING_ERROR'')
      (Some ''Bulk query processing failed'') (Raised BulkInterrupted)
      (bulk_exec now (job_dir env j) j (take m (fst (bulk_stream env j q w0))) w0)"
    unfolding run [rule_format] bulk_stream_run_def stream prod.case Let_def fault.case fail_job_def fst_conv
    by (rule refl)
  with finish [of FAILED] show "\<exists>w'. bulk_run now env (RaisesAfter m) j w = (Raised BulkInterrupted, w')
     \<and> stored_job j QUERY ob (Some q) e FAILED (bw_store w')" by auto
qed

section \<open>Any number of crashes\<close>

definition crashed_runs :: "bulk_env \<Rightarrow> string \<Rightarrow> (timestamp \<times> nat) list \<Rightarrow> bulk_world \<Rightarrow> bulk_world" where
  "crashed_runs env j crashes w = fold (\<lambda>(now, m) u. snd (bulk_run now env (KilledAfter m) j u)) crashes w"

lemma crashed_runs_committed:
  assumes p: "plan (be_catalog env) q False = Ok p" "public_rows env p = (cols, rows)"
    and lim: "0 < be_part_records env" and C: "C = flushed (be_part_records env) rows"
    and "committed env (job_dir env j) j cols C k w"
    and "stored_job j QUERY ob (Some q) e st (bw_store w)" "st \<in> {UPLOAD_COMPLETE, IN_PROGRESS}"
    and "\<forall>(now, m) \<in> set crashes. unexpired e now"
  shows "\<exists>k' st'. committed env (job_dir env j) j cols C k' (crashed_runs env j crashes w)
     \<and> stored_job j QUERY ob (Some q) e st' (bw_store (crashed_runs env j crashes w))
     \<and> st' \<in> {UPLOAD_COMPLETE, IN_PROGRESS}"
  using assms(5-8)
proof (induction crashes arbitrary: w k st)
  case (Cons c crashes)
  obtain now m where cm: "c = (now, m)" by (cases c)
  with Cons.prems(4) have live: "unexpired e now" by simp
  obtain k' w' where "bulk_run now env (KilledAfter m) j w = (Killed, w')"
    "committed env (job_dir env j) j cols C k' w'" "stored_job j QUERY ob (Some q) e IN_PROGRESS (bw_store w')"
    using run_interrupted(1) [OF p lim C Cons.prems(1-3) live] by blast
  with Cons.IH [of k' w' IN_PROGRESS] Cons.prems(4) show ?case by (simp add: cm crashed_runs_def)
qed (auto simp: crashed_runs_def)

text \<open>The rows a client reads back from the parts the manifest lists.\<close>

definition published_rows :: "out_dir \<Rightarrow> string list list option" where
  "published_rows od = map_option concat (all_some (map
     (\<lambda>p. map_option tl (Option.bind (map_of (od_files od) (bp_path p)) csv_read)) (manifest_parts od)))"

lemma all_some_map: "(\<And>x. x \<in> set xs \<Longrightarrow> f x = Some (g x)) \<Longrightarrow> all_some (map f xs) = Some (map g xs)"
  by (induction xs) auto

lemma published_committed:
  assumes "committed env d j cols C (length C) w" "cols \<noteq> []" "\<forall>r \<in> set (concat C). r \<noteq> []"
  shows "published_rows (dir_at d (bw_dirs w)) = Some (map (map (be_show_cell env)) (concat C))"
proof -
  let ?od = "dir_at d (bw_dirs w)"
  have part: "map_option tl (Option.bind (map_of (od_files ?od) (part_name i)) csv_read)
      = Some (map (map (be_show_cell env)) (C ! i))" if "i < length C" for i
  proof -
    have "\<forall>r \<in> set (C ! i). r \<noteq> []" using assms(3) that by auto
    then have "csv_read (part_text env cols (C ! i)) = Some (cols # map (map (be_show_cell env)) (C ! i))"
      using assms(2) by (simp add: part_text_def csv_read_text)
    then show ?thesis using assms(1) that by (simp add: committed_def)
  qed
  have "all_some (map (\<lambda>i. map_option tl (Option.bind (map_of (od_files ?od) (part_name i)) csv_read)) [0 ..< length C])
      = Some (map (\<lambda>i. map (map (be_show_cell env)) (C ! i)) [0 ..< length C])"
    by (rule all_some_map) (simp add: part)
  moreover have "map (\<lambda>i. map (map (be_show_cell env)) (C ! i)) [0 ..< length C] = map (map (map (be_show_cell env))) C"
    by (rule nth_equalityI) simp_all
  ultimately show ?thesis
    using committed_parts [OF assms(1)] by (simp add: published_rows_def comp_def map_concat)
qed

lemma fresh_committed:
  "bw_dirs w (job_dir env j) = None \<Longrightarrow> latest_job_checkpoint_records j (bw_store w) = 0 \<Longrightarrow>
   committed env (job_dir env j) j cols C 0 w"
  by (simp add: committed_def dir_at_def empty_dir_def manifest_parts_def chunk_rows_def)

lemma resumed_run:
  assumes plan: "plan (be_catalog env) q False = Ok p" "public_rows env p = (cols, rows)"
    and lim: "0 < be_part_records env" and C: "C = flushed (be_part_records env) rows"
    and job: "stored_job j QUERY ob (Some q) e UPLOAD_COMPLETE (bw_store w)"
    and fresh: "bw_dirs w (job_dir env j) = None" "latest_job_checkpoint_records j (bw_store w) = 0"
    and live: "\<forall>(t, m) \<in> set crashes. unexpired e t" "unexpired e now"
  shows "\<exists>n w'. bulk_run now env NoFault j (crashed_runs env j crashes w)
        = (Returned \<lparr>br_job_id = j, br_records_processed = int (length rows), br_parts_written = n\<rparr>, w')
     \<and> committed env (job_dir env j) j cols C (length C) w' \<and> stored_job j QUERY ob (Some q) e JOB_COMPLETE (bw_store w')"
proof -
  from crashed_runs_committed [OF plan lim C fresh_committed [OF fresh] job _ live(1)] obtain k st where
    "committed env (job_dir env j) j cols C k (crashed_runs env j crashes w)"
    "stored_job j QUERY ob (Some q) e st (bw_store (crashed_runs env j crashes w))" "st \<in> {UPLOAD_COMPLETE, IN_PROGRESS}"
    by blast
  from run_interrupted(2) [OF plan lim C this live(2)] show ?thesis by blast
qed

section \<open>Properties\<close>


definition wit_env :: bulk_env where
  "wit_env = \<lparr>be_exec = (\<lambda>sql ps. ([''Id'', internal_id_field], map (\<lambda>i. [TextV i, TextV i]) [''a'', ''b'', ''c''])),
     be_show_cell = wit_fmt, be_sha = (\<lambda>t. t), be_catalog = wit_catalog,
     be_results_directory = [''results''], be_part_records = 2\<rparr>"

definition wit_job_row :: job_row where
  "wit_job_row = \<lparr>jr_id = ''j1'', jr_type = QUERY, jr_api_version = ''v60.0'', jr_state = UPLOAD_COMPLETE,
     jr_object_name = None, jr_operation = Some ''query'', jr_query_text = Some (wit_text ''b''),
     jr_snapshot_id = None, jr_created_at = 0, jr_updated_at = 0, jr_expires_at = Some 1000,
     jr_error_code = None, jr_error_message = None, jr_options = Some []\<rparr>"

definition wit_world :: bulk_world where
  "wit_world = \<lparr>bw_store = empty_store\<lparr>st_jobs := [wit_job_row]\<rparr>, bw_dirs = (\<lambda>_. None)\<rparr>"

lemma wit_public_rows: "public_rows wit_env p = ([''Id''], [[TextV ''a''], [TextV ''b''], [TextV ''c'']])"
  by (simp add: public_rows_def wit_env_def public_indexes_def internal_id_field_def)

lemma wit_stored: "stored_job ''j1'' QUERY None (Some (wit_text ''b'')) (Some 1000) UPLOAD_COMPLETE (bw_store wit_world)"
  by (simp add: stored_job_def wit_world_def empty_store_def wit_job_row_def lookup_by_def)




end
