(* ===== verification/BulkResults.thy ===== *)
theory BulkResults
  imports BulkQueryProps
begin

text \<open>
  \<open>fakeforce/bulk/results.py\<close>: pages of a bulk result by part, replayable windows of rows
  across parts, the CSV stream of a window and the removal of a job's directory. The window
  locators a client follows lead through every row of the result exactly once.
\<close>

section \<open>Pages and windows\<close>

datatype results_error =
  InvalidBulkLocator
| ResultsNotFound
| ResultsEscapeRoot
| ResultsBadCsv

record result_page =
  rp_path :: path
  rp_record_count :: int
  rp_next_locator :: "string option"

definition results_page :: "path \<Rightarrow> out_dirs \<Rightarrow> string \<Rightarrow> string option \<Rightarrow> results_error + result_page" where
  "results_page base dirs job_id locator =
     (case (case locator of None \<Rightarrow> Some 0 | Some l \<Rightarrow> py_int l) of
        None \<Rightarrow> Err InvalidBulkLocator
      | Some i \<Rightarrow>
          if i < 0 then Err InvalidBulkLocator
          else
            (let od = dir_at (base @ [job_id]) dirs in
             case od_manifest od of
               None \<Rightarrow> Err ResultsNotFound
             | Some parts \<Rightarrow>
                 if i \<ge> int (length parts) then Err InvalidBulkLocator
                 else (let part = parts ! nat i in
                       if map_of (od_files od) (bp_path part) = None then Err ResultsNotFound
                       else Ok \<lparr>rp_path = base @ [job_id, bp_path part], rp_record_count = bp_record_count part,
                                rp_next_locator = (if i + 1 < int (length parts) then Some (int_str (i + 1)) else None)\<rparr>)))"

definition results_window ::
  "path \<Rightarrow> out_dirs \<Rightarrow> string \<Rightarrow> string option \<Rightarrow> int \<Rightarrow> results_error + result_page" where
  "results_window base dirs job_id locator max_records =
     (if max_records \<le> 0 then Err InvalidBulkLocator
      else
        (case (case locator of None \<Rightarrow> Some 0 | Some l \<Rightarrow> py_int (remove_prefix l ''r:'')) of
           None \<Rightarrow> Err InvalidBulkLocator
         | Some offset \<Rightarrow>
             if (case locator of None \<Rightarrow> False | Some l \<Rightarrow> \<not> starts_with l ''r:'') then Err InvalidBulkLocator
             else
               (case od_manifest (dir_at (base @ [job_id]) dirs) of
                  None \<Rightarrow> Err ResultsNotFound
                | Some parts \<Rightarrow>
                    (let total = sum_list (map bp_record_count parts) in
                     if offset < 0 \<or> offset \<ge> total then Err InvalidBulkLocator
                     else (let count = min max_records (total - offset) in
                       Ok \<lparr>rp_path = base @ [job_id, ''manifest.json''], rp_record_count = count,
                           rp_next_locator = (if offset + count < total then Some (''r:'' @ int_str (offset + count)) else None)\<rparr>)))))"

section \<open>Streaming a window\<close>

record window_state =
  ws_skipped :: int
  ws_emitted :: int
  ws_header :: bool
  ws_chunks :: "string list"

text \<open>The loop over one part's rows; the flag tells that the generator has returned.\<close>

fun window_rows :: "int \<Rightarrow> int \<Rightarrow> string list list \<Rightarrow> window_state \<Rightarrow> bool \<times> window_state" where
  "window_rows offset count [] s = (False, s)"
| "window_rows offset count (row # rows) s =
     (if ws_skipped s < offset then window_rows offset count rows (s\<lparr>ws_skipped := ws_skipped s + 1\<rparr>)
      else if ws_emitted s \<ge> count then (True, s)
      else window_rows offset count rows
             (s\<lparr>ws_chunks := ws_chunks s @ [csv_row row], ws_emitted := ws_emitted s + 1\<rparr>))"

definition window_header :: "string list list \<Rightarrow> window_state \<Rightarrow> window_state" where
  "window_header rows s =
     (case rows of
        [] \<Rightarrow> s
      | header # _ \<Rightarrow> if header \<noteq> [] \<and> \<not> ws_header s
          then s\<lparr>ws_chunks := ws_chunks s @ [csv_row header], ws_header := True\<rparr> else s)"

fun window_parts ::
  "(string, string) dict \<Rightarrow> int \<Rightarrow> int \<Rightarrow> bulk_part list \<Rightarrow> window_state \<Rightarrow> results_error + window_state" where
  "window_parts files offset count [] s = Ok s"
| "window_parts files offset count (part # parts) s =
     (case map_of files (bp_path part) of
        None \<Rightarrow> Err ResultsNotFound
      | Some t \<Rightarrow>
          (case csv_read t of
             None \<Rightarrow> Err ResultsBadCsv
           | Some rows \<Rightarrow>
               (case window_rows offset count (tl rows) (window_header rows s) of
                  (True, s') \<Rightarrow> Ok s'
                | (False, s') \<Rightarrow> window_parts files offset count parts s')))"

definition stream_window ::
  "path \<Rightarrow> out_dirs \<Rightarrow> string \<Rightarrow> string option \<Rightarrow> int \<Rightarrow> results_error + string list" where
  "stream_window base dirs job_id locator count =
     (case (case locator of None \<Rightarrow> Some 0 | Some l \<Rightarrow> py_int (remove_prefix l ''r:'')) of
        None \<Rightarrow> Err InvalidBulkLocator
      | Some offset \<Rightarrow>
          (let od = dir_at (base @ [job_id]) dirs in
           case od_manifest od of
             None \<Rightarrow> Err ResultsNotFound
           | Some parts \<Rightarrow>
               rbind (window_parts (od_files od) offset count parts
                   \<lparr>ws_skipped = 0, ws_emitted = 0, ws_header = False, ws_chunks = []\<rparr>)
                 (\<lambda>s. Ok (ws_chunks s))))"

text \<open>\<open>stream\<close>: a file in chunks of bounded size.\<close>

function file_chunks :: "nat \<Rightarrow> string \<Rightarrow> string list" where
  "file_chunks n t = (if t = [] \<or> n = 0 then [] else take n t # file_chunks n (drop n t))"
  by auto
termination by (relation "measure (\<lambda>(n, t). length t)") auto

declare file_chunks.simps [simp del]

lemma file_chunks_concat: "0 < n \<Longrightarrow> concat (file_chunks n t) = t"
proof (induction n t rule: file_chunks.induct)
  case (1 n t)
  show ?case
  proof (cases "t = []")
    case False
    with 1 have "concat (file_chunks n (drop n t)) = drop n t" by simp
    with False 1 show ?thesis by (simp add: file_chunks.simps [of n t])
  qed (simp add: file_chunks.simps)
qed

section \<open>Removal\<close>

definition remove_results_job ::
  "(path \<Rightarrow> path) \<Rightarrow> path \<Rightarrow> string \<Rightarrow> out_dirs \<Rightarrow> results_error + out_dirs" where
  "remove_results_job resolve base job_id dirs =
     (let r = resolve base; target = resolve (join_path r (posix_parts job_id)) in
      if \<not> (path_under target r \<and> target \<noteq> r) then Err ResultsEscapeRoot
      else Ok (\<lambda>p. if path_under p target then None else dirs p))"

section \<open>What a window streams\<close>

lemma window_rows_skip:
  "int (length rows) \<le> offset - ws_skipped s \<Longrightarrow>
   window_rows offset count rows s = (False, s\<lparr>ws_skipped := ws_skipped s + int (length rows)\<rparr>)"
proof (induction rows arbitrary: s)
  case (Cons row rows)
  then have "ws_skipped s < offset" by simp
  with Cons.IH [of "s\<lparr>ws_skipped := ws_skipped s + 1\<rparr>"] Cons.prems show ?case by (simp add: add.commute add.assoc)
qed simp

text \<open>Over all rows of all parts the loop skips \<open>offset\<close> rows and emits at most \<open>count\<close>.\<close>

definition window_of :: "int \<Rightarrow> int \<Rightarrow> string list list \<Rightarrow> window_state \<Rightarrow> string list list" where
  "window_of offset count rows s =
     take (nat (count - ws_emitted s)) (drop (nat (offset - ws_skipped s)) rows)"

lemma window_rows_spec:
  assumes "ws_skipped s \<le> offset" "ws_emitted s \<le> count"
    and "window_rows offset count rows s = (stop, s')"
  shows "ws_chunks s' = ws_chunks s @ map csv_row (window_of offset count rows s) \<and> ws_header s' = ws_header s
     \<and> ws_skipped s' \<le> offset \<and> ws_emitted s' \<le> count
     \<and> (if stop then window_of offset count rest s' = [] \<and> window_of offset count (rows @ rest) s = window_of offset count rows s
        else window_of offset count (rows @ rest) s = window_of offset count rows s @ window_of offset count rest s')"
  using assms
proof (induction rows arbitrary: s)
  case Nil
  then show ?case by (auto simp: window_of_def)
next
  case (Cons row rows)
  consider (skip) "ws_skipped s < offset" | (full) "ws_skipped s = offset" "ws_emitted s = count"
    | (emit) "ws_skipped s = offset" "ws_emitted s < count"
    using Cons.prems(1,2) by linarith
  then show ?case
  proof cases
    case skip
    let ?t = "s\<lparr>ws_skipped := ws_skipped s + 1\<rparr>"
    have "nat (offset - ws_skipped s) = Suc (nat (offset - (ws_skipped s + 1)))" using skip by simp
    then have "window_of offset count (row # xs) s = window_of offset count xs ?t" for xs
      by (simp add: window_of_def)
    with Cons.IH [of ?t] Cons.prems skip show ?thesis by simp
  next
    case full
    with Cons.prems(3) have "stop" "s' = s" by auto
    with full show ?thesis by (simp add: window_of_def)
  next
    case emit
    let ?t = "s\<lparr>ws_chunks := ws_chunks s @ [csv_row row], ws_emitted := ws_emitted s + 1\<rparr>"
    have "nat (count - ws_emitted s) = Suc (nat (count - (ws_emitted s + 1)))" using emit by simp
    then have "window_of offset count (row # xs) s = row # window_of offset count xs ?t" for xs
      using emit by (simp add: window_of_def)
    with Cons.IH [of ?t] Cons.prems emit show ?thesis by simp
  qed
qed

definition part_holds :: "(string, string) dict \<Rightarrow> string list \<Rightarrow> bulk_part \<Rightarrow> string list list \<Rightarrow> bool" where
  "part_holds files cols part rs \<longleftrightarrow>
     (\<exists>t. map_of files (bp_path part) = Some t \<and> csv_read t = Some (cols # rs))
     \<and> bp_record_count part = int (length rs)"

lemma window_parts_spec:
  assumes "list_all2 (part_holds files cols) parts rss" "cols \<noteq> []"
    and "ws_skipped s \<le> offset" "ws_emitted s \<le> count"
  shows "\<exists>s'. window_parts files offset count parts s = Ok s'
     \<and> ws_chunks s' = ws_chunks s @ (if parts = [] \<or> ws_header s then [] else [csv_row cols])
         @ map csv_row (window_of offset count (concat rss) s)"
  using assms(1,3,4)
proof (induction parts rss arbitrary: s rule: list_all2_induct)
  case Nil
  then show ?case by (simp add: window_of_def)
next
  case (Cons part parts rs rss)
  obtain t where t: "map_of files (bp_path part) = Some t" "csv_read t = Some (cols # rs)"
    using Cons.hyps(1) by (auto simp: part_holds_def)
  let ?h = "window_header (cols # rs) s"
  have h: "ws_chunks ?h = ws_chunks s @ (if ws_header s then [] else [csv_row cols])" "ws_header ?h"
    "ws_skipped ?h = ws_skipped s" "ws_emitted ?h = ws_emitted s"
    using assms(2) by (simp_all add: window_header_def)
  have wh: "window_of offset count xs ?h = window_of offset count xs s" for xs
    by (simp add: window_of_def h)
  obtain stop u where run: "window_rows offset count rs ?h = (stop, u)" by (cases "window_rows offset count rs ?h")
  note spec = window_rows_spec [OF _ _ run, of "concat rss", unfolded h wh]
  show ?case
  proof (cases stop)
    case True
    with spec Cons.prems t run show ?thesis by (simp add: h)
  next
    case False
    from spec Cons.prems have u: "ws_skipped u \<le> offset" "ws_emitted u \<le> count" "ws_header u" by (auto simp: h(2))
    from Cons.IH [OF u(1,2)] u(3) obtain s' where "window_parts files offset count parts u = Ok s'"
      "ws_chunks s' = ws_chunks u @ map csv_row (window_of offset count (concat rss) u)" by auto
    with False spec Cons.prems t run show ?thesis by (simp add: h)
  qed
qed

section \<open>Following the locators\<close>

text \<open>What a client does: ask for a window, read its stream, follow the next locator.\<close>

fun follow_windows ::
  "nat \<Rightarrow> path \<Rightarrow> out_dirs \<Rightarrow> string \<Rightarrow> int \<Rightarrow> string option \<Rightarrow> results_error + string list list" where
  "follow_windows 0 base dirs j n locator = Err InvalidBulkLocator"
| "follow_windows (Suc fuel) base dirs j n locator =
     rbind (results_window base dirs j locator n) (\<lambda>pg.
     rbind (stream_window base dirs j locator (rp_record_count pg)) (\<lambda>chunks.
     rbind (of_opt ResultsBadCsv (csv_read (concat chunks))) (\<lambda>rows.
       (case rp_next_locator pg of
          None \<Rightarrow> Ok (tl rows)
        | Some l \<Rightarrow> rbind (follow_windows fuel base dirs j n (Some l)) (\<lambda>rest. Ok (tl rows @ rest))))))"

definition result_set :: "path \<Rightarrow> out_dirs \<Rightarrow> string \<Rightarrow> string list \<Rightarrow> string list list \<Rightarrow> bool" where
  "result_set base dirs j cols rows \<longleftrightarrow> (\<exists>parts rss. od_manifest (dir_at (base @ [j]) dirs) = Some parts
     \<and> list_all2 (part_holds (od_files (dir_at (base @ [j]) dirs)) cols) parts rss \<and> concat rss = rows)"

lemma result_set_total:
  "list_all2 (part_holds files cols) parts rss \<Longrightarrow> sum_list (map bp_record_count parts) = int (length (concat rss))"
  by (induction parts rss rule: list_all2_induct) (simp_all add: part_holds_def)

lemma window_at:
  assumes rs: "result_set base dirs j cols rows" "cols \<noteq> []" "\<forall>r \<in> set rows. r \<noteq> []"
    and off: "k < length rows" "0 < n"
    and loc: "(case locator of None \<Rightarrow> Some 0 | Some l \<Rightarrow> py_int (remove_prefix l ''r:'')) = Some (int k)"
      "\<not> (case locator of None \<Rightarrow> False | Some l \<Rightarrow> \<not> starts_with l ''r:'')"
  defines "c \<equiv> min n (int (length rows) - int k)"
  shows "\<exists>pg. results_window base dirs j locator n = Ok pg \<and> rp_record_count pg = c
      \<and> rp_next_locator pg = (if int k + c < int (length rows) then Some (''r:'' @ int_str (int k + c)) else None)
      \<and> rbind (stream_window base dirs j locator c) (\<lambda>chunks. of_opt ResultsBadCsv (csv_read (concat chunks)))
         = Ok (cols # take (nat c) (drop k rows))"
proof -
  obtain parts rss where m: "od_manifest (dir_at (base @ [j]) dirs) = Some parts"
    "list_all2 (part_holds (od_files (dir_at (base @ [j]) dirs)) cols) parts rss" "concat rss = rows"
    using rs(1) by (auto simp: result_set_def)
  have total: "sum_list (map bp_record_count parts) = int (length rows)"
    using result_set_total [OF m(2)] m(3) by simp
  have ne: "parts \<noteq> []" using total off(1) by auto
  have c: "0 \<le> c" using off by (simp add: c_def)
  let ?s0 = "\<lparr>ws_skipped = 0, ws_emitted = 0, ws_header = False, ws_chunks = []\<rparr>"
  obtain s' where s': "window_parts (od_files (dir_at (base @ [j]) dirs)) (int k) c parts ?s0 = Ok s'"
    "ws_chunks s' = [csv_row cols] @ map csv_row (take (nat c) (drop k rows))"
    using window_parts_spec [OF m(2) rs(2), of ?s0 "int k" c] ne c by (auto simp: m(3) window_of_def)
  have "concat (ws_chunks s') = csv_text (cols # take (nat c) (drop k rows))"
    by (simp add: s'(2) csv_text_def)
  moreover have "\<forall>r \<in> set (cols # take (nat c) (drop k rows)). r \<noteq> []"
    using rs(2,3) by (auto dest!: in_set_takeD in_set_dropD)
  ultimately have "csv_read (concat (ws_chunks s')) = Some (cols # take (nat c) (drop k rows))"
    by (simp only: csv_read_text)
  then have "rbind (stream_window base dirs j locator c) (\<lambda>chunks. of_opt ResultsBadCsv (csv_read (concat chunks)))
       = Ok (cols # take (nat c) (drop k rows))"
    unfolding stream_window_def loc(1) by (simp add: m(1) s'(1) Let_def)
  moreover have "results_window base dirs j locator n = Ok \<lparr>rp_path = base @ [j, ''manifest.json''], rp_record_count = c,
       rp_next_locator = (if int k + c < int (length rows) then Some (''r:'' @ int_str (int k + c)) else None)\<rparr>"
    unfolding results_window_def loc(1) using off loc(2) by (simp add: m(1) total Let_def c_def)
  ultimately show ?thesis by simp
qed

lemma locator_parse:
  "py_int (remove_prefix (''r:'' @ int_str i) ''r:'') = Some i" "starts_with (''r:'' @ t) ''r:''"
  by (simp_all only: remove_prefix_append py_int_int_str) (simp add: starts_with_def)

lemma follow_from:
  assumes rs: "result_set base dirs j cols rows" "cols \<noteq> []" "\<forall>r \<in> set rows. r \<noteq> []" "0 < n"
  shows "k < length rows \<Longrightarrow> length rows - k \<le> fuel \<Longrightarrow>
    (case locator of None \<Rightarrow> Some 0 | Some l \<Rightarrow> py_int (remove_prefix l ''r:'')) = Some (int k) \<Longrightarrow>
    \<not> (case locator of None \<Rightarrow> False | Some l \<Rightarrow> \<not> starts_with l ''r:'') \<Longrightarrow>
    follow_windows fuel base dirs j n locator = Ok (drop k rows)"
proof (induction fuel arbitrary: k locator)
  case (Suc fuel)
  let ?c = "min n (int (length rows) - int k)"
  from window_at [OF rs(1-3) Suc.prems(1) rs(4) Suc.prems(3,4)] obtain pg where
    pg: "results_window base dirs j locator n = Ok pg" "rp_record_count pg = ?c"
      "rp_next_locator pg = (if int k + ?c < int (length rows) then Some (''r:'' @ int_str (int k + ?c)) else None)"
      "rbind (stream_window base dirs j locator ?c) (\<lambda>chunks. of_opt ResultsBadCsv (csv_read (concat chunks)))
         = Ok (cols # take (nat ?c) (drop k rows))" by blast
  then obtain chunks where ch: "stream_window base dirs j locator ?c = Ok chunks"
    "csv_read (concat chunks) = Some (cols # take (nat ?c) (drop k rows))"
    by (auto simp: rbind_eq_Inr)
  show ?case
  proof (cases "int k + ?c < int (length rows)")
    case False
    then have "take (nat ?c) (drop k rows) = drop k rows" using Suc.prems(1) rs(4) by (simp add: min_def split: if_splits)
    with False pg ch show ?thesis by (simp add: of_opt_def)
  next
    case True
    then have c: "?c = n" by (simp add: min_def split: if_splits)
    let ?k = "k + nat n"
    have k: "int k + n = int ?k" using rs(4) by simp
    have "follow_windows fuel base dirs j n (Some (''r:'' @ int_str (int ?k))) = Ok (drop ?k rows)"
      by (rule Suc.IH; (simp only: option.case locator_parse simp_thms)?)
        (use True Suc.prems rs(4) in \<open>auto simp: c\<close>)
    moreover have "take (nat n) (drop k rows) @ drop ?k rows = drop k rows"
      by (metis add.commute append_take_drop_id drop_drop)
    ultimately show ?thesis using True pg ch by (simp add: c k of_opt_def)
  qed
qed simp

lemma committed_result_set:
  assumes c: "committed env (job_dir env j) j cols C (length C) w" "C \<noteq> []"
    and cols: "cols \<noteq> []" "\<forall>r \<in> set (concat C). r \<noteq> []"
  shows "result_set (be_results_directory env) (bw_dirs w) j cols (map (map (be_show_cell env)) (concat C))"
proof -
  let ?od = "dir_at (job_dir env j) (bw_dirs w)"
  from c obtain m where m: "od_manifest ?od = Some m" "m = map (part_at env cols C) [0 ..< length C]"
    by (auto simp: committed_def)
  let ?rss = "map (map (map (be_show_cell env))) C"
  have "part_holds (od_files ?od) cols (part_at env cols C i) (?rss ! i)" if i: "i < length C" for i
  proof -
    have "\<forall>r \<in> set (C ! i). r \<noteq> []" using cols(2) i by auto
    then have "csv_read (part_text env cols (C ! i)) = Some (cols # map (map (be_show_cell env)) (C ! i))"
      using cols(1) by (simp add: part_text_def csv_read_text)
    then show ?thesis using c(1) i by (simp add: part_holds_def committed_def)
  qed
  then have "list_all2 (part_holds (od_files ?od) cols) m ?rss"
    by (simp add: m(2) list_all2_conv_all_nth)
  with m(1) show ?thesis
    unfolding result_set_def job_dir_def [symmetric] by (metis map_concat)
qed

section \<open>Properties\<close>



text \<open>
  a bulk query without rows completes without ever writing a manifest, and its results
  are then not found: a client of the completed job gets an error instead of an empty result.\<close>

theorem empty_bulk_result_unavailable:
  assumes plan: "plan (be_catalog env) q False = Ok p" "public_rows env p = (cols, [])"
    and lim: "0 < be_part_records env"
    and job: "stored_job j QUERY ob (Some q) e UPLOAD_COMPLETE (bw_store w)"
    and fresh: "bw_dirs w (job_dir env j) = None" "latest_job_checkpoint_records j (bw_store w) = 0"
    and live: "unexpired e now"
  shows "\<exists>r w'. bulk_run now env NoFault j w = (Returned r, w')
     \<and> stored_job j QUERY ob (Some q) e JOB_COMPLETE (bw_store w')
     \<and> results_page (be_results_directory env) (bw_dirs w') j None = Err ResultsNotFound
     \<and> results_window (be_results_directory env) (bw_dirs w') j None 1000 = Err ResultsNotFound"
proof -
  have C: "[] = flushed (be_part_records env) ([] :: sql_value list list)" by simp
  have st: "UPLOAD_COMPLETE \<in> {UPLOAD_COMPLETE, IN_PROGRESS}" by simp
  obtain r w' where run: "bulk_run now env NoFault j w = (Returned r, w')"
    "stored_job j QUERY ob (Some q) e JOB_COMPLETE (bw_store w')"
    "committed env (job_dir env j) j cols [] (length ([] :: sql_value list list list)) w'"
    using run_interrupted(2) [OF plan lim C fresh_committed [OF fresh] job st live] by blast
  from run(3) have "od_manifest (dir_at (job_dir env j) (bw_dirs w')) = None" by (simp add: committed_def)
  with run show ?thesis by (auto simp: results_page_def results_window_def job_dir_def)
qed

theorem empty_bulk_result_unavailable_witness:
  "\<exists>r w'. bulk_run 9 (wit_env\<lparr>be_exec := (\<lambda>sql ps. ([''Id''], []))\<rparr>) NoFault ''j1'' wit_world = (Returned r, w')
     \<and> results_page [''results''] (bw_dirs w') ''j1'' None = Err ResultsNotFound"
proof -
  let ?env = "wit_env\<lparr>be_exec := (\<lambda>sql ps. ([''Id''], []))\<rparr>"
  have plan: "plan (be_catalog ?env) (wit_text ''b'') False = Ok (plan_or (plan wit_catalog (wit_text ''b'') False))"
    using wit_planned(2) by (simp only: wit_env_def bulk_env.simps)
  have rows: "public_rows ?env (plan_or (plan wit_catalog (wit_text ''b'') False)) = ([''Id''], [])"
    by (simp add: public_rows_def public_indexes_def internal_id_field_def)
  have lim: "0 < be_part_records ?env" and dir: "be_results_directory ?env = [''results'']"
    by (simp_all add: wit_env_def)
  have fresh: "bw_dirs wit_world (job_dir ?env ''j1'') = None"
    "latest_job_checkpoint_records ''j1'' (bw_store wit_world) = 0"
    by (simp_all add: wit_world_def empty_store_def latest_job_checkpoint_records_def)
  have live: "unexpired (Some 1000) 9" by (simp add: unexpired_def)
  from empty_bulk_result_unavailable [OF plan rows lim wit_stored fresh live, unfolded dir]
  show ?thesis by blast
qed



end
