(* ===== verification/PyDate.thy ===== *)
theory PyDate
  imports PyStr
begin

text \<open>
  Python's \<open>datetime.date\<close>: a date is its proleptic Gregorian ordinal (day 1 is
  0001-01-01), so comparison and adding a \<open>timedelta\<close> of whole days are those of
  \<open>int\<close>. \<open>isoformat\<close>, \<open>fromisoformat\<close> (extended form
  YYYY-MM-DD), \<open>isoweekday\<close> and \<open>isocalendar\<close> are computed from the
  ordinal. The \<open>OverflowError\<close> past 9999-12-31 is not modelled.
\<close>

type_synonym date = int

definition max_ordinal :: date where "max_ordinal = 3652059"

definition is_leap :: "int \<Rightarrow> bool" where
  "is_leap y \<longleftrightarrow> y mod 4 = 0 \<and> (y mod 100 \<noteq> 0 \<or> y mod 400 = 0)"

definition days_before_year :: "int \<Rightarrow> int" where
  "days_before_year y = (let p = y - 1 in p * 365 + p div 4 - p div 100 + p div 400)"

definition month_lengths :: "int \<Rightarrow> int list" where
  "month_lengths y = [31, if is_leap y then 29 else 28, 31, 30, 31, 30, 31, 31, 30, 31, 30, 31]"

definition days_in_month :: "int \<Rightarrow> int \<Rightarrow> int" where
  "days_in_month y m = month_lengths y ! nat (m - 1)"

definition days_before_month :: "int \<Rightarrow> int \<Rightarrow> int" where
  "days_before_month y m = sum_list (take (nat (m - 1)) (month_lengths y))"

definition ordinal_of :: "int \<Rightarrow> int \<Rightarrow> int \<Rightarrow> date" where
  "ordinal_of y m d = days_before_year y + days_before_month y m + d"

fun split_month :: "int list \<Rightarrow> int \<Rightarrow> int \<Rightarrow> int \<times> int" where
  "split_month [] m n = (m, n + 1)"
| "split_month (l # ls) m n = (if n < l then (m, n + 1) else split_month ls (m + 1) (n - l))"

definition year_and_rest :: "date \<Rightarrow> int \<times> int" where
  "year_and_rest ord =
     (let n = ord - 1;
          n400 = n div 146097; r400 = n mod 146097;
          n100 = r400 div 36524; r100 = r400 mod 36524;
          n4 = r100 div 1461; r4 = r100 mod 1461;
          n1 = r4 div 365; r1 = r4 mod 365;
          y = 400 * n400 + 100 * n100 + 4 * n4 + n1
      in if n1 = 4 \<or> n100 = 4 then (y, 365) else (y + 1, r1))"

definition ymd_of :: "date \<Rightarrow> int \<times> int \<times> int" where
  "ymd_of ord =
     (let (y, r) = year_and_rest ord; (m, d) = split_month (month_lengths y) 1 r in (y, m, d))"

section \<open>The calendar conversions agree\<close>

lemma year_and_rest_sum:
  assumes "year_and_rest ord = (y, r)"
  shows "days_before_year y + r + 1 = ord"
    and "0 \<le> r" and "r < sum_list (month_lengths y)"
proof -
  define n where "n = ord - 1"
  define n400 r400 where q: "n400 = n div 146097" "r400 = n mod 146097"
  define n100 r100 where c: "n100 = r400 div 36524" "r100 = r400 mod 36524"
  define n4 r4 where f: "n4 = r100 div 1461" "r4 = r100 mod 1461"
  define n1 r1 where o: "n1 = r4 div 365" "r1 = r4 mod 365"
  have n: "n = 146097 * n400 + r400" and r400: "0 \<le> r400" "r400 < 146097"
    by (simp_all add: q)
  have r400': "r400 = 36524 * n100 + r100" and r100: "0 \<le> r100" "r100 < 36524"
    by (simp_all add: c)
  have r100': "r100 = 1461 * n4 + r4" and r4: "0 \<le> r4" "r4 < 1461"
    by (simp_all add: f)
  have r4': "r4 = 365 * n1 + r1" and r1: "0 \<le> r1" "r1 < 365"
    by (simp_all add: o)
  have b: "0 \<le> n100" "n100 \<le> 4" "0 \<le> n4" "n4 \<le> 24" "0 \<le> n1" "n1 \<le> 4"
    using r400 r400' r100 r100' r4 r4' r1 by linarith+
  define p where "p = 400 * n400 + 100 * n100 + 4 * n4 + n1"
  have yr: "(y, r) = (if n1 = 4 \<or> n100 = 4 then (p, 365) else (p + 1, r1))"
    by (simp add: assms [symmetric] year_and_rest_def Let_def n_def q c f o p_def)
  show "days_before_year y + r + 1 = ord" "0 \<le> r" "r < sum_list (month_lengths y)"
  proof -
    have "days_before_year y + r = n \<and> 0 \<le> r \<and> r < sum_list (month_lengths y)"
    proof (cases "n1 = 4 \<or> n100 = 4")
      case False
      then have n1: "n1 \<le> 3" and n100: "n100 \<le> 3" using b by linarith+
      have d4: "p div 4 = 100 * n400 + 25 * n100 + n4"
        by (rule int_div_pos_eq [where r = n1]) (use n1 b p_def in auto)
      have d100: "p div 100 = 4 * n400 + n100"
        by (rule int_div_pos_eq [where r = "4 * n4 + n1"]) (use n1 b p_def in auto)
      have d400: "p div 400 = n400"
        by (rule int_div_pos_eq [where r = "100 * n100 + 4 * n4 + n1"]) (use n1 n100 b p_def in auto)
      have "days_before_year (p + 1) = 365 * p + (100 * n400 + 25 * n100 + n4) - (4 * n400 + n100) + n400"
        by (simp add: days_before_year_def d4 d100 d400)
      then have "days_before_year (p + 1) + r1 = n"
        using p_def n r400' r100' r4' by linarith
      then show ?thesis using False yr r1 by (simp add: month_lengths_def)
    next
      case True
      then have y: "y = p" and r: "r = 365" using yr by auto
      have "days_before_year p + 365 = n \<and> is_leap p"
      proof (cases "n100 = 4")
        case True
        then have z: "r100 = 0" "n4 = 0" "n1 = 0" "r1 = 0"
          using r400 r400' r100 r100' r4 r4' r1 b by linarith+
        then have p: "p = 400 * n400 + 400" using True by (simp add: p_def)
        have "(p - 1) div 4 = 100 * n400 + 99"
          by (rule int_div_pos_eq [where r = 3]) (use p in auto)
        moreover have "(p - 1) div 100 = 4 * n400 + 3"
          by (rule int_div_pos_eq [where r = 99]) (use p in auto)
        moreover have "(p - 1) div 400 = n400"
          by (rule int_div_pos_eq [where r = 399]) (use p in auto)
        ultimately have "days_before_year p + 365 = n"
          using p n r400' True z by (simp add: days_before_year_def Let_def)
        moreover have "is_leap p" using p by (simp add: is_leap_def)
        ultimately show ?thesis ..
      next
        case False
        then have n1: "n1 = 4" and n100: "n100 \<le> 3" using True b by auto
        then have r1': "r1 = 0" using r4' r4 r1 by linarith
        have n4: "n4 \<le> 23" using n1 r100' r100 r4' r1 b by linarith
        have d4: "(p - 1) div 4 = 100 * n400 + 25 * n100 + n4"
          by (rule int_div_pos_eq [where r = 3]) (use n1 p_def in auto)
        have d100: "(p - 1) div 100 = 4 * n400 + n100"
          by (rule int_div_pos_eq [where r = "4 * n4 + 3"]) (use n1 n4 b p_def in auto)
        have d400: "(p - 1) div 400 = n400"
          by (rule int_div_pos_eq [where r = "100 * n100 + 4 * n4 + 3"]) (use n1 n100 n4 b p_def in auto)
        note d = d4 d100 d400
        have "days_before_year p
            = 365 * (p - 1) + (100 * n400 + 25 * n100 + n4) - (4 * n400 + n100) + n400"
          by (simp add: days_before_year_def d)
        also have "365 * (p - 1) = 146000 * n400 + 36500 * n100 + 1460 * n4 + 1095"
          by (simp add: p_def n1)
        finally have "days_before_year p + 365 = n"
          using n r400' r100' r4' r1' n1 by simp
        moreover have "p mod 4 = 0"
          by (rule int_mod_pos_eq [where q = "100 * n400 + 25 * n100 + n4 + 1"]) (use n1 p_def in auto)
        moreover have "p mod 100 = 4 * n4 + 4"
          by (rule int_mod_pos_eq [where q = "4 * n400 + n100"]) (use n1 n4 b p_def in auto)
        then have "p mod 100 \<noteq> 0" using b by linarith
        ultimately show ?thesis by (simp add: is_leap_def)
      qed
      then show ?thesis using y r by (simp add: month_lengths_def)
    qed
    then show "days_before_year y + r + 1 = ord" "0 \<le> r" "r < sum_list (month_lengths y)"
      by (auto simp: n_def)
  qed
qed

lemma split_month_sum:
  assumes "split_month ls m n = (m', d)" "0 \<le> n" "n < sum_list ls"
  shows "\<exists>k < length ls. m' = m + int k \<and> sum_list (take k ls) + d = n + 1 \<and> 1 \<le> d \<and> d \<le> ls ! k"
  using assms
proof (induction ls m n rule: split_month.induct)
  case (2 l ls m n)
  show ?case
  proof (cases "n < l")
    case True
    with 2 show ?thesis by (intro exI [of _ 0]) auto
  next
    case False
    with 2 obtain k where "k < length ls" "m' = m + 1 + int k"
      "sum_list (take k ls) + d = n - l + 1" "1 \<le> d" "d \<le> ls ! k"
      by auto
    then show ?thesis by (intro exI [of _ "Suc k"]) auto
  qed
qed simp

lemma ymd_of_bounds:
  assumes "ymd_of ord = (y, m, d)"
  shows "1 \<le> m" "m \<le> 12" "1 \<le> d" "d \<le> days_in_month y m" "ordinal_of y m d = ord"
proof -
  obtain r where yr: "year_and_rest ord = (y, r)" and md: "split_month (month_lengths y) 1 r = (m, d)"
    using assms by (auto simp: ymd_of_def Let_def split: prod.splits)
  note sum = year_and_rest_sum [OF yr]
  obtain k where k: "k < length (month_lengths y)" "m = 1 + int k"
      "sum_list (take k (month_lengths y)) + d = r + 1" "1 \<le> d" "d \<le> month_lengths y ! k"
    using split_month_sum [OF md sum(2,3)] by blast
  then show "1 \<le> m" "m \<le> 12" "1 \<le> d" "d \<le> days_in_month y m"
    by (simp_all add: days_in_month_def month_lengths_def)
  show "ordinal_of y m d = ord"
    using k sum(1) by (simp add: ordinal_of_def days_before_month_def)
qed

lemma days_before_year_mono: "a \<le> b \<Longrightarrow> days_before_year a \<le> days_before_year b"
proof -
  assume "a \<le> b"
  then have "(a - 1) div 4 \<le> (b - 1) div 4" "(a - 1) div 400 \<le> (b - 1) div 400"
    "(b - 1) div 100 - (a - 1) div 100 \<le> b - a"
    by (simp_all add: zdiv_mono1)
  with \<open>a \<le> b\<close> show ?thesis by (simp add: days_before_year_def Let_def)
qed

lemma ymd_of_year_bounds:
  assumes "ymd_of ord = (y, m, d)" "1 \<le> ord" "ord \<le> max_ordinal"
  shows "1 \<le> y" "y \<le> 9999"
proof -
  obtain r where yr: "year_and_rest ord = (y, r)"
    using assms(1) by (auto simp: ymd_of_def Let_def split: prod.splits)
  note sum = year_and_rest_sum [OF yr]
  have "sum_list (month_lengths y) \<le> 366" by (simp add: month_lengths_def)
  show "1 \<le> y"
  proof (rule ccontr)
    assume "\<not> 1 \<le> y"
    then have le: "y \<le> 0" by simp
    show False
    proof (cases "y = 0")
      case True
      have "days_before_year 0 = -366" "is_leap 0" by (simp_all add: days_before_year_def is_leap_def)
      with True sum assms(2) show False by (simp add: month_lengths_def)
    next
      case False
      with le have "days_before_year y \<le> days_before_year (-1)" by (intro days_before_year_mono) simp
      also have "\<dots> = -731" by (simp add: days_before_year_def)
      finally show False using sum assms(2) \<open>sum_list (month_lengths y) \<le> 366\<close> by linarith
    qed
  qed
  show "y \<le> 9999"
  proof (rule ccontr)
    assume "\<not> y \<le> 9999"
    then have "days_before_year 10000 \<le> days_before_year y" by (intro days_before_year_mono) simp
    moreover have "days_before_year 10000 = 3652059" by (simp add: days_before_year_def)
    ultimately show False using sum assms(3) by (simp add: max_ordinal_def)
  qed
qed

section \<open>ISO text\<close>

definition isoformat :: "date \<Rightarrow> string" where
  "isoformat ord =
     (case ymd_of ord of (y, m, d) \<Rightarrow> zero_pad 4 y @ ''-'' @ zero_pad 2 m @ ''-'' @ zero_pad 2 d)"

definition fromisoformat :: "string \<Rightarrow> date option" where
  "fromisoformat s =
     (let ys = take 4 s; ms = take 2 (drop 5 s); ds = drop 8 s;
          y = int (digits_val ys); m = int (digits_val ms); d = int (digits_val ds)
      in if length s = 10 \<and> s ! 4 = CHR ''-'' \<and> s ! 7 = CHR ''-''
            \<and> list_all is_digit ys \<and> list_all is_digit ms \<and> list_all is_digit ds
            \<and> 1 \<le> y \<and> 1 \<le> m \<and> m \<le> 12 \<and> 1 \<le> d \<and> d \<le> days_in_month y m
         then Some (ordinal_of y m d) else None)"

lemma days_in_month_le: "1 \<le> m \<Longrightarrow> m \<le> 12 \<Longrightarrow> days_in_month y m \<le> 31"
proof -
  assume "1 \<le> m" "m \<le> 12"
  then have "nat (m - 1) < length (month_lengths y)" by (simp add: month_lengths_def)
  then have "days_in_month y m \<in> set (month_lengths y)"
    unfolding days_in_month_def by (rule nth_mem)
  then show ?thesis by (auto simp: month_lengths_def split: if_splits)
qed

lemma iso_parts:
  assumes "length ys = 4" "length ms = 2" "length ds = 2"
  shows "length (ys @ ''-'' @ ms @ ''-'' @ ds) = 10"
    "(ys @ ''-'' @ ms @ ''-'' @ ds) ! 4 = CHR ''-''" "(ys @ ''-'' @ ms @ ''-'' @ ds) ! 7 = CHR ''-''"
    "take 4 (ys @ ''-'' @ ms @ ''-'' @ ds) = ys" "take 2 (drop 5 (ys @ ''-'' @ ms @ ''-'' @ ds)) = ms"
    "drop 8 (ys @ ''-'' @ ms @ ''-'' @ ds) = ds"
  using assms by (simp_all add: nth_append)

lemma fromisoformat_isoformat:
  assumes "1 \<le> ord" "ord \<le> max_ordinal"
  shows "fromisoformat (isoformat ord) = Some ord"
proof -
  obtain y m d where ymd: "ymd_of ord = (y, m, d)" by (metis prod_cases3)
  note b = ymd_of_bounds [OF ymd] and yb = ymd_of_year_bounds [OF ymd assms]
  have d31: "d \<le> 31" using days_in_month_le [OF b(1,2), of y] b(4) by linarith
  have py: "length (zero_pad 4 y) = 4" "list_all is_digit (zero_pad 4 y)" "digits_val (zero_pad 4 y) = nat y"
    using yb by (intro zero_pad_nat; simp)+
  have pm: "length (zero_pad 2 m) = 2" "list_all is_digit (zero_pad 2 m)" "digits_val (zero_pad 2 m) = nat m"
    using b by (intro zero_pad_nat; simp)+
  have pd: "length (zero_pad 2 d) = 2" "list_all is_digit (zero_pad 2 d)" "digits_val (zero_pad 2 d) = nat d"
    using b d31 by (intro zero_pad_nat; simp)+
  have "isoformat ord = zero_pad 4 y @ ''-'' @ zero_pad 2 m @ ''-'' @ zero_pad 2 d"
    by (simp add: isoformat_def ymd)
  then show ?thesis
    using iso_parts [OF py(1) pm(1) pd(1)] py pm pd b yb by (simp add: fromisoformat_def) linarith
qed

lemma isoformat_inj:
  "1 \<le> a \<Longrightarrow> a \<le> max_ordinal \<Longrightarrow> 1 \<le> b \<Longrightarrow> b \<le> max_ordinal \<Longrightarrow>
   isoformat a = isoformat b \<longleftrightarrow> a = b"
  by (metis fromisoformat_isoformat option.inject)

section \<open>Weeks\<close>

definition isoweekday :: "date \<Rightarrow> int" where
  "isoweekday ord = (ord - 1) mod 7 + 1"

definition iso_thursday :: "date \<Rightarrow> date" where
  "iso_thursday ord = ord - isoweekday ord + 4"

definition isocalendar :: "date \<Rightarrow> int \<times> int \<times> int" where
  "isocalendar ord =
     (let th = iso_thursday ord; y = fst (ymd_of th)
      in (y, (th - ordinal_of y 1 1) div 7 + 1, isoweekday ord))"

lemma isoweekday_bounds: "1 \<le> isoweekday d" "isoweekday d \<le> 7"
  by (simp_all add: isoweekday_def)

lemma iso_thursday_monday:
  assumes "(monday - 1) mod 7 = 0" "0 \<le> k" "k < 7"
  shows "iso_thursday (monday + k) = monday + 3" "isoweekday (monday + k) = k + 1"
proof -
  have "(monday + k - 1) mod 7 = k"
    using assms by presburger
  then show "isoweekday (monday + k) = k + 1" by (simp add: isoweekday_def)
  then show "iso_thursday (monday + k) = monday + 3" by (simp add: iso_thursday_def)
qed

end
