(* ===== verification/BulkIngest.thy ===== *)
theory BulkIngest
  imports CatalogLoad StateStore PyDate Batches Storage
begin

text \<open>
  \<open>fakeforce/bulk/ingest.py\<close>: validation of a job's creation, the upload store, and the worker
  that applies an uploaded CSV file to a mutable table in batches. A batch is one database
  transaction over the table, the row results and the checkpoints. The environment record
  holds what is not this program's: digests, the parsers of floating point and timestamp
  texts and the wording of their errors, and which rows the table's column types accept.
\<close>

section \<open>Creation\<close>

datatype ingest_validation =
  IngestInvalid string string
| IngestUnhashable

record ingest_configuration =
  ic_object_name :: string
  ic_operation :: string
  ic_content_type :: string
  ic_line_ending :: string
  ic_column_delimiter :: string

definition one_of :: "json \<Rightarrow> string list \<Rightarrow> ingest_validation \<Rightarrow> ingest_validation + string" where
  "one_of v allowed e =
     (case v of
        JStr s \<Rightarrow> if s \<in> set allowed then Ok s else Err e
      | JList _ \<Rightarrow> Err IngestUnhashable
      | JObj _ \<Rightarrow> Err IngestUnhashable
      | _ \<Rightarrow> Err e)"

definition validate_ingest_create ::
  "(string \<times> json) list \<Rightarrow> catalog \<Rightarrow> ingest_validation + ingest_configuration" where
  "validate_ingest_create payload c =
     (let invalid = IngestInvalid ''INVALIDJOB'' in
      case jget ''object'' payload of
        JStr object_name \<Rightarrow>
          if object_name = [] then Err (invalid ''Bulk ingest jobs require an object'')
          else
            (case catalog_get object_name c of
               None \<Rightarrow> Err (IngestInvalid ''NOT_FOUND'' (''Unknown configured object: '' @ object_name))
             | Some s \<Rightarrow>
                 if ds_mode s \<noteq> ''mutable'' then Err (invalid (object_name @ '' is not configured for ingest''))
                 else if jget ''operation'' payload \<noteq> JStr ''insert'' then
                   Err (invalid ''only insert ingest operation is currently supported'')
                 else if jget_or ''contentType'' (JStr ''CSV'') payload \<noteq> JStr ''CSV'' then
                   Err (invalid ''only CSV ingest content is currently supported'')
                 else
                   rbind (one_of (jget_or ''lineEnding'' (JStr ''LF'') payload) [''LF'', ''CRLF'']
                            (invalid ''unsupported CSV line ending'')) (\<lambda>le.
                   rbind (one_of (jget_or ''columnDelimiter'' (JStr ''COMMA'') payload)
                            [''COMMA'', ''TAB'', ''PIPE'', ''SEMICOLON''] (invalid ''unsupported CSV column delimiter'')) (\<lambda>cd.
                     Ok \<lparr>ic_object_name = object_name, ic_operation = ''insert'', ic_content_type = ''CSV'',
                         ic_line_ending = le, ic_column_delimiter = cd\<rparr>)))
      | _ \<Rightarrow> Err (invalid ''Bulk ingest jobs require an object''))"

section \<open>Uploads\<close>

datatype ingest_error =
  IngestNoJob string
| IngestNotReady string
| IngestFileError string
| IngestUploadTooLarge int
| IngestEscapesRoot
| IngestDiskReserve
| IngestDatabase string
| IngestInterrupted
| IngestStore store_error

definition upload_path :: "(path \<Rightarrow> path) \<Rightarrow> path \<Rightarrow> string \<Rightarrow> ingest_error + path" where
  "upload_path resolve base job_id =
     (let r = resolve base; p = resolve (join_path r (posix_parts job_id) @ [''input.csv'']) in
      if \<not> (path_under p r \<and> p \<noteq> r) then Err IngestEscapesRoot else Ok p)"

text \<open>The chunks written to the private file before the stream ends or exceeds the limit.\<close>

fun upload_chunks :: "int \<Rightarrow> int \<Rightarrow> string list \<Rightarrow> string list \<times> int option" where
  "upload_chunks max_bytes written [] = ([], Some written)"
| "upload_chunks max_bytes written (c # cs) =
     (let total = written + int (length c) in
      if total > max_bytes then ([], None)
      else (case upload_chunks max_bytes total cs of (kept, r) \<Rightarrow> (c # kept, r)))"

definition write_upload ::
  "(path \<Rightarrow> path) \<Rightarrow> path \<Rightarrow> bool \<Rightarrow> path \<Rightarrow> string \<Rightarrow> string list \<Rightarrow> int \<Rightarrow> string fs
   \<Rightarrow> (ingest_error + int) \<times> string fs" where
  "write_upload resolve base reserve_ok tmp job_id chunks max_bytes f =
     (case upload_path resolve base job_id of
        Err e \<Rightarrow> (Err e, f)
      | Ok p \<Rightarrow>
          if \<not> reserve_ok then (Err IngestDiskReserve, f)
          else
            (case upload_chunks max_bytes 0 chunks of
               (kept, None) \<Rightarrow> (Err (IngestUploadTooLarge max_bytes), fs_run (atomic_write_failed_ops tmp p kept) f)
             | (kept, Some written) \<Rightarrow> (Ok written, fs_run (atomic_write_ops tmp p kept) f)))"

definition remove_upload ::
  "(path \<Rightarrow> path) \<Rightarrow> path \<Rightarrow> string \<Rightarrow> 'c fs \<Rightarrow> ingest_error + 'c fs" where
  "remove_upload resolve base job_id f =
     rbind (upload_path resolve base job_id) (\<lambda>p.
       Ok (\<lambda>q. if path_under q (path_parent p) then None else f q))"

section \<open>Rows\<close>

record ingest_env =
  ie_catalog :: catalog
  ie_resolve :: "path \<Rightarrow> path"
  ie_root :: path
  ie_batch_records :: nat
  ie_sha1 :: "string \<Rightarrow> string"
  ie_parse_float :: "string \<Rightarrow> sql_value option"
  ie_parse_timestamp :: "string \<Rightarrow> sql_value option"
  ie_conversion_error :: "arrow_type \<Rightarrow> string \<Rightarrow> string"
  ie_accepts :: "string \<Rightarrow> sql_row \<Rightarrow> bool"

record row_outcome =
  ro_csv_row :: int
  ro_status :: string
  ro_record_id :: "string option"
  ro_error :: "string option"
  ro_source :: "(string, string option) dict"
  ro_values :: "sql_value list option"

definition generated_id :: "ingest_env \<Rightarrow> string \<Rightarrow> int \<Rightarrow> string" where
  "generated_id env job_id n = ''001'' @ take 15 (ie_sha1 env (job_id @ '':'' @ int_str n))"

definition coerce :: "ingest_env \<Rightarrow> string \<times> arrow_type \<Rightarrow> string option \<Rightarrow> string + sql_value" where
  "coerce env fld v =
     (case fld of (n, t) \<Rightarrow>
       (case v of
          None \<Rightarrow> Ok (if n = ''IsDeleted'' then BoolV False else NullV)
        | Some s \<Rightarrow>
            if s = [] then Ok (if n = ''IsDeleted'' then BoolV False else NullV)
            else
              (let failed = (\<lambda>m. Err (n @ '': '' @ m));
                   convert = (\<lambda>r. case r of None \<Rightarrow> failed (ie_conversion_error env t s) | Some x \<Rightarrow> Ok x) in
               case t of
                 ArrowBool \<Rightarrow>
                   if str_lower s \<in> {''true'', ''1''} then Ok (BoolV True)
                   else if str_lower s \<in> {''false'', ''0''} then Ok (BoolV False)
                   else failed ''must be a boolean''
               | ArrowInt \<Rightarrow> convert (map_option IntV (py_int s))
               | ArrowFloat \<Rightarrow> convert (ie_parse_float env s)
               | ArrowDate \<Rightarrow> convert (map_option DateV (fromisoformat s))
               | ArrowTimestamp _ \<Rightarrow> convert (ie_parse_timestamp env (replace_chr (CHR ''Z'') ''+00:00'' s))
               | _ \<Rightarrow> Ok (TextV s))))"

definition prepare_row ::
  "ingest_env \<Rightarrow> string \<Rightarrow> int \<Rightarrow> (string, string option) dict \<Rightarrow> dataset_spec \<Rightarrow> row_outcome" where
  "prepare_row env job_id n row s =
     (let given = or_empty (dict_get_or row (ds_id_field s) None);
          rid = (if given = [] then generated_id env job_id n else given) in
      case rmap (\<lambda>fld. if fst fld = ds_id_field s then Ok (TextV rid)
                      else coerce env fld (dict_get_or row (fst fld) None)) (ds_schema s) of
        Err e \<Rightarrow> \<lparr>ro_csv_row = n, ro_status = ''failed'', ro_record_id = None, ro_error = Some e,
                  ro_source = row, ro_values = None\<rparr>
      | Ok vs \<Rightarrow> \<lparr>ro_csv_row = n, ro_status = ''success'', ro_record_id = Some rid, ro_error = None,
                  ro_source = row, ro_values = Some vs\<rparr>)"

definition as_duplicate :: "row_outcome \<Rightarrow> row_outcome" where
  "as_duplicate r = r\<lparr>ro_status := ''failed'', ro_error := Some ''DUPLICATE_VALUE: Id already exists'', ro_values := None\<rparr>"

section \<open>Batches\<close>

record ingest_world =
  iw_store :: store
  iw_tables :: "string \<Rightarrow> sql_row list"
  iw_files :: "string fs"

definition id_of :: "row_outcome \<Rightarrow> string" where
  "id_of r = or_empty (ro_record_id r)"

text \<open>Ids that occur twice among the valid rows of a batch: the loop with its two sets.\<close>

fun repeated_ids :: "string list \<Rightarrow> string list \<Rightarrow> string list" where
  "repeated_ids seen [] = []"
| "repeated_ids seen (i # is) =
     (if i \<in> set seen then i # repeated_ids (i # seen) is else repeated_ids (i # seen) is)"

definition table_ids :: "dataset_spec \<Rightarrow> sql_row list \<Rightarrow> sql_value list" where
  "table_ids s rows = map (col (ds_id_field s)) rows"

definition batch_outcomes ::
  "ingest_env \<Rightarrow> string \<Rightarrow> dataset_spec \<Rightarrow> (int \<times> (string, string option) dict) list \<Rightarrow> ingest_world \<Rightarrow> row_outcome list" where
  "batch_outcomes env job_id s batch w =
     (let outcomes = map (\<lambda>(n, row). prepare_row env job_id n row s) batch;
          valid = filter (\<lambda>r. ro_values r \<noteq> None) outcomes;
          duplicates = repeated_ids [] (map id_of valid);
          ids = filter (\<lambda>i. i \<notin> set duplicates) (map id_of valid);
          existing = filter (\<lambda>i. TextV i \<in> set (table_ids s (iw_tables w (ds_object_name s)))) ids in
      if valid = [] then outcomes
      else map (\<lambda>r. if ro_record_id r \<in> Some ` (set duplicates \<union> set existing) then as_duplicate r else r) outcomes)"

definition is_success :: "row_outcome \<Rightarrow> bool" where
  "is_success r \<longleftrightarrow> ro_status r = ''success''"

definition insert_row ::
  "ingest_env \<Rightarrow> dataset_spec \<Rightarrow> sql_value list \<Rightarrow> (ingest_world, ingest_error, unit) eff" where
  "insert_row env s vs w =
     (let row = zip (map fst (ds_schema s)) vs; t = ds_object_name s in
      if \<not> ie_accepts env t row then (Err (IngestDatabase ''conversion''), w)
      else if col (ds_id_field s) row \<in> set (table_ids s (iw_tables w t)) then (Err (IngestDatabase ''unique index''), w)
      else (Ok (), w\<lparr>iw_tables := (iw_tables w)(t := iw_tables w t @ [row])\<rparr>))"

definition result_of :: "string \<Rightarrow> row_outcome \<Rightarrow> result_row" where
  "result_of job_id r =
     \<lparr>rr_job_id = job_id, rr_csv_row = ro_csv_row r, rr_status = ro_status r, rr_record_id = ro_record_id r,
      rr_error = ro_error r, rr_source = sort_dict (ro_source r)\<rparr>"

definition result_key :: "result_row \<Rightarrow> string \<times> int" where
  "result_key r = (rr_job_id r, rr_csv_row r)"

definition insert_result :: "string \<Rightarrow> row_outcome \<Rightarrow> (ingest_world, ingest_error, unit) eff" where
  "insert_result job_id r w =
     (let row = result_of job_id r; st = iw_store w in
      if result_key row \<in> set (map result_key (st_results st)) then (Err (IngestDatabase ''primary key''), w)
      else (Ok (), w\<lparr>iw_store := st\<lparr>st_results := st_results st @ [row]\<rparr>\<rparr>))"

definition commit_outcome ::
  "ingest_env \<Rightarrow> string \<Rightarrow> dataset_spec \<Rightarrow> row_outcome \<Rightarrow> (ingest_world, ingest_error, unit) eff" where
  "commit_outcome env job_id s r =
     ebind (case ro_values r of None \<Rightarrow> eret () | Some vs \<Rightarrow> insert_row env s vs) (\<lambda>_. insert_result job_id r)"

definition add_checkpoint ::
  "timestamp \<Rightarrow> string \<Rightarrow> int \<Rightarrow> int \<Rightarrow> int \<Rightarrow> int \<Rightarrow> (ingest_world, ingest_error, unit) eff" where
  "add_checkpoint now job_id processed failed input_bytes row_number =
     emodify (\<lambda>w. w\<lparr>iw_store :=
       snd (add_job_checkpoint now job_id processed input_bytes None failed (Some row_number) (iw_store w))\<rparr>)"

definition commit_batch ::
  "timestamp \<Rightarrow> ingest_env \<Rightarrow> string \<Rightarrow> dataset_spec \<Rightarrow> row_outcome list \<Rightarrow> int \<Rightarrow> int \<Rightarrow> int
   \<Rightarrow> (ingest_world, ingest_error, unit) eff" where
  "commit_batch now env job_id s outcomes processed failed input_bytes =
     (let succeeded = int (length (filter is_success outcomes)) in
      transaction
        (ebind (efor outcomes (commit_outcome env job_id s)) (\<lambda>_.
           add_checkpoint now job_id (processed + succeeded) (failed + int (length outcomes) - succeeded)
             input_bytes (ro_csv_row (last outcomes)))))"

definition apply_batch ::
  "timestamp \<Rightarrow> ingest_env \<Rightarrow> string \<Rightarrow> dataset_spec \<Rightarrow> (int \<times> (string, string option) dict) list
   \<Rightarrow> int \<Rightarrow> int \<Rightarrow> int \<Rightarrow> (ingest_world, ingest_error, int \<times> int) eff" where
  "apply_batch now env job_id s batch processed failed input_bytes w =
     (let outcomes = batch_outcomes env job_id s batch w;
          succeeded = int (length (filter is_success outcomes)) in
      ebind (commit_batch now env job_id s outcomes processed failed input_bytes)
        (\<lambda>_. eret (processed + succeeded, failed + int (length outcomes) - succeeded)) w)"

section \<open>Streaming\<close>

text \<open>
  \<open>csv.DictReader\<close>: the field names are the first record, blank records are skipped, a short
  record lacks values and a long one has extra values, which the flag tells.
\<close>

definition dict_row :: "string list \<Rightarrow> string list \<Rightarrow> (string, string option) dict \<times> bool" where
  "dict_row names vals =
     (dict_update (dict_of_pairs (zip names (map Some vals))) (map (\<lambda>n. (n, None)) (drop (length vals) names)),
      length vals > length names)"

definition dict_rows :: "string list \<Rightarrow> string list list \<Rightarrow> (int \<times> (string, string option) dict \<times> bool) list" where
  "dict_rows names records =
     map (\<lambda>(n, r). (int n, dict_row names r)) (enumerate_from 1 (filter (\<lambda>r. r \<noteq> []) records))"

definition validate_header :: "string list \<Rightarrow> string list \<Rightarrow> ingest_error + unit" where
  "validate_header names schema_fields =
     (if names = [] \<or> [] \<in> set names then Err (IngestFileError ''CSV upload must have a valid header'')
      else (case sorted_set (filter (\<lambda>n. n \<notin> set schema_fields) names) of
              [] \<Rightarrow> Ok ()
            | unknown \<Rightarrow> Err (IngestFileError (''CSV header has unknown fields: '' @ join_with '', '' unknown))))"

text \<open>The batches a run will apply, and the error it then raises by itself, if any.\<close>

definition pending_batches ::
  "nat \<Rightarrow> int \<Rightarrow> (int \<times> (string, string option) dict \<times> bool) list
   \<Rightarrow> (int \<times> (string, string option) dict) list list \<times> ingest_error option" where
  "pending_batches limit done rows =
     (let todo = filter (\<lambda>(n, _). n > done) rows;
          good = map (\<lambda>(n, r, _). (n, r)) (takeWhile (\<lambda>(_, _, extra). \<not> extra) todo) in
      case dropWhile (\<lambda>(_, _, extra). \<not> extra) todo of
        [] \<Rightarrow> (flushed limit good, None)
      | (n, _) # _ \<Rightarrow> (fst (batches limit [] good),
          Some (IngestFileError (''row '' @ int_str n @ '' has more values than the CSV header''))))"

definition ingest_source ::
  "ingest_env \<Rightarrow> string \<Rightarrow> string \<Rightarrow> ingest_world
   \<Rightarrow> ingest_error + dataset_spec \<times> int \<times> (int \<times> (string, string option) dict \<times> bool) list" where
  "ingest_source env job_id object_name w =
     (case catalog_get object_name (ie_catalog env) of
        None \<Rightarrow> Err (IngestFileError (object_name @ '' is not configured for ingest''))
      | Some s \<Rightarrow>
          if ds_mode s \<noteq> ''mutable'' then Err (IngestFileError (object_name @ '' is not configured for ingest''))
          else rbind (upload_path (ie_resolve env) (ie_root env) job_id) (\<lambda>p.
            case iw_files w p of
              None \<Rightarrow> Err (IngestFileError ''CSV upload is missing'')
            | Some t \<Rightarrow>
                (case csv_read t of
                   None \<Rightarrow> Err (IngestDatabase ''csv'')
                 | Some records \<Rightarrow>
                     (let names = (case records of [] \<Rightarrow> [] | r # _ \<Rightarrow> r) in
                      rbind (validate_header names (schema_names (ds_schema s))) (\<lambda>_.
                        Ok (s, int (length t), dict_rows names (tl records)))))))"

fun apply_batches ::
  "timestamp \<Rightarrow> ingest_env \<Rightarrow> string \<Rightarrow> dataset_spec \<Rightarrow> int \<Rightarrow> (int \<times> (string, string option) dict) list list
   \<Rightarrow> int \<Rightarrow> int \<Rightarrow> (ingest_world, ingest_error, int \<times> int) eff" where
  "apply_batches now env job_id s bytes [] processed failed = eret (processed, failed)"
| "apply_batches now env job_id s bytes (b # bs) processed failed =
     ebind (apply_batch now env job_id s b processed failed bytes)
       (\<lambda>(p, f). apply_batches now env job_id s bytes bs p f)"

section \<open>Running a job\<close>

record ingest_result =
  ir_job_id :: string
  ir_processed :: int
  ir_failed :: int

datatype ingest_end = IngestReturned ingest_result | IngestRaised ingest_error | IngestKilled

datatype ingest_fault = NoIngestFault | KilledAfterBatches nat

definition end_ingest ::
  "timestamp \<Rightarrow> string \<Rightarrow> bulk_job_state \<Rightarrow> string option \<Rightarrow> string option \<Rightarrow> ingest_end \<Rightarrow> ingest_world
   \<Rightarrow> ingest_end \<times> ingest_world" where
  "end_ingest now job_id st code msg ending w =
     (case transition_job now job_id st code msg (iw_store w) of
        (Err e, t) \<Rightarrow> (IngestRaised (IngestStore e), w\<lparr>iw_store := t\<rparr>)
      | (Ok _, t) \<Rightarrow> (ending, w\<lparr>iw_store := t\<rparr>))"

definition fail_ingest :: "timestamp \<Rightarrow> string \<Rightarrow> ingest_error \<Rightarrow> ingest_world \<Rightarrow> ingest_end \<times> ingest_world" where
  "fail_ingest now job_id e w =
     (case e of
        IngestFileError m \<Rightarrow> end_ingest now job_id FAILED (Some ''INVALID_CSV'') (Some m) (IngestRaised e) w
      | _ \<Rightarrow> end_ingest now job_id FAILED (Some ''BULK_PROCESSING_ERROR'') (Some ''Bulk ingest processing failed'')
               (IngestRaised e) w)"

definition ingest_stream_run ::
  "timestamp \<Rightarrow> ingest_env \<Rightarrow> ingest_fault \<Rightarrow> string \<Rightarrow> string \<Rightarrow> ingest_world \<Rightarrow> ingest_end \<times> ingest_world" where
  "ingest_stream_run now env flt job_id object_name w =
     (case ingest_source env job_id object_name w of
        Err e \<Rightarrow> fail_ingest now job_id e w
      | Ok (s, bytes, rows) \<Rightarrow>
          (let progress = ingest_progress job_id (iw_store w) in
           case pending_batches (ie_batch_records env) (ip_csv_row progress) rows of
             (bs, bad) \<Rightarrow>
               (case apply_batches now env job_id s bytes
                       (case flt of NoIngestFault \<Rightarrow> bs | KilledAfterBatches k \<Rightarrow> take k bs)
                       (ip_processed progress) (ip_failed progress) w of
                  (Err e, u) \<Rightarrow> fail_ingest now job_id e u
                | (Ok (processed, failed), u) \<Rightarrow>
                    if flt \<noteq> NoIngestFault then (IngestKilled, u)
                    else (case bad of
                            Some e \<Rightarrow> fail_ingest now job_id e u
                          | None \<Rightarrow> end_ingest now job_id JOB_COMPLETE None None
                              (IngestReturned \<lparr>ir_job_id = job_id, ir_processed = processed, ir_failed = failed\<rparr>) u))))"

definition ingest_run ::
  "timestamp \<Rightarrow> ingest_env \<Rightarrow> ingest_fault \<Rightarrow> string \<Rightarrow> ingest_world \<Rightarrow> ingest_end \<times> ingest_world" where
  "ingest_run now env flt job_id w =
     (case get_job now job_id (iw_store w) of
        None \<Rightarrow> (IngestRaised (IngestNoJob job_id), w)
      | Some job \<Rightarrow>
          (case bj_object_name job of
             None \<Rightarrow> (IngestRaised (IngestNoJob job_id), w)
           | Some object_name \<Rightarrow>
               if bj_type job \<noteq> INGEST then (IngestRaised (IngestNoJob job_id), w)
               else if bj_state job = UPLOAD_COMPLETE then
                 (case transition_job now job_id IN_PROGRESS None None (iw_store w) of
                    (Err e, t) \<Rightarrow> (IngestRaised (IngestStore e), w\<lparr>iw_store := t\<rparr>)
                  | (Ok _, t) \<Rightarrow> ingest_stream_run now env flt job_id object_name (w\<lparr>iw_store := t\<rparr>))
               else if bj_state job \<noteq> IN_PROGRESS then (IngestRaised (IngestNotReady job_id), w)
               else ingest_stream_run now env flt job_id object_name w))"

end
