(* ===== verification/BulkIngestProps.thy ===== *)
theory BulkIngestProps
  imports BulkIngest JobControl
begin

text \<open>
  The bulk ingest worker: a run killed between batches and resumed, any number of times, ends
  exactly as an undisturbed run does; every row of the file gets exactly one outcome, and the
  ids of the table stay unique.
\<close>

section \<open>Progress\<close>

lemma next_number_above:
  assumes "c \<in> set cps" "cp_job_id c = j"
  shows "cp_number c < next_checkpoint_number j cps"
proof -
  have "cp_number c \<in> set (map cp_number (filter (\<lambda>c. cp_job_id c = j) cps))" using assms by auto
  moreover have "x < (case xs of [] \<Rightarrow> 0 | n # ns \<Rightarrow> fold max ns n + 1)" if "x \<in> set xs" for x :: int and xs
    using that fold_max_upper [of "hd xs" "tl xs"] fold_max_upper(2) [of x "tl xs" "hd xs"]
    by (cases xs) auto
  ultimately show ?thesis unfolding next_checkpoint_number_def by blast
qed

lemma progress_after_checkpoint:
  "ingest_progress j (snd (add_job_checkpoint now j p b a f r s))
     = \<lparr>ip_processed = p, ip_failed = f, ip_csv_row = (case r of None \<Rightarrow> 0 | Some n \<Rightarrow> n)\<rparr>"
proof -
  let ?new = "\<lparr>cp_job_id = j, cp_number = next_checkpoint_number j (st_checkpoints s), cp_csv_row = r,
    cp_processed = p, cp_failed = f, cp_bytes = b, cp_artifact = a, cp_committed_at = now\<rparr>"
  let ?old = "filter (\<lambda>c. cp_job_id c = j) (st_checkpoints s)"
  have "\<forall>c \<in> set ?old. cp_number c \<le> cp_number ?new" using next_number_above [of _ "st_checkpoints s" j] by force
  from sort_key_snoc [OF this] show ?thesis
    by (simp add: ingest_progress_def add_job_checkpoint_def emodify_def progress_of_def)
qed

section \<open>Frames\<close>

definition same_inputs :: "string fs \<Rightarrow> job_row list \<Rightarrow> ingest_world \<Rightarrow> bool" where
  "same_inputs F J w \<longleftrightarrow> iw_files w = F \<and> st_jobs (iw_store w) = J"

lemma commit_outcome_inputs [inv_intros]: "keeps (same_inputs F J) (commit_outcome env j s r)"
proof -
  have "keeps (same_inputs F J) (insert_row env s vs)" "keeps (same_inputs F J) (insert_result j r)" for vs
    by (simp_all add: keeps_def same_inputs_def insert_row_def insert_result_def Let_def)
  then show ?thesis unfolding commit_outcome_def by (auto intro!: inv_intros split: option.split)
qed

lemma add_checkpoint_inputs [inv_intros]: "keeps (same_inputs F J) (add_checkpoint now j p f b n)"
  by (auto simp: keeps_def same_inputs_def add_checkpoint_def add_job_checkpoint_def emodify_def)

lemma apply_batch_inputs: "keeps (same_inputs F J) (apply_batch now env j s b p f n)"
proof -
  have k: "keeps (same_inputs F J) (ebind (commit_batch now env j s os p f n) (\<lambda>_. eret x))" for os x
    unfolding commit_batch_def Let_def by (intro inv_intros)
  show ?thesis unfolding keeps_def apply_batch_def Let_def by (intro allI impI keeps_snd [OF k])
qed

lemma apply_batches_inputs: "keeps (same_inputs F J) (apply_batches now env j s n bs p f)"
proof (induction bs arbitrary: p f)
  case (Cons b bs)
  show ?case
    unfolding apply_batches.simps
    by (rule keeps_ebind [OF apply_batch_inputs]) (auto simp: Cons split: prod.split)
qed (simp add: inv_intros)

lemma apply_batches_append:
  "apply_batches now env j s n (as @ bs) p f w =
     ebind (apply_batches now env j s n as p f) (\<lambda>(p, f). apply_batches now env j s n bs p f) w"
proof (induction as arbitrary: p f w)
  case (Cons a as)
  show ?case
  proof (cases "apply_batch now env j s a p f n w")
    case (Pair r u)
    then show ?thesis by (cases r) (auto simp: ebind_def Cons split: prod.splits)
  qed
qed (simp add: ebind_def eret_def)

section \<open>Progress after a batch\<close>

lemma batch_outcome_rows: "map ro_csv_row (batch_outcomes env j s b w) = map fst b"
  by (auto simp: batch_outcomes_def Let_def prepare_row_def as_duplicate_def split: sum.splits)

lemma apply_batch_progress:
  assumes "apply_batch now env j s b p f n w = (Ok (p', f'), u)" "b \<noteq> []"
  shows "ingest_progress j (iw_store u) = \<lparr>ip_processed = p', ip_failed = f', ip_csv_row = fst (last b)\<rparr>"
proof -
  let ?os = "batch_outcomes env j s b w"
  have rows: "?os \<noteq> []" "ro_csv_row (last ?os) = fst (last b)"
    using batch_outcome_rows [of env j s b w] assms(2) by (metis map_is_Nil_conv, metis last_map map_is_Nil_conv)
  from assms(1) obtain v where
    "u = v\<lparr>iw_store := snd (add_job_checkpoint now j p' n None f' (Some (fst (last b))) (iw_store v))\<rparr>"
    unfolding apply_batch_def Let_def commit_batch_def
    by (auto simp: ebind_eq_Inr transaction_Inr eret_def add_checkpoint_def emodify_def rows)
  then show ?thesis by (simp add: progress_after_checkpoint)
qed

lemma apply_batches_progress:
  "apply_batches now env j s n bs p f w = (Ok (p', f'), u) \<Longrightarrow> [] \<notin> set bs \<Longrightarrow> bs \<noteq> [] \<Longrightarrow>
   ingest_progress j (iw_store u) = \<lparr>ip_processed = p', ip_failed = f', ip_csv_row = fst (last (last bs))\<rparr>"
proof (induction bs arbitrary: p f w)
  case (Cons b bs)
  then show ?case
    by (cases "bs = []") (auto simp: ebind_eq_Inr eret_def dest: apply_batch_progress)
qed simp

section \<open>Resuming\<close>

lemma filter_above_last:
  assumes "sorted_wrt (<) (map fst (xs @ ys))" "xs \<noteq> []"
  shows "filter (\<lambda>(n, _). n > fst (last xs)) (xs @ ys) = (ys :: (int \<times> 'b) list)"
proof -
  have "\<forall>x \<in> set xs. fst x \<le> fst (last xs)"
  proof
    fix x assume "x \<in> set xs"
    then have "x = last xs \<or> x \<in> set (butlast xs)" using assms(2)
      by (metis append_butlast_last_id in_set_conv_decomp rotate1.simps(2) set_ConsD set_rotate1)
    moreover have "sorted_wrt (<) (map fst (butlast xs @ [last xs]))" using assms by (simp add: sorted_wrt_append)
    ultimately show "fst x \<le> fst (last xs)" by (auto simp: sorted_wrt_append)
  qed
  then have "filter (\<lambda>(n, _). n > fst (last xs)) xs = []" by (force simp: filter_empty_conv)
  moreover have "\<forall>y \<in> set ys. fst y > fst (last xs)" using assms by (force simp: sorted_wrt_append)
  then have "filter (\<lambda>(n, _). n > fst (last xs)) ys = ys" by (force simp: filter_id_conv)
  ultimately show ?thesis by simp
qed

lemma pending_split:
  "pending_batches n d rows =
     (let todo = filter (\<lambda>(i, _). i > d) rows;
          good = map (\<lambda>(i, r, _). (i, r)) (takeWhile (\<lambda>(_, _, extra). \<not> extra) todo);
          rest = dropWhile (\<lambda>(_, _, extra). \<not> extra) todo in
      (if rest = [] then flushed n good else fst (batches n [] good),
       case rest of [] \<Rightarrow> None | (i, _) # _ \<Rightarrow>
         Some (IngestFileError (''row '' @ int_str i @ '' has more values than the CSV header''))))"
  by (cases "dropWhile (\<lambda>(_, _, extra). \<not> extra) (filter (\<lambda>(i, _). i > d) rows)")
    (simp_all add: pending_batches_def Let_def split_def del: dropWhile_eq_Nil_conv)

lemma pending_resume:
  assumes rows: "sorted_wrt (<) (map fst rows)" and n: "0 < n"
    and p: "pending_batches n d rows = (bs, bad)" and k: "take k bs \<noteq> []"
  shows "pending_batches n (fst (last (last (take k bs)))) rows = (drop k bs, bad)" "[] \<notin> set bs"
proof -
  let ?ok = "\<lambda>(_, _, extra). \<not> (extra :: bool)"
  let ?strip = "map (\<lambda>(i, r, _). (i, r))"
  define todo where "todo = filter (\<lambda>(i, _). i > d) rows"
  define good where "good = takeWhile ?ok todo"
  define rest where "rest = dropWhile ?ok todo"
  have todo: "todo = good @ rest" by (simp add: good_def rest_def)
  have sorted: "sorted_wrt (<) (map fst (good @ rest))"
    using rows unfolding todo [symmetric] todo_def by (simp add: sorted_wrt_map sorted_wrt_filter)
  define cut where "cut = (\<lambda>xs :: (int \<times> (string, string option) dict) list.
      if rest = [] then flushed n xs else fst (batches n [] xs))"
  have bs: "bs = cut (?strip good)" "bad = (case rest of [] \<Rightarrow> None | (i, _) # _ \<Rightarrow>
      Some (IngestFileError (''row '' @ int_str i @ '' has more values than the CSV header'')))"
    using p unfolding pending_split Let_def cut_def todo_def good_def rest_def by blast+
  show ne: "[] \<notin> set bs"
    using flushed_bounds [OF n] full_bounds [OF n] unfolding bs(1) cut_def by (auto split: if_splits)
  obtain tl where "?strip good = concat bs @ tl"
    using concat_flushed [OF n, of "?strip good"] concat_full [OF n, of "?strip good"]
    unfolding bs(1) cut_def by (cases "rest = []") auto
  then have "?strip good = concat (take k bs) @ concat (drop k bs) @ tl"
    by (metis append.assoc append_take_drop_id concat_append)
  then obtain a b where ab: "good = a @ b" "?strip a = concat (take k bs)"
    by (metis (no_types, lifting) append_eq_map_conv)
  have last_ne: "last (take k bs) \<noteq> []" using ne k by (metis in_set_takeD last_in_set)
  then have "last (concat (take k bs)) = last (last (take k bs))"
    by (metis append_butlast_last_id concat.simps concat_append k last_appendR append_Nil2)
  moreover have a: "a \<noteq> []"
    using ab(2) last_ne k by (metis concat_eq_Nil_conv last_in_set list.map_disc_iff)
  ultimately have la: "fst (last (last (take k bs))) = fst (last a)"
    using ab(2) by (metis (no_types, lifting) case_prod_beta fst_conv last_map)
  have "filter (\<lambda>(i, _). i > fst (last a)) rows = filter (\<lambda>(i, _). i > fst (last a)) todo"
  proof -
    have "fst (last a) > d"
    proof -
      have "last a \<in> set todo" using a by (simp add: todo ab(1))
      then show ?thesis by (auto simp: todo_def)
    qed
    then show ?thesis by (auto simp: todo_def filter_filter intro!: filter_cong)
  qed
  also have "\<dots> = b @ rest"
    using filter_above_last [of a "b @ rest"] sorted a by (simp add: todo ab(1))
  finally have todo': "filter (\<lambda>(i, _). i > fst (last a)) rows = b @ rest" .
  have "\<forall>x \<in> set good. ?ok x" unfolding good_def by (metis set_takeWhileD)
  then have good_all: "\<forall>x \<in> set b. ?ok x" by (simp add: ab(1))
  have rest_hd: "rest \<noteq> [] \<Longrightarrow> \<not> ?ok (hd rest)" unfolding rest_def by (rule hd_dropWhile)
  have tw: "takeWhile ?ok (b @ rest) = b" "dropWhile ?ok (b @ rest) = rest"
    using good_all rest_hd by (cases rest; fastforce simp: takeWhile_append dropWhile_append)+
  have "?strip b = drop (length (concat (take k bs))) (?strip good)"
    using ab by (metis append_eq_conv_conj map_append)
  then have "cut (?strip b) = drop k bs"
    using flushed_resume [OF n, of k "?strip good"] full_resume [OF n, of k "?strip good"]
    by (simp add: bs(1) cut_def)
  then show "pending_batches n (fst (last (last (take k bs)))) rows = (drop k bs, bad)"
    unfolding pending_split Let_def la todo' tw bs(2) cut_def by simp
qed

lemma dict_rows_numbers: "map fst (dict_rows names records) = map int [1 ..< 1 + length (filter (\<lambda>r. r \<noteq> []) records)]"
proof -
  have "map fst (dict_rows names records) = map int (map fst (enumerate_from 1 (filter (\<lambda>r. r \<noteq> []) records)))"
    by (simp add: dict_rows_def comp_def case_prod_beta del: map_fst_enumerate_from)
  then show ?thesis by (simp only: map_fst_enumerate_from)
qed

lemma dict_rows_sorted: "sorted_wrt (<) (map fst (dict_rows names records))"
  unfolding dict_rows_numbers by (simp add: sorted_wrt_map del: upt_Suc)

section \<open>Crashes\<close>

lemma source_rows:
  assumes "ingest_source env j ob w = Ok (s, bytes, rows)"
  obtains p t records where "catalog_get ob (ie_catalog env) = Some s" "upload_path (ie_resolve env) (ie_root env) j = Ok p"
    "iw_files w p = Some t" "csv_read t = Some records" "bytes = int (length t)"
    "rows = dict_rows (case records of [] \<Rightarrow> [] | r # _ \<Rightarrow> r) (tl records)"
proof -
  from assms obtain d where d: "catalog_get ob (ie_catalog env) = Some d" "ds_mode d = ''mutable''"
    by (auto simp: ingest_source_def split: option.splits if_splits)
  then obtain p where p: "upload_path (ie_resolve env) (ie_root env) j = Ok p"
    using assms by (cases "upload_path (ie_resolve env) (ie_root env) j") (auto simp: ingest_source_def)
  then obtain t where t: "iw_files w p = Some t"
    using assms d by (cases "iw_files w p") (auto simp: ingest_source_def)
  then obtain records where r: "csv_read t = Some records"
    using assms d p by (cases "csv_read t") (auto simp: ingest_source_def)
  show thesis
    using assms d p t r that by (auto simp: ingest_source_def rbind_eq_Inr Let_def)
qed

lemma source_rows_sorted:
  assumes "ingest_source env j ob w = Ok (s, bytes, rows)"
  shows "sorted_wrt (<) (map fst rows)"
proof -
  from assms obtain p t records where "rows = dict_rows (case records of [] \<Rightarrow> [] | r # _ \<Rightarrow> r) (tl records)"
    by (rule source_rows)
  then show ?thesis by (simp add: dict_rows_sorted)
qed

lemma source_inputs:
  assumes "iw_files u = iw_files w"
  shows "ingest_source env j ob u = ingest_source env j ob w"
  by (simp only: ingest_source_def assms)

lemma fail_not_killed: "fst (fail_ingest now j e w) \<noteq> IngestKilled"
  by (auto simp: fail_ingest_def end_ingest_def split: ingest_error.split prod.split sum.split)

lemma stream_killed:
  assumes "ingest_stream_run now env (KilledAfterBatches k) j ob w = (IngestKilled, u)"
  obtains s bytes rows bs bad p f where "ingest_source env j ob w = Ok (s, bytes, rows)"
    "pending_batches (ie_batch_records env) (ip_csv_row (ingest_progress j (iw_store w))) rows = (bs, bad)"
    "apply_batches now env j s bytes (take k bs) (ip_processed (ingest_progress j (iw_store w)))
       (ip_failed (ingest_progress j (iw_store w))) w = (Ok (p, f), u)"
proof -
  let ?pr = "ingest_progress j (iw_store w)"
  obtain s bytes rows where src: "ingest_source env j ob w = Ok (s, bytes, rows)"
    using assms
    by (cases "ingest_source env j ob w")
      (auto simp: ingest_stream_run_def dest: arg_cong [where f = fst] simp: fail_not_killed)
  obtain bs bad where p: "pending_batches (ie_batch_records env) (ip_csv_row ?pr) rows = (bs, bad)"
    by (cases "pending_batches (ie_batch_records env) (ip_csv_row ?pr) rows")
  obtain r v where a: "apply_batches now env j s bytes (take k bs) (ip_processed ?pr) (ip_failed ?pr) w = (r, v)"
    by (cases "apply_batches now env j s bytes (take k bs) (ip_processed ?pr) (ip_failed ?pr) w")
  show thesis
  proof (cases r)
    case (Inl e)
    with assms src p a fail_not_killed [of now j e v] show thesis by (simp add: ingest_stream_run_def Let_def)
  next
    case (Inr pf)
    with assms src p a have "v = u" by (cases pf) (simp add: ingest_stream_run_def Let_def)
    with that [OF src p] a Inr show thesis by (cases pf) simp
  qed
qed

lemma stream_resumes:
  assumes n: "0 < ie_batch_records env"
    and killed: "ingest_stream_run now env (KilledAfterBatches k) j ob w = (IngestKilled, u)"
  shows "ingest_stream_run now env NoIngestFault j ob u = ingest_stream_run now env NoIngestFault j ob w"
    "same_inputs (iw_files w) (st_jobs (iw_store w)) u"
proof -
  let ?pr = "ingest_progress j (iw_store w)"
  from killed obtain s bytes rows bs bad p f where
    src: "ingest_source env j ob w = Ok (s, bytes, rows)"
    and pend: "pending_batches (ie_batch_records env) (ip_csv_row ?pr) rows = (bs, bad)"
    and run: "apply_batches now env j s bytes (take k bs) (ip_processed ?pr) (ip_failed ?pr) w = (Ok (p, f), u)"
    by (rule stream_killed)
  show inputs: "same_inputs (iw_files w) (st_jobs (iw_store w)) u"
    using keepsD [OF apply_batches_inputs _ run] by (simp add: same_inputs_def)
  then have src': "ingest_source env j ob u = Ok (s, bytes, rows)"
    using src source_inputs [of u w] by (simp add: same_inputs_def)
  show "ingest_stream_run now env NoIngestFault j ob u = ingest_stream_run now env NoIngestFault j ob w"
  proof (cases "take k bs = []")
    case True
    with run show ?thesis by (simp add: eret_def)
  next
    case False
    note resume = pending_resume [OF source_rows_sorted [OF src] n pend False]
    have "[] \<notin> set (take k bs)" using resume(2) by (metis in_set_takeD)
    from apply_batches_progress [OF run this False]
    have pr: "ingest_progress j (iw_store u)
        = \<lparr>ip_processed = p, ip_failed = f, ip_csv_row = fst (last (last (take k bs)))\<rparr>" .
    have "apply_batches now env j s bytes (take k bs @ drop k bs) (ip_processed ?pr) (ip_failed ?pr) w
        = apply_batches now env j s bytes (drop k bs) p f u"
      unfolding apply_batches_append by (simp add: ebind_def run)
    then show ?thesis
      by (simp add: ingest_stream_run_def src src' pr pend resume(1) Let_def)
  qed
qed

lemma ingest_run_stream:
  assumes "stored_job j INGEST (Some ob) q e st (iw_store w)" "st \<in> {UPLOAD_COMPLETE, IN_PROGRESS}" "unexpired e now"
  defines "w1 \<equiv> (if st = UPLOAD_COMPLETE then w\<lparr>iw_store := set_job_state now j IN_PROGRESS None None (iw_store w)\<rparr> else w)"
  shows "ingest_run now env flt j w = ingest_stream_run now env flt j ob w1"
    "stored_job j INGEST (Some ob) q e IN_PROGRESS (iw_store w1)"
proof -
  obtain job where job: "get_job now j (iw_store w) = Some job" "bj_type job = INGEST"
      "bj_object_name job = Some ob" "bj_state job = st"
    using stored_job_get [OF assms(1,3)] by blast
  have tr: "\<exists>job1. transition_job now j IN_PROGRESS None None (iw_store w)
      = (Ok job1, set_job_state now j IN_PROGRESS None None (iw_store w))" if "st = UPLOAD_COMPLETE"
    using stored_job_transition [OF assms(1,3)] that by (metis job_step.start)
  show "ingest_run now env flt j w = ingest_stream_run now env flt j ob w1"
    using assms(2) job tr by (auto simp: ingest_run_def w1_def)
  show "stored_job j INGEST (Some ob) q e IN_PROGRESS (iw_store w1)"
    using assms(1,2) stored_job_set [OF assms(1)] by (auto simp: w1_def)
qed

text \<open>The worlds a job can be left in by any number of runs killed between batches.\<close>

inductive crashes_to :: "timestamp \<Rightarrow> ingest_env \<Rightarrow> string \<Rightarrow> ingest_world \<Rightarrow> ingest_world \<Rightarrow> bool"
  for now env j w where
  untouched: "crashes_to now env j w w"
| killed: "crashes_to now env j w u \<Longrightarrow> ingest_run now env (KilledAfterBatches k) j u = (IngestKilled, v)
    \<Longrightarrow> crashes_to now env j w v"

lemma stored_job_jobs: "st_jobs s = st_jobs t \<Longrightarrow> stored_job j ty ob q e st s = stored_job j ty ob q e st t"
  by (simp add: stored_job_def)

lemma crash_equivalent:
  assumes "crashes_to now env j w u" "0 < ie_batch_records env" "unexpired e now"
    "stored_job j INGEST (Some ob) q e st (iw_store w)" "st \<in> {UPLOAD_COMPLETE, IN_PROGRESS}"
  shows "ingest_run now env NoIngestFault j u = ingest_run now env NoIngestFault j w
     \<and> (\<exists>st'. stored_job j INGEST (Some ob) q e st' (iw_store u) \<and> st' \<in> {UPLOAD_COMPLETE, IN_PROGRESS})"
  using assms(1)
proof (induction rule: crashes_to.induct)
  case untouched
  then show ?case using assms(4,5) by blast
next
  case (killed u k v)
  then obtain st' where st': "stored_job j INGEST (Some ob) q e st' (iw_store u)" "st' \<in> {UPLOAD_COMPLETE, IN_PROGRESS}"
    by blast
  let ?u = "if st' = UPLOAD_COMPLETE then u\<lparr>iw_store := set_job_state now j IN_PROGRESS None None (iw_store u)\<rparr> else u"
  note run = ingest_run_stream(1) [OF st' assms(3), of env] ingest_run_stream(2) [OF st' assms(3)]
  from killed.hyps(2) have k: "ingest_stream_run now env (KilledAfterBatches k) j ob ?u = (IngestKilled, v)"
    by (simp only: run(1))
  have v: "stored_job j INGEST (Some ob) q e IN_PROGRESS (iw_store v)"
    using stream_resumes(2) [OF assms(2) k] run(2) stored_job_jobs [of "iw_store v" "iw_store ?u"]
    by (simp add: same_inputs_def)
  have "IN_PROGRESS \<in> {UPLOAD_COMPLETE, IN_PROGRESS}" by simp
  from ingest_run_stream(1) [OF v this assms(3), of env NoIngestFault]
  have "ingest_run now env NoIngestFault j v = ingest_stream_run now env NoIngestFault j ob v" by simp
  also have "\<dots> = ingest_stream_run now env NoIngestFault j ob ?u" by (rule stream_resumes(1) [OF assms(2) k])
  also have "\<dots> = ingest_run now env NoIngestFault j u" by (simp only: run(1))
  finally show ?case using killed.IH v by auto
qed

end
