(* ===== verification/IngestAccounting.thy ===== *)
theory IngestAccounting
  imports BulkIngestProps
begin

text \<open>
  What a completed ingest job leaves behind: one result row for every record of the uploaded
  file, the counts of the result, and the table with the accepted records, whose ids stay
  unique. The unique index and the primary key never reject a batch, because the duplicates
  were taken out before.
\<close>

section \<open>The outcomes of a batch\<close>

lemma repeated_ids_set:
  "set (repeated_ids seen is) = {i \<in> set is. i \<in> set seen} \<union> {i. count_list is i > 1}"
proof (induction "is" arbitrary: seen)
  case (Cons i "is")
  have "count_list is i > 0 \<longleftrightarrow> i \<in> set is" using count_list_0_iff [of "is" i] by auto
  then show ?case using Cons by auto
qed simp

lemma distinct_unrepeated: "(\<And>i. i \<in> set is \<Longrightarrow> P i \<Longrightarrow> count_list is i \<le> 1) \<Longrightarrow> distinct (filter P is)"
proof (induction "is")
  case (Cons i "is")
  have "count_list is k \<le> 1" if "k \<in> set is" "P k" for k
    using Cons.prems [of k] that by (auto split: if_splits)
  moreover have "i \<notin> set is" if "P i"
    using Cons.prems [of i] that count_list_0_iff [of "is" i] by auto
  ultimately show ?case using Cons.IH by auto
qed simp

definition settled :: "dataset_spec \<Rightarrow> row_outcome \<Rightarrow> bool" where
  "settled s r \<longleftrightarrow> (case ro_values r of
      None \<Rightarrow> \<not> is_success r \<and> ro_status r = ''failed''
    | Some vs \<Rightarrow> is_success r \<and> ro_record_id r \<noteq> None
        \<and> (ds_id_field s \<in> set (schema_names (ds_schema s)) \<longrightarrow>
             col (ds_id_field s) (zip (map fst (ds_schema s)) vs) = TextV (id_of r)))"

lemma settled_status: "settled s r \<Longrightarrow> ro_status r = (if is_success r then ''success'' else ''failed'')"
  by (auto simp: settled_def is_success_def split: option.splits)

lemma settled_None: "settled s r \<Longrightarrow> is_success r = (ro_values r \<noteq> None)"
  by (auto simp: settled_def is_success_def split: option.splits)

lemma rmap_col:
  assumes "rmap f flds = Ok vs" "i \<in> set (map fst flds)" "\<And>t. f (i, t) = Ok v"
  shows "col i (zip (map fst flds) vs) = v"
  using assms(1,2)
proof (induction flds arbitrary: vs)
  case (Cons fld flds)
  then obtain y ys where "f fld = Ok y" "rmap f flds = Ok ys" "vs = y # ys" by (auto simp: rbind_eq_Inr)
  with Cons assms(3) show ?case by (cases fld) (auto simp: col_def dict_get_or_def)
qed simp

lemma prepare_row_settled: "settled s (prepare_row env j n row s)"
proof -
  define given where "given = or_empty (dict_get_or row (ds_id_field s) None)"
  define rid where "rid = (if given = [] then generated_id env j n else given)"
  define f where "f = (\<lambda>fld. if fst fld = ds_id_field s then Ok (TextV rid)
      else coerce env fld (dict_get_or row (fst fld) None))"
  have eq: "prepare_row env j n row s = (case rmap f (ds_schema s) of
        Err e \<Rightarrow> \<lparr>ro_csv_row = n, ro_status = ''failed'', ro_record_id = None, ro_error = Some e,
                  ro_source = row, ro_values = None\<rparr>
      | Ok vs \<Rightarrow> \<lparr>ro_csv_row = n, ro_status = ''success'', ro_record_id = Some rid, ro_error = None,
                  ro_source = row, ro_values = Some vs\<rparr>)"
    by (simp only: prepare_row_def given_def rid_def f_def Let_def)
  show ?thesis
  proof (cases "rmap f (ds_schema s)")
    case (Inr vs)
    have "col (ds_id_field s) (zip (map fst (ds_schema s)) vs) = TextV rid"
      if "ds_id_field s \<in> set (map fst (ds_schema s))"
      using rmap_col [OF Inr that] by (simp add: f_def)
    then show ?thesis
      by (simp add: eq Inr settled_def is_success_def id_of_def or_empty_def schema_names_def)
  qed (simp add: eq settled_def is_success_def)
qed

lemma as_duplicate_facts [simp]:
  "settled s (as_duplicate r)" "\<not> is_success (as_duplicate r)" "ro_source (as_duplicate r) = ro_source r"
  "ro_csv_row (as_duplicate r) = ro_csv_row r"
  by (simp_all add: as_duplicate_def settled_def is_success_def)

lemma batch_outcomes_settled: "r \<in> set (batch_outcomes env j s b w) \<Longrightarrow> settled s r"
  by (auto simp: batch_outcomes_def Let_def prepare_row_settled split: if_splits prod.splits)

lemma batch_outcomes_sources: "map ro_source (batch_outcomes env j s b w) = map snd b"
  by (auto simp: batch_outcomes_def Let_def prepare_row_def split: sum.splits)

definition new_ids :: "row_outcome list \<Rightarrow> string list" where
  "new_ids outs = map id_of (filter is_success outs)"

lemma new_ids_Nil: "filter (\<lambda>r. ro_values r \<noteq> None) outs = [] \<Longrightarrow> \<forall>r \<in> set outs. settled s r \<Longrightarrow> new_ids outs = []"
  by (induction outs) (auto simp: new_ids_def settled_def split: option.splits)

lemma new_ids_filter:
  assumes "\<forall>r \<in> set outs. settled s r"
  shows "new_ids (map (\<lambda>r. if ro_record_id r \<in> Some ` B then as_duplicate r else r) outs)
     = filter (\<lambda>i. i \<notin> B) (map id_of (filter (\<lambda>r. ro_values r \<noteq> None) outs))"
  using assms
proof (induction outs)
  case (Cons r outs)
  then show ?case
    by (auto simp: new_ids_def settled_def id_of_def or_empty_def split: option.splits)
qed (simp add: new_ids_def)

lemma batch_outcomes_ids:
  "distinct (new_ids (batch_outcomes env j s b w)) \<and>
   (\<forall>i \<in> set (new_ids (batch_outcomes env j s b w)). TextV i \<notin> set (table_ids s (iw_tables w (ds_object_name s))))"
proof -
  define outs where "outs = map (\<lambda>(n, row). prepare_row env j n row s) b"
  define valid where "valid = filter (\<lambda>r. ro_values r \<noteq> None) outs"
  define dups where "dups = repeated_ids [] (map id_of valid)"
  define existing where "existing = filter (\<lambda>i. TextV i \<in> set (table_ids s (iw_tables w (ds_object_name s))))
      (filter (\<lambda>i. i \<notin> set dups) (map id_of valid))"
  have settled: "\<forall>r \<in> set outs. settled s r" by (auto simp: outs_def prepare_row_settled)
  have eq: "batch_outcomes env j s b w = (if valid = [] then outs else
      map (\<lambda>r. if ro_record_id r \<in> Some ` (set dups \<union> set existing) then as_duplicate r else r) outs)"
    by (simp only: batch_outcomes_def Let_def outs_def valid_def dups_def existing_def)
  show ?thesis
  proof (cases "valid = []")
    case True
    then show ?thesis using new_ids_Nil [of outs s] settled by (simp add: eq valid_def)
  next
    case False
    have ids: "new_ids (batch_outcomes env j s b w) = filter (\<lambda>i. i \<notin> set dups \<union> set existing) (map id_of valid)"
      using False new_ids_filter [OF settled] by (simp add: eq valid_def)
    have "distinct (filter (\<lambda>i. i \<notin> set dups \<union> set existing) (map id_of valid))"
      by (rule distinct_unrepeated) (auto simp: dups_def repeated_ids_set not_less)
    moreover have "TextV i \<notin> set (table_ids s (iw_tables w (ds_object_name s)))"
      if "i \<in> set (filter (\<lambda>i. i \<notin> set dups \<union> set existing) (map id_of valid))" for i
      using that by (auto simp: existing_def)
    ultimately show ?thesis unfolding ids by blast
  qed
qed

section \<open>Committing a batch\<close>

definition row_of :: "dataset_spec \<Rightarrow> row_outcome \<Rightarrow> sql_row" where
  "row_of s r = zip (map fst (ds_schema s)) (the (ro_values r))"

definition committed_world :: "string \<Rightarrow> dataset_spec \<Rightarrow> row_outcome list \<Rightarrow> ingest_world \<Rightarrow> ingest_world" where
  "committed_world j s outs w =
     w\<lparr>iw_store := (iw_store w)\<lparr>st_results := st_results (iw_store w) @ map (result_of j) outs\<rparr>,
       iw_tables := (iw_tables w)(ds_object_name s :=
         iw_tables w (ds_object_name s) @ map (row_of s) (filter is_success outs))\<rparr>"

lemma committed_world_Nil: "committed_world j s [] w = w"
  by (simp add: committed_world_def)

lemma committed_world_Cons:
  "committed_world j s (r # outs) w = committed_world j s outs (committed_world j s [r] w)"
  by (simp add: committed_world_def)

lemma result_key_of: "result_key (result_of j r) = (j, ro_csv_row r)"
  by (simp add: result_key_def result_of_def)

lemma row_of_id:
  assumes "settled s r" "is_success r" "ds_id_field s \<in> set (schema_names (ds_schema s))"
  shows "col (ds_id_field s) (row_of s r) = TextV (id_of r)"
  using assms by (auto simp: settled_def row_of_def split: option.splits)

lemma table_ids_committed:
  assumes "\<forall>r \<in> set outs. settled s r" "ds_id_field s \<in> set (schema_names (ds_schema s))"
  shows "table_ids s (tbl @ map (row_of s) (filter is_success outs)) = table_ids s tbl @ map TextV (new_ids outs)"
  using assms by (simp add: table_ids_def new_ids_def row_of_id)

text \<open>What the two constraints of the database ask of a batch.\<close>

definition insertable :: "ingest_env \<Rightarrow> string \<Rightarrow> dataset_spec \<Rightarrow> row_outcome list \<Rightarrow> ingest_world \<Rightarrow> bool" where
  "insertable env j s outs w \<longleftrightarrow> (\<forall>r \<in> set outs. settled s r)
     \<and> distinct (new_ids outs) \<and> (\<forall>i \<in> set (new_ids outs). TextV i \<notin> set (table_ids s (iw_tables w (ds_object_name s))))
     \<and> distinct (map ro_csv_row outs)
     \<and> (\<forall>r \<in> set outs. (j, ro_csv_row r) \<notin> result_key ` set (st_results (iw_store w)))"

lemma commit_outcome_ok:
  assumes "insertable env j s (r # outs) w" "ds_id_field s \<in> set (schema_names (ds_schema s))"
    "\<forall>row. ie_accepts env (ds_object_name s) row"
  shows "commit_outcome env j s r w = (Ok (), committed_world j s [r] w)"
    "insertable env j s outs (committed_world j s [r] w)"
proof -
  let ?t = "ds_object_name s"
  have st: "settled s r" and key: "(j, ro_csv_row r) \<notin> result_key ` set (st_results (iw_store w))"
    using assms(1) by (simp_all add: insertable_def)
  have ins: "is_success r \<Longrightarrow> TextV (id_of r) \<notin> set (table_ids s (iw_tables w ?t))"
    using assms(1) by (simp add: insertable_def new_ids_def)
  have store: "insert_result j r v = (Ok (), v\<lparr>iw_store := (iw_store v)\<lparr>st_results := st_results (iw_store v) @ [result_of j r]\<rparr>\<rparr>)"
    if "iw_store v = iw_store w" for v
    using key that by (simp add: insert_result_def result_key_of Let_def)
  show "commit_outcome env j s r w = (Ok (), committed_world j s [r] w)"
  proof (cases "ro_values r")
    case None
    then have "\<not> is_success r" using st by (simp add: settled_def)
    with None store show ?thesis by (simp add: commit_outcome_def ebind_def eret_def committed_world_def)
  next
    case (Some vs)
    then have suc: "is_success r" using st by (simp add: settled_def)
    have "col (ds_id_field s) (zip (map fst (ds_schema s)) vs) = TextV (id_of r)"
      using row_of_id [OF st suc assms(2)] Some by (simp add: row_of_def)
    then have "insert_row env s vs w = (Ok (), w\<lparr>iw_tables := (iw_tables w)(?t := iw_tables w ?t @ [row_of s r])\<rparr>)"
      using assms(3) ins suc Some by (simp add: insert_row_def row_of_def Let_def)
    with Some suc store show ?thesis by (simp add: commit_outcome_def ebind_def committed_world_def)
  qed
  have "table_ids s (iw_tables (committed_world j s [r] w) ?t) = table_ids s (iw_tables w ?t) @ map TextV (new_ids [r])"
    using table_ids_committed [of "[r]" s] st assms(2) by (simp add: committed_world_def)
  then show "insertable env j s outs (committed_world j s [r] w)"
    using assms(1) by (auto simp: insertable_def new_ids_def committed_world_def result_key_of image_iff) metis+
qed

lemma commit_outcomes_ok:
  assumes "insertable env j s outs w" "ds_id_field s \<in> set (schema_names (ds_schema s))"
    "\<forall>row. ie_accepts env (ds_object_name s) row"
  shows "efor outs (commit_outcome env j s) w = (Ok (), committed_world j s outs w)"
  using assms(1)
proof (induction outs arbitrary: w)
  case (Cons r outs)
  note ok = commit_outcome_ok [OF Cons.prems assms(2,3)]
  have "efor (r # outs) (commit_outcome env j s) w = efor outs (commit_outcome env j s) (committed_world j s [r] w)"
    by (simp add: ebind_def ok(1))
  also have "\<dots> = (Ok (), committed_world j s (r # outs) w)"
    by (simp only: Cons.IH [OF ok(2)] committed_world_Cons [symmetric])
  finally show ?case .
qed (simp add: eret_def committed_world_Nil)

section \<open>Applying the batches\<close>

definition applied ::
  "string \<Rightarrow> dataset_spec \<Rightarrow> (int \<times> (string, string option) dict) list \<Rightarrow> row_outcome list \<Rightarrow> ingest_world \<Rightarrow> ingest_world \<Rightarrow> bool" where
  "applied j s rows outs w u \<longleftrightarrow>
     map ro_csv_row outs = map fst rows \<and> map ro_source outs = map snd rows \<and> (\<forall>r \<in> set outs. settled s r)
     \<and> st_results (iw_store u) = st_results (iw_store w) @ map (result_of j) outs
     \<and> st_jobs (iw_store u) = st_jobs (iw_store w)
     \<and> iw_tables u = (iw_tables w)(ds_object_name s :=
         iw_tables w (ds_object_name s) @ map (row_of s) (filter is_success outs))
     \<and> distinct (new_ids outs)
     \<and> (\<forall>i \<in> set (new_ids outs). TextV i \<notin> set (table_ids s (iw_tables w (ds_object_name s))))"

definition successes :: "row_outcome list \<Rightarrow> int" where
  "successes outs = int (length (filter is_success outs))"

lemma successes_append: "successes (as @ bs) = successes as + successes bs"
  by (simp add: successes_def)

lemma applied_refl: "applied j s [] [] w w"
  by (simp add: applied_def new_ids_def)

lemma applied_trans:
  assumes "applied j s rows outs w v" "applied j s rows' outs' v u" "ds_id_field s \<in> set (schema_names (ds_schema s))"
  shows "applied j s (rows @ rows') (outs @ outs') w u"
proof -
  have "table_ids s (iw_tables v (ds_object_name s)) = table_ids s (iw_tables w (ds_object_name s)) @ map TextV (new_ids outs)"
    using assms(1,3) table_ids_committed [of outs s] by (simp add: applied_def)
  then have "set (new_ids outs) \<inter> set (new_ids outs') = {}"
    "\<forall>i \<in> set (new_ids outs'). TextV i \<notin> set (table_ids s (iw_tables w (ds_object_name s)))"
    using assms(2) by (auto simp: applied_def)
  moreover have "new_ids (outs @ outs') = new_ids outs @ new_ids outs'" by (simp add: new_ids_def)
  ultimately show ?thesis using assms(1,2) by (auto simp: applied_def)
qed

lemma apply_batch_applied:
  assumes "b \<noteq> []" "distinct (map fst b)"
    "\<forall>n \<in> set (map fst b). (j, n) \<notin> result_key ` set (st_results (iw_store w))"
    "ds_id_field s \<in> set (schema_names (ds_schema s))" "\<forall>row. ie_accepts env (ds_object_name s) row"
  shows "\<exists>outs u. apply_batch now env j s b p f n w = (Ok (p + successes outs, f + int (length outs) - successes outs), u)
     \<and> applied j s b outs w u"
proof -
  define outs where "outs = batch_outcomes env j s b w"
  have rows: "map ro_csv_row outs = map fst b" "map ro_source outs = map snd b"
    by (simp_all add: outs_def batch_outcome_rows batch_outcomes_sources)
  have keys: "(j, ro_csv_row r) \<notin> result_key ` set (st_results (iw_store w))" if "r \<in> set outs" for r
    using assms(3) that rows(1) by (metis image_eqI image_set)
  have ins: "insertable env j s outs w"
    using batch_outcomes_ids [of env j s b w] batch_outcomes_settled [of _ env j s b w] assms(2) keys rows(1)
    by (simp add: insertable_def outs_def [symmetric])
  define u where "u = snd (add_checkpoint now j (p + successes outs) (f + int (length outs) - successes outs) n
      (ro_csv_row (last outs)) (committed_world j s outs w))"
  have "apply_batch now env j s b p f n w = (Ok (p + successes outs, f + int (length outs) - successes outs), u)"
    using commit_outcomes_ok [OF ins assms(4,5)]
    by (simp add: apply_batch_def commit_batch_def outs_def [symmetric] successes_def [symmetric] Let_def
        transaction_def ebind_def add_checkpoint_def emodify_def eret_def u_def)
  moreover have "applied j s b outs w u"
    using ins rows
    by (simp add: applied_def insertable_def u_def add_checkpoint_def add_job_checkpoint_def emodify_def committed_world_def)
  ultimately show ?thesis by blast
qed

lemma apply_batches_applied:
  assumes "[] \<notin> set bs" "distinct (map fst (concat bs))"
    "\<forall>n \<in> set (map fst (concat bs)). (j, n) \<notin> result_key ` set (st_results (iw_store w))"
    "ds_id_field s \<in> set (schema_names (ds_schema s))" "\<forall>row. ie_accepts env (ds_object_name s) row"
  shows "\<exists>outs u. apply_batches now env j s n bs p f w = (Ok (p + successes outs, f + int (length outs) - successes outs), u)
     \<and> applied j s (concat bs) outs w u"
  using assms(1-3)
proof (induction bs arbitrary: p f w)
  case Nil
  show ?case by (auto intro!: exI [of _ "[]"] simp: eret_def successes_def applied_refl)
next
  case (Cons b bs)
  have "b \<noteq> []" "distinct (map fst b)" "\<forall>n \<in> set (map fst b). (j, n) \<notin> result_key ` set (st_results (iw_store w))"
    using Cons.prems by auto
  then obtain outs v where b: "apply_batch now env j s b p f n w
      = (Ok (p + successes outs, f + int (length outs) - successes outs), v)" and ab: "applied j s b outs w v"
    using apply_batch_applied assms(4,5) by blast
  have "(j, k) \<notin> result_key ` set (st_results (iw_store v))" if "k \<in> set (map fst (concat bs))" for k
  proof -
    have "k \<notin> set (map fst b)" using Cons.prems(2) that by auto
    then have "k \<notin> set (map ro_csv_row outs)" using ab by (simp add: applied_def)
    moreover have "(j, k) \<notin> result_key ` set (st_results (iw_store w))" using Cons.prems(3) that by simp
    ultimately show ?thesis using ab by (auto simp: applied_def result_key_of)
  qed
  with Cons.IH [of v "p + successes outs" "f + int (length outs) - successes outs"] Cons.prems
  obtain outs' u where bs: "apply_batches now env j s n bs (p + successes outs) (f + int (length outs) - successes outs) v
      = (Ok (p + successes outs + successes outs', f + int (length outs) - successes outs + int (length outs') - successes outs'), u)"
    and abs: "applied j s (concat bs) outs' v u" by auto
  have "applied j s (concat (b # bs)) (outs @ outs') w u"
    using applied_trans [OF ab abs assms(4)] by simp
  moreover have "apply_batches now env j s n (b # bs) p f w
      = (Ok (p + successes (outs @ outs'), f + int (length (outs @ outs')) - successes (outs @ outs')), u)"
    using bs by (simp add: ebind_def b successes_append algebra_simps)
  ultimately show ?case by blast
qed

section \<open>A whole job\<close>

definition data_rows :: "string list \<Rightarrow> string list list \<Rightarrow> (int \<times> (string, string option) dict) list" where
  "data_rows names data = map (\<lambda>(n, r). (int n, fst (dict_row names r))) (enumerate_from 1 data)"

lemma data_rows_fst: "map fst (data_rows names data) = map int [1 ..< 1 + length data]"
proof -
  have "map fst (data_rows names data) = map int (map fst (enumerate_from 1 data))"
    by (simp add: data_rows_def comp_def case_prod_beta del: map_fst_enumerate_from)
  then show ?thesis by (simp only: map_fst_enumerate_from)
qed

lemma data_rows_snd: "map snd (data_rows names data) = map (\<lambda>r. fst (dict_row names r)) data"
proof -
  have "map snd (data_rows names data) = map (\<lambda>r. fst (dict_row names r)) (map snd (enumerate_from 1 data))"
    by (simp add: data_rows_def comp_def case_prod_beta del: map_snd_enumerate_from)
  then show ?thesis by (simp only: map_snd_enumerate_from)
qed

lemma enumerate_from_set: "(i, x) \<in> set (enumerate_from n xs) \<Longrightarrow> n \<le> i \<and> x \<in> set xs"
  by (auto simp: enumerate_from_def dest: set_zip_leftD set_zip_rightD)

lemma pending_all:
  assumes "\<forall>r \<in> set data. r \<noteq> [] \<and> length r \<le> length names"
  shows "pending_batches limit 0 (dict_rows names data) = (flushed limit (data_rows names data), None)"
proof -
  let ?rows = "dict_rows names data"
  have nonblank: "filter (\<lambda>r. r \<noteq> []) data = data" using assms by (simp add: filter_id_conv)
  have rows: "?rows = map (\<lambda>(n, r). (int n, dict_row names r)) (enumerate_from 1 data)"
    by (simp only: dict_rows_def nonblank)
  have ok: "\<forall>x \<in> set ?rows. \<not> snd (snd x)"
    using assms by (fastforce simp: rows dict_row_def dest: enumerate_from_set)
  have "\<forall>x \<in> set ?rows. 0 < fst x" by (auto simp: rows dest: enumerate_from_set)
  then have todo: "filter (\<lambda>(n, _). 0 < n) ?rows = ?rows" by (auto simp: filter_id_conv)
  have tw: "takeWhile (\<lambda>(_, _, extra). \<not> extra) ?rows = ?rows" "dropWhile (\<lambda>(_, _, extra). \<not> extra) ?rows = []"
    using ok by (auto simp: takeWhile_eq_all_conv)
  have "map (\<lambda>(n, r, _). (n, r)) ?rows = data_rows names data"
    by (simp add: rows data_rows_def comp_def case_prod_beta)
  then show ?thesis by (simp only: pending_batches_def todo tw Let_def list.case)
qed

lemma source_ok:
  assumes "catalog_get ob (ie_catalog env) = Some s" "ds_mode s = ''mutable''"
    "upload_path (ie_resolve env) (ie_root env) j = Ok p" "iw_files w p = Some (csv_text (names # data))"
    "names \<noteq> []" "[] \<notin> set names" "set names \<subseteq> set (schema_names (ds_schema s))" "\<forall>r \<in> set data. r \<noteq> []"
  shows "ingest_source env j ob w = Ok (s, int (length (csv_text (names # data))), dict_rows names data)"
proof -
  have header: "validate_header names (schema_names (ds_schema s)) = Ok ()"
  proof -
    have "filter (\<lambda>n. n \<notin> set (schema_names (ds_schema s))) names = []" using assms(7) by (auto simp: filter_empty_conv)
    then show ?thesis using assms(5,6) by (simp add: validate_header_def sorted_set_def)
  qed
  have read: "csv_read (csv_text (names # data)) = Some (names # data)"
    using assms(5,8) by (intro csv_read_text) simp
  show ?thesis
    using assms(1,2) by (simp add: ingest_source_def assms(3,4) read header Let_def)
qed

lemma ingest_completes:
  assumes "catalog_get ob (ie_catalog env) = Some s" "ds_mode s = ''mutable''"
    and "ds_id_field s \<in> set (schema_names (ds_schema s))"
    and "\<forall>row. ie_accepts env (ds_object_name s) row" and "0 < ie_batch_records env"
    and "upload_path (ie_resolve env) (ie_root env) j = Ok p" "iw_files w p = Some (csv_text (names # data))"
    and "names \<noteq> []" "[] \<notin> set names" "set names \<subseteq> set (schema_names (ds_schema s))"
    and "\<forall>r \<in> set data. r \<noteq> [] \<and> length r \<le> length names"
    and "stored_job j INGEST (Some ob) q e UPLOAD_COMPLETE (iw_store w)" "unexpired e now"
    and "\<forall>c \<in> set (st_checkpoints (iw_store w)). cp_job_id c \<noteq> j"
    and "\<forall>r \<in> set (st_results (iw_store w)). rr_job_id r \<noteq> j"
    and "distinct (table_ids s (iw_tables w (ds_object_name s)))"
  shows "\<exists>outs u. ingest_run now env NoIngestFault j w
      = (IngestReturned \<lparr>ir_job_id = j, ir_processed = int (length (filter is_success outs)),
           ir_failed = int (length (filter (\<lambda>r. \<not> is_success r) outs))\<rparr>, u)
    \<and> map ro_csv_row outs = map int [1 ..< 1 + length data]
    \<and> map ro_source outs = map (\<lambda>r. fst (dict_row names r)) data
    \<and> st_results (iw_store u) = st_results (iw_store w) @ map (result_of j) outs
    \<and> iw_tables u = (iw_tables w)(ds_object_name s :=
         iw_tables w (ds_object_name s) @ map (row_of s) (filter is_success outs))
    \<and> distinct (table_ids s (iw_tables u (ds_object_name s)))
    \<and> (\<forall>r \<in> set outs. ro_status r = (if is_success r then ''success'' else ''failed''))
    \<and> iw_files u = iw_files w \<and> stored_job j INGEST (Some ob) q e JOB_COMPLETE (iw_store u)"
proof -
  let ?bytes = "int (length (csv_text (names # data)))"
  define w1 where "w1 = w\<lparr>iw_store := set_job_state now j IN_PROGRESS None None (iw_store w)\<rparr>"
  have run: "ingest_run now env NoIngestFault j w = ingest_stream_run now env NoIngestFault j ob w1"
    and job: "stored_job j INGEST (Some ob) q e IN_PROGRESS (iw_store w1)"
    using ingest_run_stream(1) [OF assms(12) _ assms(13), of env NoIngestFault]
      ingest_run_stream(2) [OF assms(12) _ assms(13)] by (simp_all add: w1_def)
  have src: "ingest_source env j ob w1 = Ok (s, ?bytes, dict_rows names data)"
    using assms(11) by (intro source_ok [OF assms(1,2,6) _ assms(8-10)]) (simp_all add: w1_def assms(7))
  have fresh: "ingest_progress j (iw_store w1) = \<lparr>ip_processed = 0, ip_failed = 0, ip_csv_row = 0\<rparr>"
    using assms(14) by (simp add: ingest_progress_def w1_def set_job_state_def emodify_def filter_empty_conv)
  let ?bs = "flushed (ie_batch_records env) (data_rows names data)"
  have concat: "concat ?bs = data_rows names data" by (rule concat_flushed [OF assms(5)])
  have same: "st_results (iw_store w1) = st_results (iw_store w)" "iw_tables w1 = iw_tables w"
    by (simp_all add: w1_def set_job_state_def)
  have "[] \<notin> set ?bs" using flushed_bounds [OF assms(5)] by blast
  moreover have "distinct (map fst (concat ?bs))"
    by (simp add: concat data_rows_fst distinct_map del: upt_Suc)
  moreover have "\<forall>n \<in> set (map fst (concat ?bs)). (j, n) \<notin> result_key ` set (st_results (iw_store w1))"
    using assms(15) by (auto simp: same result_key_def)
  ultimately obtain outs u where
    ab: "apply_batches now env j s ?bytes ?bs 0 0 w1 = (Ok (successes outs, int (length outs) - successes outs), u)"
    and ap: "applied j s (data_rows names data) outs w1 u"
    using apply_batches_applied [where bs = ?bs and j = j and w = w1 and s = s and env = env and now = now
        and n = ?bytes and p = 0 and f = 0] assms(3,4) unfolding concat by auto
  define u' where "u' = u\<lparr>iw_store := set_job_state now j JOB_COMPLETE None None (iw_store u)\<rparr>"
  have job': "stored_job j INGEST (Some ob) q e IN_PROGRESS (iw_store u)"
    using job stored_job_jobs [of "iw_store u" "iw_store w1"] ap by (simp add: applied_def)
  obtain bj where "transition_job now j JOB_COMPLETE None None (iw_store u)
      = (Ok bj, set_job_state now j JOB_COMPLETE None None (iw_store u))"
    using stored_job_transition [OF job' assms(13) job_step.finish] by blast
  then have fin: "end_ingest now j JOB_COMPLETE None None x u = (x, u')" for x
    by (simp add: end_ingest_def u'_def)
  have counts: "int (length outs) - successes outs = int (length (filter (\<lambda>r. \<not> is_success r) outs))"
    using sum_length_filter_compl [of is_success outs] by (simp add: successes_def)
  have "ingest_stream_run now env NoIngestFault j ob w1
      = (IngestReturned \<lparr>ir_job_id = j, ir_processed = successes outs, ir_failed = int (length outs) - successes outs\<rparr>, u')"
    using ab by (simp add: ingest_stream_run_def src fresh pending_all [OF assms(11)] fin)
  then have "ingest_run now env NoIngestFault j w
      = (IngestReturned \<lparr>ir_job_id = j, ir_processed = int (length (filter is_success outs)),
           ir_failed = int (length (filter (\<lambda>r. \<not> is_success r) outs))\<rparr>, u')"
    unfolding run counts by (simp add: successes_def)
  moreover have "table_ids s (iw_tables u (ds_object_name s))
      = table_ids s (iw_tables w (ds_object_name s)) @ map TextV (new_ids outs)"
    using ap same table_ids_committed [of outs s] assms(3) by (simp add: applied_def)
  then have "distinct (table_ids s (iw_tables u (ds_object_name s)))"
    using ap same assms(16) by (auto simp: applied_def distinct_map inj_on_def)
  moreover have "stored_job j INGEST (Some ob) q e JOB_COMPLETE (iw_store u')"
    using stored_job_set [OF job'] by (simp add: u'_def)
  moreover have "iw_tables u' = iw_tables u" "st_results (iw_store u') = st_results (iw_store u)"
    by (simp_all add: u'_def set_job_state_def)
  moreover have "iw_files u' = iw_files w"
    using keepsD [OF apply_batches_inputs [of "iw_files w1" "st_jobs (iw_store w1)"] _ ab]
    by (simp add: same_inputs_def u'_def w1_def)
  moreover have "\<forall>r \<in> set outs. ro_status r = (if is_success r then ''success'' else ''failed'')"
    using ap settled_status [of s] unfolding applied_def by blast
  ultimately show ?thesis
    using ap same unfolding applied_def data_rows_fst data_rows_snd
    by (intro exI [of _ outs] exI [of _ u']) (auto simp del: upt_Suc)
qed


section \<open>Crashes\<close>

text \<open>C18:
  An ingest job whose runs are killed between batches, any number of times, ends on the next
  undisturbed run with the same result and the same database as if it had never been killed.
\<close>

theorem ingest_crash_equivalence:
  assumes "crashes_to now env j w u" "0 < ie_batch_records env" "unexpired e now"
    and "stored_job j INGEST (Some ob) q e st (iw_store w)" "st \<in> {UPLOAD_COMPLETE, IN_PROGRESS}"
  shows "ingest_run now env NoIngestFault j u = ingest_run now env NoIngestFault j w"
  using crash_equivalent [OF assms] by (rule conjunct1)

section \<open>Witnesses\<close>

definition wit_task_spec :: dataset_spec where
  "wit_task_spec = \<lparr>ds_object_name = ''Task'', ds_sources = [[''data'', ''tasks.parquet'']],
     ds_id_field = ''Id'', ds_soft_delete_field = Some ''IsDeleted'', ds_mode = ''mutable'',
     ds_schema = [(''Id'', ArrowString), (''IsDeleted'', ArrowBool), (''Done'', ArrowBool)],
     ds_data_roots = [[''data'']], ds_delta_patterns = [], ds_version_field = None, ds_aliases = [],
     ds_computed_table = None, ds_supports_limit = True, ds_supports_ne = True,
     ds_required_filter_fields = []\<rparr>"

definition wit_ingest_env :: ingest_env where
  "wit_ingest_env = \<lparr>ie_catalog = \<lparr>ct_objects = [(''Task'', wit_task_spec)]\<rparr>, ie_resolve = (\<lambda>p. p),
     ie_root = [''ingest''], ie_batch_records = 2, ie_sha1 = (\<lambda>t. t), ie_parse_float = (\<lambda>t. None),
     ie_parse_timestamp = (\<lambda>t. None), ie_conversion_error = (\<lambda>t s. ''bad value''), ie_accepts = (\<lambda>t r. True)\<rparr>"

definition wit_ingest_job :: job_row where
  "wit_ingest_job = \<lparr>jr_id = ''j1'', jr_type = INGEST, jr_api_version = ''v60.0'', jr_state = UPLOAD_COMPLETE,
     jr_object_name = Some ''Task'', jr_operation = Some ''insert'', jr_query_text = None,
     jr_snapshot_id = None, jr_created_at = 0, jr_updated_at = 0, jr_expires_at = Some 1000,
     jr_error_code = None, jr_error_message = None, jr_options = Some []\<rparr>"

definition wit_upload :: "string list list" where
  "wit_upload = [[''a'', ''true''], [''b'', ''maybe''], [''a'', ''1'']]"

definition wit_ingest_world :: ingest_world where
  "wit_ingest_world = \<lparr>iw_store = empty_store\<lparr>st_jobs := [wit_ingest_job]\<rparr>, iw_tables = (\<lambda>t. []),
     iw_files = (\<lambda>p. if p = [''ingest'', ''j1'', ''input.csv''] then Some (csv_text ([''Id'', ''Done''] # wit_upload)) else None)\<rparr>"

lemma wit_ingest_stored:
  "stored_job ''j1'' INGEST (Some ''Task'') None (Some 1000) UPLOAD_COMPLETE (iw_store wit_ingest_world)"
  by (simp add: stored_job_def wit_ingest_world_def empty_store_def wit_ingest_job_def lookup_by_def)

lemma wit_ingest_path: "upload_path (ie_resolve wit_ingest_env) (ie_root wit_ingest_env) ''j1'' = Ok [''ingest'', ''j1'', ''input.csv'']"
  by (simp add: wit_ingest_env_def) code_simp

lemma wit_ingest_object: "catalog_get ''Task'' (ie_catalog wit_ingest_env) = Some wit_task_spec"
  by (simp add: wit_ingest_env_def catalog_get_def dict_of_pairs_def)


theorem ingest_crash_equivalence_witness:
  "\<exists>u. crashes_to 5 wit_ingest_env ''j1'' wit_ingest_world u \<and> length (st_results (iw_store u)) = 2
     \<and> ingest_run 5 wit_ingest_env NoIngestFault ''j1'' u = ingest_run 5 wit_ingest_env NoIngestFault ''j1'' wit_ingest_world"
proof -
  define u where "u = snd (ingest_run 5 wit_ingest_env (KilledAfterBatches 1) ''j1'' wit_ingest_world)"
  have "fst (ingest_run 5 wit_ingest_env (KilledAfterBatches 1) ''j1'' wit_ingest_world) = IngestKilled" by code_simp
  then have "ingest_run 5 wit_ingest_env (KilledAfterBatches 1) ''j1'' wit_ingest_world = (IngestKilled, u)"
    by (simp add: u_def prod_eq_iff)
  then have crash: "crashes_to 5 wit_ingest_env ''j1'' wit_ingest_world u"
    using crashes_to.untouched by (rule crashes_to.killed [rotated])
  have "0 < ie_batch_records wit_ingest_env" "unexpired (Some 1000) 5"
    "UPLOAD_COMPLETE \<in> {UPLOAD_COMPLETE, IN_PROGRESS}" by (simp_all add: wit_ingest_env_def unexpired_def)
  from ingest_crash_equivalence [OF crash this(1,2) wit_ingest_stored this(3)]
  have "ingest_run 5 wit_ingest_env NoIngestFault ''j1'' u = ingest_run 5 wit_ingest_env NoIngestFault ''j1'' wit_ingest_world" .
  moreover have "length (st_results (iw_store u)) = 2" unfolding u_def by code_simp
  ultimately show ?thesis using crash by blast
qed

end
