(* ===== verification/Runtime.thy ===== *)
theory Runtime
  imports PyStr
begin

text \<open>
  \<open>fakeforce/runtime.py\<close> and \<open>fakeforce/deadline.py\<close>: the admission controller as a
  step relation over one lane per operation kind, the classification of request paths, and
  the outcome of a query run under a deadline. A step is what the event loop runs between two
  suspension points of \<open>slot\<close>; the semaphore is \<open>asyncio.Semaphore\<close>: its free
  permits, and the waiters it has granted a permit and not yet resumed.
\<close>

section \<open>Admission\<close>

datatype operation_kind = Lightweight | QueryOp | BulkQueryOp | BulkIngestOp

record lane =
  ln_permits :: nat
  ln_granted :: nat
  ln_active :: nat
  ln_queued :: nat

datatype lane_event =
  EnterFree | EnterWait | Grant | Resume | CancelWaiting | CancelGranted | Leave

inductive lane_step :: "lane_event \<Rightarrow> lane \<Rightarrow> lane \<Rightarrow> bool" where
  enter_free: "0 < ln_permits l \<Longrightarrow> ln_queued l = ln_granted l \<Longrightarrow>
     lane_step EnterFree l (l\<lparr>ln_permits := ln_permits l - 1, ln_active := ln_active l + 1\<rparr>)"
| enter_wait: "ln_permits l = 0 \<or> ln_granted l < ln_queued l \<Longrightarrow>
     lane_step EnterWait l (l\<lparr>ln_queued := ln_queued l + 1\<rparr>)"
| grant: "0 < ln_permits l \<Longrightarrow> ln_granted l < ln_queued l \<Longrightarrow>
     lane_step Grant l (l\<lparr>ln_permits := ln_permits l - 1, ln_granted := ln_granted l + 1\<rparr>)"
| resume: "0 < ln_granted l \<Longrightarrow>
     lane_step Resume l (l\<lparr>ln_granted := ln_granted l - 1, ln_queued := ln_queued l - 1,
        ln_active := ln_active l + 1\<rparr>)"
| cancel_waiting: "ln_granted l < ln_queued l \<Longrightarrow>
     lane_step CancelWaiting l (l\<lparr>ln_queued := ln_queued l - 1\<rparr>)"
| cancel_granted: "0 < ln_granted l \<Longrightarrow>
     lane_step CancelGranted l (l\<lparr>ln_granted := ln_granted l - 1, ln_queued := ln_queued l - 1,
        ln_permits := ln_permits l + 1\<rparr>)"
| leave: "0 < ln_active l \<Longrightarrow>
     lane_step Leave l (l\<lparr>ln_active := ln_active l - 1, ln_permits := ln_permits l + 1\<rparr>)"

inductive_cases lane_stepE: "lane_step ev l l'"

type_synonym controller = "operation_kind \<Rightarrow> lane"

definition new_lane :: "nat \<Rightarrow> lane" where
  "new_lane n = \<lparr>ln_permits = n, ln_granted = 0, ln_active = 0, ln_queued = 0\<rparr>"

fun workers_for :: "nat \<Rightarrow> nat \<Rightarrow> nat \<Rightarrow> operation_kind \<Rightarrow> nat" where
  "workers_for light heavy bulk Lightweight = light"
| "workers_for light heavy bulk QueryOp = heavy"
| "workers_for light heavy bulk BulkQueryOp = bulk"
| "workers_for light heavy bulk BulkIngestOp = bulk"

definition new_controller :: "nat \<Rightarrow> nat \<Rightarrow> nat \<Rightarrow> controller" where
  "new_controller light heavy bulk k = new_lane (workers_for light heavy bulk k)"

inductive controller_step :: "controller \<Rightarrow> controller \<Rightarrow> bool" where
  lane: "lane_step ev (c k) l \<Longrightarrow> controller_step c (c(k := l))"

record admission_snapshot =
  as_active :: "operation_kind \<Rightarrow> nat"
  as_queued :: "operation_kind \<Rightarrow> nat"

definition admission_snapshot_of :: "controller \<Rightarrow> admission_snapshot" where
  "admission_snapshot_of c = \<lparr>as_active = (\<lambda>k. ln_active (c k)), as_queued = (\<lambda>k. ln_queued (c k))\<rparr>"

definition lane_inv :: "nat \<Rightarrow> lane \<Rightarrow> bool" where
  "lane_inv cap l \<longleftrightarrow> ln_permits l + ln_granted l + ln_active l = cap \<and> ln_granted l \<le> ln_queued l"

lemma lane_inv_new: "lane_inv n (new_lane n)"
  by (simp add: lane_inv_def new_lane_def)

lemma lane_step_inv: "lane_step ev l l' \<Longrightarrow> lane_inv cap l \<Longrightarrow> lane_inv cap l'"
  by (erule lane_stepE) (auto simp: lane_inv_def)

lemma controller_reachable_inv:
  "controller_step\<^sup>*\<^sup>* (new_controller light heavy bulk) c \<Longrightarrow>
   lane_inv (workers_for light heavy bulk k) (c k)"
proof (induction rule: rtranclp_induct)
  case base
  show ?case by (simp add: new_controller_def lane_inv_new)
next
  case (step c d)
  then show ?case by (auto elim!: controller_step.cases intro: lane_step_inv)
qed

section \<open>Request classification\<close>

definition classify_operation :: "string \<Rightarrow> string \<Rightarrow> operation_kind" where
  "classify_operation path api_version =
     (let base = ''/services/data/'' @ api_version in
      if starts_with path (base @ ''/jobs/query'') then BulkQueryOp
      else if starts_with path (base @ ''/jobs/ingest'') then BulkIngestOp
      else if starts_with path (base @ ''/query'') \<or> ends_with path ''/deleted'' then QueryOp
      else Lightweight)"

section \<open>Deadlines\<close>

text \<open>What the waiting thread sees of the worker: its result, its exception, a
  \<open>TimeoutError\<close> it raised itself, or nothing within the time limit.\<close>

datatype ('e, 'a) worker = Finished 'a | Failed 'e | RaisedTimeout | StillRunning

datatype 'e deadline_error = DeadlineExceeded | WorkFailed 'e

record deadline_effects =
  de_interrupted :: bool
  de_waited :: bool

text \<open>\<open>connection\<close> is the connection the worker has published within the grace period,
  with whether it can be interrupted.\<close>

definition run_with_deadline ::
  "('e, 'a) worker \<Rightarrow> bool option \<Rightarrow> ('e deadline_error + 'a) \<times> deadline_effects" where
  "run_with_deadline w connection =
     (let late = (Err DeadlineExceeded,
        \<lparr>de_interrupted = (connection = Some True), de_waited = False\<rparr>) in
      case w of
        Finished x \<Rightarrow> (Ok x, \<lparr>de_interrupted = False, de_waited = True\<rparr>)
      | Failed e \<Rightarrow> (Err (WorkFailed e), \<lparr>de_interrupted = False, de_waited = True\<rparr>)
      | RaisedTimeout \<Rightarrow> late
      | StillRunning \<Rightarrow> late)"

lemma run_with_deadline_ok: "fst (run_with_deadline w c) = Ok x \<longleftrightarrow> w = Finished x"
  by (auto simp: run_with_deadline_def Let_def split: worker.split)

section \<open>Properties\<close>

text \<open>C16:
  in every reachable state of the admission controller no operation kind runs more
  requests than it has workers, and none waits for nothing: when a request is queued and not
  yet granted, either every worker of its kind is taken or granted, or a grant is enabled.\<close>

theorem admission_bounded:
  assumes "controller_step\<^sup>*\<^sup>* (new_controller light heavy bulk) c"
  shows "as_active (admission_snapshot_of c) k \<le> workers_for light heavy bulk k
    \<and> (ln_granted (c k) < as_queued (admission_snapshot_of c) k \<longrightarrow>
         ln_active (c k) + ln_granted (c k) = workers_for light heavy bulk k
         \<or> (\<exists>l. lane_step Grant (c k) l))"
proof -
  have inv: "lane_inv (workers_for light heavy bulk k) (c k)"
    using assms by (rule controller_reachable_inv)
  have "ln_permits (c k) = 0 \<or> 0 < ln_permits (c k)" by auto
  with inv show ?thesis
    by (auto simp: lane_inv_def admission_snapshot_of_def intro: lane_step.grant)
qed

lemma wit_admission:
  "controller_step\<^sup>*\<^sup>* (new_controller 8 1 1)
     ((new_controller 8 1 1)(QueryOp := \<lparr>ln_permits = 0, ln_granted = 0, ln_active = 1, ln_queued = 1\<rparr>))"
proof -
  let ?c = "new_controller 8 1 1"
  let ?l = "\<lparr>ln_permits = 0, ln_granted = 0, ln_active = 1, ln_queued = 0\<rparr>"
  have "lane_step EnterFree (?c QueryOp) ?l"
    using lane_step.enter_free [of "?c QueryOp"] by (simp add: new_controller_def new_lane_def)
  then have 1: "controller_step ?c (?c(QueryOp := ?l))" by (rule controller_step.lane)
  have "lane_step EnterWait ((?c(QueryOp := ?l)) QueryOp) \<lparr>ln_permits = 0, ln_granted = 0, ln_active = 1, ln_queued = 1\<rparr>"
    using lane_step.enter_wait [of ?l] by simp
  then have "controller_step (?c(QueryOp := ?l)) ((?c(QueryOp := ?l))(QueryOp :=
      \<lparr>ln_permits = 0, ln_granted = 0, ln_active = 1, ln_queued = 1\<rparr>))"
    by (rule controller_step.lane)
  with 1 show ?thesis by simp
qed

theorem admission_bounded_witness:
  "as_active (admission_snapshot_of ((new_controller 8 1 1)(QueryOp :=
     \<lparr>ln_permits = 0, ln_granted = 0, ln_active = 1, ln_queued = 1\<rparr>))) QueryOp \<le> 1"
  using admission_bounded [OF wit_admission, of QueryOp] by simp

end
