(* ===== verification/Http.thy ===== *)
theory Http
  imports Config BulkIngest BulkResults QueryService
begin

text \<open>
  The ground of \<open>fakeforce/app.py\<close>: what a request handler answers, the process state all
  handlers share, Salesforce-shaped errors and the OAuth token table. A handler is an effect on
  the shared state; an exception that an exception handler turns into a response is that
  response, any other exception is \<open>Crash\<close> (the framework answers 500). Clock readings are
  the argument \<open>now\<close> in microseconds, random tokens are arguments.
\<close>

section \<open>Answers\<close>

datatype http_error =
  SfError nat string string "(string \<times> string) list"
| HttpError nat "json list"
| Crash string

definition sf_error :: "nat \<Rightarrow> string \<Rightarrow> string \<Rightarrow> http_error" where
  "sf_error status code message = SfError status code message []"

definition not_found :: http_error where
  "not_found = sf_error 404 ''NOT_FOUND'' ''The requested resource does not exist''"

section \<open>The shared state\<close>

type_synonym knobs = "(string, json) dict"

record app_world =
  aw_store :: store
  aw_tokens :: "(string, timestamp) dict"
  aw_request_times :: "timestamp list"
  aw_chaos :: knobs
  aw_indexes :: index_fs
  aw_uploads :: "string fs"
  aw_results :: out_dirs
  aw_tables :: "string \<Rightarrow> sql_row list"
  aw_queue :: "(bulk_job_type \<times> string) list"

type_synonym 'a handler = "(app_world, http_error, 'a) eff"

record app_env =
  ap_settings :: settings
  ap_catalog :: catalog
  ap_snapshot_id :: string
  ap_run :: runner
  ap_fmt :: "sql_value \<Rightarrow> string"
  ap_sha256 :: "string \<Rightarrow> string"
  ap_wording :: "string \<Rightarrow> query_error \<Rightarrow> string"
  ap_deleted :: "string \<Rightarrow> int \<Rightarrow> int \<Rightarrow> (sql_value \<times> sql_value) list option"
  ap_defaults :: knobs
  ap_resolve :: "path \<Rightarrow> path"
  ap_cursor_directory :: path
  ap_upload_root :: path
  ap_results_root :: path

definition api_version :: string where "api_version = ''v60.0''"

text \<open>A method of the state store called by a handler: an exception it raises is not handled.\<close>

definition on_store :: "'a store_op \<Rightarrow> (store_error \<Rightarrow> http_error) \<Rightarrow> 'a handler" where
  "on_store m f w =
     (case m (aw_store w) of
        (Err e, s) \<Rightarrow> (Err (f e), w\<lparr>aw_store := s\<rparr>)
      | (Ok x, s) \<Rightarrow> (Ok x, w\<lparr>aw_store := s\<rparr>))"

definition store_crash :: "store_error \<Rightarrow> http_error" where
  "store_crash e =
     (case e of
        ConstraintError k \<Rightarrow> Crash ''ConstraintException''
      | JobKeyError j \<Rightarrow> Crash ''KeyError''
      | TransitionError a b \<Rightarrow> Crash ''InvalidJobTransition''
      | JobAssertionError \<Rightarrow> Crash ''AssertionError'')"

section \<open>Tokens\<close>

definition seconds_us :: "int \<Rightarrow> int" where "seconds_us n = n * 1000000"

definition invalid_session :: http_error where
  "invalid_session = sf_error 401 ''INVALID_SESSION_ID'' ''Session expired or invalid''"

definition bearer_token :: "string \<Rightarrow> string" where
  "bearer_token authorization = (case partition_chr (CHR '' '') authorization of (_, _, t) \<Rightarrow> strip t)"

definition require_token :: "timestamp \<Rightarrow> string option \<Rightarrow> unit handler" where
  "require_token now authorization w =
     (case authorization of
        None \<Rightarrow> (Err invalid_session, w)
      | Some a \<Rightarrow>
          if a = [] \<or> \<not> starts_with (str_lower a) ''bearer '' then (Err invalid_session, w)
          else
            (case map_of (aw_tokens w) (bearer_token a) of
               None \<Rightarrow> (Err invalid_session, w)
             | Some expires \<Rightarrow>
                 if expires < now
                 then (Err invalid_session, w\<lparr>aw_tokens := AList.delete (bearer_token a) (aw_tokens w)\<rparr>)
                 else (Ok (), w)))"

text \<open>The body of a token request after decoding: a JSON text, or the lists of values of a form.\<close>

datatype token_body =
  MalformedJson string
| JsonForm "(string \<times> json) list"
| UrlForm "(string \<times> string list) list"

record token_response =
  tr_access_token :: string
  tr_issued_at :: timestamp
  tr_expires_in :: int

definition form_value :: "token_body \<Rightarrow> string \<Rightarrow> bool" where
  "form_value b k =
     (case b of
        MalformedJson m \<Rightarrow> False
      | JsonForm d \<Rightarrow> truthy (jget k d)
      | UrlForm d \<Rightarrow> (case map_of d k of None \<Rightarrow> False | Some vs \<Rightarrow> vs \<noteq> [] \<and> hd vs \<noteq> []))"

definition issue_token ::
  "timestamp \<Rightarrow> string \<Rightarrow> string option \<Rightarrow> token_body \<Rightarrow> token_response handler" where
  "issue_token now tok ttl_env b w =
     (case b of
        MalformedJson m \<Rightarrow> (Err (sf_error 400 ''JSON_PARSER_ERROR'' (''Cannot parse request body: '' @ m)), w)
      | _ \<Rightarrow>
          if \<not> form_value b ''client_id'' \<or> \<not> form_value b ''client_secret'' then
            (Err (sf_error 400 ''invalid_client'' ''client identifier invalid''), w)
          else
            (case (case ttl_env of None \<Rightarrow> Some 3600 | Some t \<Rightarrow> py_int t) of
               None \<Rightarrow> (Err (Crash ''ValueError''), w)
             | Some ttl \<Rightarrow>
                 (Ok \<lparr>tr_access_token = tok, tr_issued_at = now, tr_expires_in = ttl\<rparr>,
                  w\<lparr>aw_tokens := dict_set tok (now + seconds_us ttl) (aw_tokens w)\<rparr>)))"

section \<open>Lemmas\<close>

lemma partition_bearer: "partition_chr (CHR '' '') (''Bearer '' @ t) = (''Bearer'', True, t)"
  by (simp add: partition_chr_def)

lemma bearer_header:
  "starts_with (str_lower (''Bearer '' @ t)) ''bearer ''"
proof -
  have "str_lower ''Bearer '' = ''bearer ''" by code_simp
  then have "str_lower (''Bearer '' @ t) = ''bearer '' @ str_lower t" by (simp only: str_lower_def map_append)
  then show ?thesis by (simp only: starts_with_append)
qed

lemma require_token_iff:
  assumes "strip t = t"
  shows "fst (require_token now (Some (''Bearer '' @ t)) w) = Ok () \<longleftrightarrow>
     (\<exists>e. map_of (aw_tokens w) t = Some e \<and> now \<le> e)"
proof -
  have b: "bearer_token (''Bearer '' @ t) = t" unfolding bearer_token_def partition_bearer by (simp add: assms)
  show ?thesis
    unfolding require_token_def b option.case using bearer_header [of t]
    by (auto simp del: append.simps split: option.splits)
qed

lemma require_token_frame:
  "require_token now a w = (r, u) \<Longrightarrow> \<exists>ts. u = w\<lparr>aw_tokens := ts\<rparr>"
  by (auto simp: require_token_def split: option.splits if_splits) (metis app_world.surjective app_world.update_convs(2))+

lemma require_token_ok: "require_token now a w = (Ok (), u) \<Longrightarrow> u = w"
  by (auto simp: require_token_def split: option.splits if_splits)

end
