(* ===== verification/Chaos.thy ===== *)
theory Chaos
  imports Http
begin

text \<open>
  The chaos knobs of \<open>fakeforce/app.py\<close>, the middleware that applies them to data requests and
  the admin endpoints that set them. Knob values are whatever JSON the admin endpoint was sent;
  using one that is not a number where Python needs a number is a \<open>TypeError\<close>. Times are
  microseconds, seconds on the wire are rationals, random draws are arguments.
\<close>

section \<open>Numbers\<close>

fun number :: "json \<Rightarrow> rat option" where
  "number (JBool b) = Some (if b then 1 else 0)"
| "number (JInt i) = Some (of_int i)"
| "number (JFloat r) = Some r"
| "number _ = None"

definition need_number :: "json \<Rightarrow> http_error + rat" where
  "need_number v = of_opt (Crash ''TypeError'') (number v)"

definition seconds :: "timestamp \<Rightarrow> rat" where "seconds t = of_int t / 1000000"

definition trunc :: "rat \<Rightarrow> int" where
  "trunc r = (if r \<ge> 0 then \<lfloor>r\<rfloor> else - \<lfloor>- r\<rfloor>)"

section \<open>The middleware\<close>

record limit_info =
  li_usage :: nat
  li_cap :: json

datatype gate = Bypass | Blocked http_error limit_info | Passed nat

definition data_path :: "string \<Rightarrow> bool" where
  "data_path path \<longleftrightarrow> starts_with path (''/services/data/'' @ api_version)"

definition knob :: "string \<Rightarrow> app_world \<Rightarrow> json" where
  "knob k w = jget k (aw_chaos w)"

definition count_call :: "timestamp \<Rightarrow> string \<Rightarrow> string \<Rightarrow> nat handler" where
  "count_call now event path = on_store (record_api_usage now event path) store_crash"

definition with_limit_info :: "http_error \<Rightarrow> nat \<Rightarrow> gate handler" where
  "with_limit_info response usage w =
     (Ok (Blocked response \<lparr>li_usage = usage, li_cap = knob ''daily_api_limit'' w\<rparr>), w)"

definition block :: "timestamp \<Rightarrow> string \<Rightarrow> string \<Rightarrow> http_error \<Rightarrow> gate handler" where
  "block now event path response = ebind (count_call now event path) (with_limit_info response)"

definition recent :: "timestamp \<Rightarrow> timestamp list \<Rightarrow> timestamp list" where
  "recent now stamps = filter (\<lambda>t. now - t < seconds_us 60) stamps"

definition outage_error :: "int \<Rightarrow> http_error" where
  "outage_error remaining = SfError 503 ''SERVER_UNAVAILABLE''
     (''Service unavailable (simulated outage, '' @ int_str remaining @ ''s remaining)'')
     [(''Retry-After'', int_str (min remaining 60))]"

definition limit_error :: "int \<Rightarrow> http_error" where
  "limit_error retry_after = SfError 429 ''REQUEST_LIMIT_EXCEEDED'' ''TotalRequests Limit exceeded.''
     [(''Retry-After'', int_str retry_after)]"

definition retry_after :: "timestamp \<Rightarrow> timestamp \<Rightarrow> int" where
  "retry_after now oldest = max 1 (trunc (60 - seconds (now - oldest)))"

text \<open>The steps before the first suspension point: outage, rolling rate limit, usage count.\<close>

definition chaos_gate :: "timestamp \<Rightarrow> string \<Rightarrow> string \<Rightarrow> gate handler" where
  "chaos_gate now event path =
     (if \<not> data_path path then eret Bypass
      else
        ebind (eget (knob ''outage_until'')) (\<lambda>until_knob.
        ebind (elift (need_number until_knob)) (\<lambda>until.
        if until > seconds now then block now event path (outage_error (trunc (until - seconds now)))
        else
          ebind (emodify (\<lambda>w. w\<lparr>aw_request_times := recent now (aw_request_times w)\<rparr>)) (\<lambda>_.
          ebind (eget aw_request_times) (\<lambda>stamps.
          ebind (eget (knob ''rate_limit_per_min'')) (\<lambda>limit_knob.
          ebind (elift (need_number limit_knob)) (\<lambda>limit.
          if of_nat (length stamps) \<ge> limit then
            (case stamps of
               [] \<Rightarrow> eraise (Crash ''ValueError'')
             | t # ts \<Rightarrow> block now event path (limit_error (retry_after now (fold min ts t))))
          else
            ebind (emodify (\<lambda>w. w\<lparr>aw_request_times := aw_request_times w @ [now]\<rparr>)) (\<lambda>_.
            ebind (count_call now event path) (\<lambda>usage. eret (Passed usage))))))))))"

text \<open>
  The steps that follow read the knobs again, after each sleep: the latency and hang delays in
  seconds, then the injected failure, if any.
\<close>

definition latency_seconds :: "knobs \<Rightarrow> http_error + rat" where
  "latency_seconds ks =
     (let v = jget ''latency_ms'' ks in
      if truthy v then rbind (need_number v) (\<lambda>ms. Ok (ms / 1000)) else Ok 0)"

definition hang_seconds :: "knobs \<Rightarrow> rat \<Rightarrow> http_error + rat" where
  "hang_seconds ks draw =
     rbind (need_number (jget ''hang_rate'' ks)) (\<lambda>p. Ok (if draw < p then 30 else 0))"

definition injected_fault :: "knobs \<Rightarrow> rat \<Rightarrow> rat \<Rightarrow> http_error + http_error option" where
  "injected_fault ks error_draw bad_draw =
     rbind (need_number (jget ''error_rate'' ks)) (\<lambda>p.
       if error_draw < p then
         Ok (Some (SfError 503 ''SERVER_UNAVAILABLE'' ''Server error, please try again later'' [(''Retry-After'', ''5'')]))
       else
         rbind (need_number (jget ''bad_request_rate'' ks)) (\<lambda>q.
           if bad_draw < q then
             Ok (Some (sf_error 400 ''MALFORMED_QUERY'' ''unexpected token: simulated permanent failure''))
           else Ok None))"

datatype verdict = Unguarded | Answered http_error limit_info | Forwarded rat nat

definition chaos_middleware ::
  "timestamp \<Rightarrow> string \<Rightarrow> string \<Rightarrow> knobs \<Rightarrow> knobs \<Rightarrow> rat \<Rightarrow> rat \<Rightarrow> rat \<Rightarrow> verdict handler" where
  "chaos_middleware now event path after_latency after_hang hang_draw error_draw bad_draw =
     ebind (chaos_gate now event path) (\<lambda>g.
       case g of
         Bypass \<Rightarrow> eret Unguarded
       | Blocked e info \<Rightarrow> eret (Answered e info)
       | Passed usage \<Rightarrow>
           ebind (eget aw_chaos) (\<lambda>ks.
           ebind (elift (latency_seconds ks)) (\<lambda>latency.
           ebind (elift (hang_seconds after_latency hang_draw)) (\<lambda>hang.
           ebind (elift (injected_fault after_hang error_draw bad_draw)) (\<lambda>f.
             case f of
               Some e \<Rightarrow> eret (Answered e \<lparr>li_usage = usage, li_cap = jget ''daily_api_limit'' after_hang\<rparr>)
             | None \<Rightarrow> eret (Forwarded (latency + hang) usage))))))"

section \<open>Administration\<close>

record chaos_report =
  cr_knobs :: knobs
  cr_outage_remaining :: int
  cr_requests_last_60s :: nat
  cr_api_calls :: nat

definition get_chaos :: "timestamp \<Rightarrow> chaos_report handler" where
  "get_chaos now =
     ebind (eget (\<lambda>w. need_number (knob ''outage_until'' w))) (\<lambda>until_number.
     ebind (elift until_number) (\<lambda>until.
     eget (\<lambda>w. \<lparr>cr_knobs = AList.delete ''outage_until'' (aw_chaos w),
       cr_outage_remaining = max 0 (trunc (until - seconds now)),
       cr_requests_last_60s = length (recent now (aw_request_times w)),
       cr_api_calls = api_usage_last_24_hours now (aw_store w)\<rparr>)))"

text \<open>\<open>set(body) - set(DEFAULTS)\<close> for any JSON body, and \<open>dict.update\<close> with it.\<close>

definition hashable :: "json \<Rightarrow> bool" where
  "hashable v = (case v of JList _ \<Rightarrow> False | JObj _ \<Rightarrow> False | _ \<Rightarrow> True)"

definition unknown_knobs :: "app_env \<Rightarrow> json list \<Rightarrow> json list" where
  "unknown_knobs env ks = filter (\<lambda>k. k \<notin> (JStr \<circ> fst) ` set (ap_defaults env)) (remdups ks)"

definition all_numbers :: "json list \<Rightarrow> bool" where
  "all_numbers vs \<longleftrightarrow> (\<forall>v \<in> set vs. number v \<noteq> None)"

definition all_texts :: "json list \<Rightarrow> bool" where
  "all_texts vs \<longleftrightarrow> (\<forall>v \<in> set vs. json_str v \<noteq> None)"

definition reject_unknown :: "json list \<Rightarrow> http_error" where
  "reject_unknown unknown =
     (if length unknown \<le> 1 \<or> all_numbers unknown \<or> all_texts unknown then HttpError 400 unknown
      else Crash ''TypeError'')"

definition set_chaos :: "app_env \<Rightarrow> timestamp \<Rightarrow> json \<Rightarrow> chaos_report handler" where
  "set_chaos env now body =
     (case body of
        JObj kvs \<Rightarrow>
          (case unknown_knobs env (map (JStr \<circ> fst) kvs) of
             [] \<Rightarrow> ebind (emodify (\<lambda>w. w\<lparr>aw_chaos := dict_update (aw_chaos w) kvs\<rparr>)) (\<lambda>_. get_chaos now)
           | u # us \<Rightarrow> eraise (reject_unknown (u # us)))
      | JList vs \<Rightarrow>
          if \<not> list_all hashable vs then eraise (Crash ''TypeError'')
          else
            (case unknown_knobs env vs of
               u # us \<Rightarrow> eraise (reject_unknown (u # us))
             | [] \<Rightarrow> if vs = [] then get_chaos now else eraise (Crash ''ValueError''))
      | JStr s \<Rightarrow>
          (case unknown_knobs env (map (\<lambda>c. JStr [c]) s) of
             u # us \<Rightarrow> eraise (reject_unknown (u # us))
           | [] \<Rightarrow> if s = [] then get_chaos now else eraise (Crash ''ValueError''))
      | _ \<Rightarrow> eraise (Crash ''TypeError''))"

definition json_int :: "json \<Rightarrow> http_error + int" where
  "json_int v =
     (case v of
        JInt i \<Rightarrow> Ok i
      | JBool b \<Rightarrow> Ok (if b then 1 else 0)
      | JFloat r \<Rightarrow> Ok (trunc r)
      | JStr s \<Rightarrow> of_opt (Crash ''ValueError'') (py_int s)
      | _ \<Rightarrow> Err (Crash ''TypeError''))"

definition outage :: "timestamp \<Rightarrow> json option \<Rightarrow> chaos_report handler" where
  "outage now body =
     (case (case body of None \<Rightarrow> JObj [] | Some b \<Rightarrow> b) of
        JObj d \<Rightarrow>
          ebind (elift (json_int (jget_or ''seconds'' (JInt 60) d))) (\<lambda>n.
          ebind (emodify (\<lambda>w. w\<lparr>aw_chaos := dict_set ''outage_until'' (JFloat (seconds now + of_int n)) (aw_chaos w)\<rparr>))
            (\<lambda>_. get_chaos now))
      | _ \<Rightarrow> eraise (Crash ''AttributeError''))"

definition reset_chaos :: "app_env \<Rightarrow> timestamp \<Rightarrow> chaos_report handler" where
  "reset_chaos env now =
     ebind (emodify (\<lambda>w. w\<lparr>
         aw_chaos := dict_set ''outage_until'' (JFloat 0) (dict_update (aw_chaos w) (ap_defaults env)),
         aw_request_times := []\<rparr>))
       (\<lambda>_. get_chaos now)"

section \<open>The rate limit\<close>

text \<open>Consecutive requests: their times and usage ids; the times of those let through.\<close>

fun gate_run :: "string \<Rightarrow> (timestamp \<times> string) list \<Rightarrow> app_world \<Rightarrow> timestamp list \<times> app_world" where
  "gate_run path [] w = ([], w)"
| "gate_run path ((now, event) # reqs) w =
     (case chaos_gate now event path w of
        (r, u) \<Rightarrow> (case gate_run path reqs u of
          (admitted, v) \<Rightarrow> ((case r of Ok (Passed n) \<Rightarrow> now # admitted | _ \<Rightarrow> admitted), v)))"

lemma on_store_frame: "on_store m f w = (r, u) \<Longrightarrow> \<exists>s. u = w\<lparr>aw_store := s\<rparr>"
  by (auto simp: on_store_def split: prod.splits sum.splits)

lemma block_frame:
  assumes "block now event path e w = (r, u)"
  shows "aw_request_times u = aw_request_times w" "aw_chaos u = aw_chaos w" "r \<noteq> Ok (Passed n)"
proof -
  obtain q v where c: "count_call now event path w = (q, v)" by (cases "count_call now event path w")
  then obtain s where "v = w\<lparr>aw_store := s\<rparr>" unfolding count_call_def using on_store_frame by blast
  with c assms show "aw_request_times u = aw_request_times w" "aw_chaos u = aw_chaos w" "r \<noteq> Ok (Passed n)"
    by (auto simp: block_def ebind_def with_limit_info_def split: sum.splits)
qed

text \<open>A request changes the times by dropping the old ones and, when let through, adding its own.\<close>

lemma gate_cases:
  assumes "chaos_gate now event path w = (r, u)"
  shows "aw_chaos u = aw_chaos w"
    and "aw_request_times u = aw_request_times w \<and> (\<forall>n. r \<noteq> Ok (Passed n))
       \<or> aw_request_times u = recent now (aw_request_times w) \<and> (\<forall>n. r \<noteq> Ok (Passed n))
       \<or> aw_request_times u = recent now (aw_request_times w) @ [now]
         \<and> (\<forall>l. number (knob ''rate_limit_per_min'' w) = Some l \<longrightarrow> of_nat (length (recent now (aw_request_times w))) < l)"
proof -
  let ?v = "w\<lparr>aw_request_times := recent now (aw_request_times w)\<rparr>"
  let ?p = "w\<lparr>aw_request_times := recent now (aw_request_times w) @ [now]\<rparr>"
  have count: "\<exists>q s. count_call now event path x = (q, x\<lparr>aw_store := s\<rparr>)" for x
    unfolding count_call_def using on_store_frame by (metis prod.exhaust)
  from count [of ?p] obtain q s where c: "count_call now event path ?p = (q, ?p\<lparr>aw_store := s\<rparr>)" by blast
  have b: "aw_request_times (snd (block now event path e x)) = aw_request_times x"
    "aw_chaos (snd (block now event path e x)) = aw_chaos x" "fst (block now event path e x) \<noteq> Ok (Passed n)" for e x n
    using block_frame [of now event path e x] by (metis prod.collapse)+
  consider "\<not> data_path path" | "data_path path" "number (knob ''outage_until'' w) = None"
    | un where "data_path path" "number (knob ''outage_until'' w) = Some un" "un > seconds now"
    | un where "data_path path" "number (knob ''outage_until'' w) = Some un" "\<not> un > seconds now"
        "number (knob ''rate_limit_per_min'' w) = None"
    | un l where "data_path path" "number (knob ''outage_until'' w) = Some un" "\<not> un > seconds now"
        "number (knob ''rate_limit_per_min'' w) = Some l" by fastforce
  then have "aw_chaos u = aw_chaos w \<and> (aw_request_times u = aw_request_times w \<and> (\<forall>n. r \<noteq> Ok (Passed n))
       \<or> aw_request_times u = recent now (aw_request_times w) \<and> (\<forall>n. r \<noteq> Ok (Passed n))
       \<or> aw_request_times u = recent now (aw_request_times w) @ [now]
         \<and> (\<forall>l. number (knob ''rate_limit_per_min'' w) = Some l \<longrightarrow> of_nat (length (recent now (aw_request_times w))) < l))"
  proof cases
    case (3 un)
    then have "(r, u) = block now event path (outage_error (trunc (un - seconds now))) w"
      using assms by (simp add: chaos_gate_def ebind_def eget_def elift_def need_number_def of_opt_def)
    then show ?thesis using b [of "outage_error (trunc (un - seconds now))" w] by (metis fst_conv snd_conv)
  next
    case (5 un l)
    show ?thesis
    proof (cases "of_nat (length (recent now (aw_request_times w))) \<ge> l")
      case True
      show ?thesis
      proof (cases "recent now (aw_request_times w)")
        case Nil
        with True assms 5 have "u = ?v" "r = Err (Crash ''ValueError'')"
          by (simp_all add: chaos_gate_def ebind_def eget_def elift_def emodify_def eraise_def need_number_def of_opt_def knob_def)
        then show ?thesis by simp
      next
        case (Cons t ts)
        with True assms 5 have "(r, u) = block now event path (limit_error (retry_after now (fold min ts t))) ?v"
          by (simp add: chaos_gate_def ebind_def eget_def elift_def emodify_def need_number_def of_opt_def knob_def)
        then show ?thesis using b [of "limit_error (retry_after now (fold min ts t))" ?v]
          by (cases "block now event path (limit_error (retry_after now (fold min ts t))) ?v") simp
      qed
    next
      case False
      then have "u = ?p\<lparr>aw_store := s\<rparr>"
        using assms 5 c
        by (simp add: chaos_gate_def ebind_def eget_def elift_def emodify_def eret_def need_number_def of_opt_def knob_def
            split: sum.splits)
      then show ?thesis using 5 False by simp
    qed
  qed (use assms in \<open>auto simp: chaos_gate_def ebind_def eget_def elift_def emodify_def eret_def need_number_def of_opt_def knob_def\<close>)
  then show "aw_chaos u = aw_chaos w"
    "aw_request_times u = aw_request_times w \<and> (\<forall>n. r \<noteq> Ok (Passed n))
       \<or> aw_request_times u = recent now (aw_request_times w) \<and> (\<forall>n. r \<noteq> Ok (Passed n))
       \<or> aw_request_times u = recent now (aw_request_times w) @ [now]
         \<and> (\<forall>l. number (knob ''rate_limit_per_min'' w) = Some l \<longrightarrow> of_nat (length (recent now (aw_request_times w))) < l)"
    by blast+
qed

text \<open>The list of times counts at least the requests let through so far.\<close>

definition times_cover :: "timestamp \<Rightarrow> timestamp list \<Rightarrow> timestamp list \<Rightarrow> bool" where
  "times_cover now admitted stamps \<longleftrightarrow>
     (\<forall>later \<ge> now. length (recent later admitted) \<le> length (recent later stamps))"

lemma recent_recent: "now \<le> later \<Longrightarrow> recent later (recent now stamps) = recent later stamps"
  by (auto simp: recent_def intro!: filter_cong)

lemma recent_append: "recent now (as @ bs) = recent now as @ recent now bs"
  by (simp add: recent_def)

definition in_window :: "timestamp \<Rightarrow> timestamp list \<Rightarrow> nat" where
  "in_window x admitted = length (filter (\<lambda>t. x \<le> t \<and> t < x + seconds_us 60) admitted)"

lemma in_window_recent:
  assumes "x \<le> now" "now < x + seconds_us 60"
  shows "in_window x admitted \<le> length (recent now admitted)"
proof -
  have "filter (\<lambda>t. x \<le> t \<and> t < x + seconds_us 60) admitted
      = filter (\<lambda>t. x \<le> t \<and> t < x + seconds_us 60) (recent now admitted)"
    using assms by (auto simp: recent_def intro!: filter_cong)
  then show ?thesis unfolding in_window_def by (metis length_filter_le)
qed

definition let_through :: "http_error + gate \<Rightarrow> timestamp \<Rightarrow> timestamp list" where
  "let_through r t = (case r of Ok (Passed n) \<Rightarrow> [t] | _ \<Rightarrow> [])"

lemma let_through_cases: "let_through r t = [] \<or> let_through r t = [t] \<and> (\<exists>n. r = Ok (Passed n))"
  by (auto simp: let_through_def split: sum.split gate.split)

lemma gate_keeps_window:
  assumes g: "chaos_gate t event path w = (r, u)" and "now \<le> t"
    and cov: "times_cover now before (aw_request_times w)"
    and k: "knob ''rate_limit_per_min'' w = JInt (int k)" and win: "\<forall>x. in_window x before \<le> k"
  shows "times_cover t (before @ let_through r t) (aw_request_times u)" "\<forall>x. in_window x (before @ let_through r t) \<le> k"
proof -
  note gc = gate_cases(2) [OF g]
  have old: "length (recent later before) \<le> length (recent later (aw_request_times w))" if "t \<le> later" for later
    using cov assms(2) that by (simp add: times_cover_def)
  have "times_cover t (before @ let_through r t) (aw_request_times u) \<and> (\<forall>x. in_window x (before @ let_through r t) \<le> k)"
  proof (cases "let_through r t = []")
    case True
    have "length (recent later before) \<le> length (recent later (aw_request_times u))" if "t \<le> later" for later
      using gc old [OF that] recent_recent [OF that, of "aw_request_times w"] by (auto simp: recent_append)
    then show ?thesis using True win by (simp add: times_cover_def)
  next
    case False
    then have pass: "let_through r t = [t]" "\<exists>n. r = Ok (Passed n)" using let_through_cases by blast+
    then have u: "aw_request_times u = recent t (aw_request_times w) @ [t]"
      and room: "length (recent t (aw_request_times w)) < k"
      using gc k by auto
    have "length (recent later (before @ [t])) \<le> length (recent later (aw_request_times u))" if "t \<le> later" for later
      using old [OF that] recent_recent [OF that, of "aw_request_times w"] by (simp add: u recent_append)
    moreover have "in_window x (before @ [t]) \<le> k" for x
    proof (cases "x \<le> t \<and> t < x + seconds_us 60")
      case True
      then have "in_window x before \<le> length (recent t before)" by (simp add: in_window_recent)
      also have "\<dots> < k" using old [of t] room by simp
      finally show ?thesis using True by (simp add: in_window_def)
    next
      case False
      then show ?thesis using win [rule_format, of x] by (auto simp: in_window_def)
    qed
    ultimately show ?thesis by (simp add: pass(1) times_cover_def)
  qed
  then show "times_cover t (before @ let_through r t) (aw_request_times u)" "\<forall>x. in_window x (before @ let_through r t) \<le> k"
    by blast+
qed

lemma gate_run_window:
  assumes "sorted (now # map fst reqs)" "times_cover now before (aw_request_times w)"
    "knob ''rate_limit_per_min'' w = JInt (int k)" "\<forall>x. in_window x before \<le> k"
  shows "in_window x (before @ fst (gate_run path reqs w)) \<le> k"
  using assms
proof (induction reqs arbitrary: now before w)
  case (Cons req reqs)
  obtain t event where req: "req = (t, event)" by (cases req)
  obtain r u where g: "chaos_gate t event path w = (r, u)" by (cases "chaos_gate t event path w")
  have run: "before @ fst (gate_run path (req # reqs) w) = (before @ let_through r t) @ fst (gate_run path reqs u)"
    by (auto simp: req g let_through_def split: prod.split sum.split gate.split)
  have le: "now \<le> t" "sorted (t # map fst reqs)" using Cons.prems(1) by (simp_all add: req)
  have "knob ''rate_limit_per_min'' u = JInt (int k)"
    using gate_cases(1) [OF g] Cons.prems(3) by (simp add: knob_def)
  from Cons.IH [OF le(2) gate_keeps_window(1) [OF g le(1) Cons.prems(2-4)] this
      gate_keeps_window(2) [OF g le(1) Cons.prems(2-4)]]
  show ?case unfolding run .
qed simp

text \<open>C29:
  The rolling rate limit holds in every window, not only the minutes of the clock: while the knob
  is the integer k, of any requests in time order at most k let through lie within any 60 seconds.
\<close>

theorem rate_limit_every_window:
  assumes "sorted (map fst reqs)" "knob ''rate_limit_per_min'' w = JInt (int k)" "aw_request_times w = []"
  shows "length (filter (\<lambda>t. x \<le> t \<and> t < x + seconds_us 60) (fst (gate_run path reqs w))) \<le> k"
proof (cases reqs)
  case (Cons req rest)
  have "times_cover (fst req) [] (aw_request_times w)" by (simp add: times_cover_def recent_def)
  then have "in_window x ([] @ fst (gate_run path reqs w)) \<le> k"
    using assms(1,2) Cons by (intro gate_run_window [where now = "fst req"]) (auto simp: in_window_def)
  then show ?thesis by (simp add: in_window_def)
qed simp

definition wit_knobs :: "int \<Rightarrow> knobs" where
  "wit_knobs limit = [(''error_rate'', JFloat 0), (''bad_request_rate'', JFloat 0), (''latency_ms'', JInt 0),
     (''hang_rate'', JFloat 0), (''rate_limit_per_min'', JInt limit), (''page_size'', JInt 2),
     (''drift_after'', JStr []), (''outage_until'', JFloat 0), (''daily_api_limit'', JInt 15000)]"

definition wit_app :: "int \<Rightarrow> timestamp list \<Rightarrow> app_world" where
  "wit_app limit stamps = \<lparr>aw_store = empty_store, aw_tokens = [], aw_request_times = stamps, aw_chaos = wit_knobs limit,
     aw_indexes = (\<lambda>_. None), aw_uploads = (\<lambda>_. None), aw_results = (\<lambda>_. None), aw_tables = (\<lambda>_. []), aw_queue = []\<rparr>"

definition wit_path :: string where "wit_path = ''/services/data/v60.0/limits''"

theorem rate_limit_every_window_witness:
  "length (filter (\<lambda>t. 3 \<le> t \<and> t < 3 + seconds_us 60)
     (fst (gate_run wit_path [(5, ''a''), (6, ''b''), (7, ''c''), (70000000, ''d'')] (wit_app (int 2) [])))) \<le> 2"
  by (rule rate_limit_every_window) (simp_all add: wit_app_def wit_knobs_def knob_def jget_or_def dict_get_or_def)

section \<open>Retry-After\<close>

text \<open>
  The Retry-After of a 429 answer is too short whenever the oldest counted request is not a whole
  number of seconds old: with no other request in between, a client that waits exactly that long
  is refused again, because the header rounds the remaining time down.
\<close>

theorem retry_after_refused_again:
  assumes "data_path path" "number (knob ''outage_until'' w) = Some un" "un \<le> seconds now"
    and "number (knob ''rate_limit_per_min'' w) = Some l"
    and "recent now (aw_request_times w) = oldest # rest" "\<forall>t \<in> set rest. oldest \<le> t" "oldest \<le> now"
    and "l \<le> of_nat (length (oldest # rest))"
    and "(now - oldest) mod seconds_us 1 \<noteq> 0" "now - oldest < seconds_us 59"
    and "chaos_gate now event path w = (Ok (Blocked e info), u)"
  shows "\<exists>n. e = limit_error n \<and> (\<exists>r v. chaos_gate (now + seconds_us n) event' path u = (r, v) \<and> (\<forall>c. r \<noteq> Ok (Passed c)))"
proof -
  define n where "n = retry_after now oldest"
  let ?v = "w\<lparr>aw_request_times := oldest # rest\<rparr>"
  have "fold min rest oldest = oldest" using assms(6)
    by (induction rest) (auto simp: min_def)
  then have blk: "block now event path (limit_error n) ?v = (Ok (Blocked e info), u)"
    using assms(1-5,8,11)
    by (auto simp: chaos_gate_def ebind_def eget_def elift_def emodify_def need_number_def of_opt_def knob_def n_def)
  then have e: "e = limit_error n"
    by (auto simp: block_def ebind_def with_limit_info_def split: prod.splits sum.splits)
  have u: "aw_request_times u = oldest # rest" "aw_chaos u = aw_chaos w"
    using block_frame [OF blk] by simp_all
  define d where "d = now - oldest"
  have d: "0 \<le> d" "d < 59000000" "d mod 1000000 \<noteq> 0" using assms(7,9,10) by (simp_all add: d_def seconds_us_def)
  have "n = 60 - d div 1000000 - 1"
  proof -
    have "seconds d = of_int (d div 1000000) + of_int (d mod 1000000) / 1000000"
    proof -
      have "of_int d = (of_int (1000000 * (d div 1000000) + d mod 1000000) :: rat)" by (simp only: mult_div_mod_eq)
      then show ?thesis unfolding seconds_def of_int_add of_int_mult by (simp add: add_divide_distrib)
    qed
    moreover have "0 < d mod 1000000" "d mod 1000000 < 1000000" using d(3) pos_mod_sign [of 1000000 d] pos_mod_bound [of 1000000 d] by linarith+
    then have "0 < (of_int (d mod 1000000) :: rat) / 1000000" "(of_int (d mod 1000000) :: rat) / 1000000 < 1"
      by (simp_all add: divide_simps)
    ultimately have fl: "\<lfloor>60 - seconds d\<rfloor> = 60 - d div 1000000 - 1"
      by (intro floor_unique) (simp_all)
    have "d div 1000000 \<le> 58" using d(1,2) by linarith
    then have "0 \<le> \<lfloor>60 - seconds d\<rfloor>" using fl by linarith
    then have "0 \<le> 60 - seconds d" by (simp only: zero_le_floor)
    then have "trunc (60 - seconds d) = 60 - d div 1000000 - 1" using fl by (simp only: trunc_def if_True)
    then show ?thesis using \<open>d div 1000000 \<le> 58\<close> by (simp add: n_def retry_after_def d_def)
  qed
  then have wait: "seconds_us n + d < seconds_us 60" "0 \<le> n"
    using d mult_div_mod_eq [of 1000000 d] pos_mod_sign [of 1000000 d] unfolding seconds_us_def by linarith+
  have later: "recent (now + seconds_us n) (oldest # rest) = oldest # rest"
    using wait assms(6) by (auto simp: recent_def d_def filter_id_conv)
  obtain r v where g: "chaos_gate (now + seconds_us n) event' path u = (r, v)" by (cases "chaos_gate (now + seconds_us n) event' path u")
  have "r \<noteq> Ok (Passed c)" for c
    using gate_cases(2) [OF g] u later assms(4,8) by (auto simp: knob_def)
  then show ?thesis using e g by blast
qed

theorem retry_after_refused_again_witness:
  "\<exists>e info u n r v. chaos_gate 500000 ''b'' wit_path (wit_app 1 [0]) = (Ok (Blocked e info), u) \<and> e = limit_error n
     \<and> chaos_gate (500000 + seconds_us n) ''c'' wit_path u = (r, v) \<and> (\<forall>c. r \<noteq> Ok (Passed c))"
proof -
  define w where "w = wit_app 1 [0]"
  have path: "data_path wit_path" by code_simp
  have kn: "number (knob ''outage_until'' w) = Some 0" "number (knob ''rate_limit_per_min'' w) = Some 1"
    by (simp_all add: w_def wit_app_def wit_knobs_def knob_def jget_or_def dict_get_or_def)
  have rec: "recent 500000 (aw_request_times w) = [0]" by (simp add: w_def wit_app_def recent_def seconds_us_def)
  have "is_ok (fst (chaos_gate 500000 ''b'' wit_path w)) \<and>
      (case fst (chaos_gate 500000 ''b'' wit_path w) of Ok (Blocked e i) \<Rightarrow> True | _ \<Rightarrow> False)"
    unfolding w_def by code_simp
  then obtain e info u where g: "chaos_gate 500000 ''b'' wit_path w = (Ok (Blocked e info), u)"
    by (cases "chaos_gate 500000 ''b'' wit_path w") (auto split: sum.splits gate.splits)
  have "0 \<le> seconds 500000" "(1::rat) \<le> of_nat (length [0 :: timestamp])"
    "\<forall>t \<in> set []. (0 :: timestamp) \<le> t" "(0 :: timestamp) \<le> 500000"
    "(500000 - 0) mod seconds_us 1 \<noteq> 0" "500000 - 0 < seconds_us 59"
    by (simp_all add: seconds_def seconds_us_def)
  from retry_after_refused_again [OF path kn(1) this(1) kn(2) rec this(3,4,2,5,6) g, of "''c''"]
  show ?thesis using g unfolding w_def by blast
qed

section \<open>A limit of zero\<close>

text \<open>
  With the rate limit set to zero and no request in the last minute, a data request is not
  answered with 429: the handler takes the minimum of an empty list and fails.
\<close>

theorem zero_rate_limit_crashes:
  assumes "data_path path" "number (knob ''outage_until'' w) = Some un" "un \<le> seconds now"
    and "knob ''rate_limit_per_min'' w = JInt 0" "recent now (aw_request_times w) = []"
  shows "fst (chaos_gate now event path w) = Err (Crash ''ValueError'')"
  using assms
  by (simp add: chaos_gate_def ebind_def eget_def elift_def emodify_def eraise_def need_number_def of_opt_def knob_def)

theorem zero_rate_limit_crashes_witness: "fst (chaos_gate 9 ''a'' wit_path (wit_app 0 [])) = Err (Crash ''ValueError'')"
proof -
  have "data_path wit_path" by code_simp
  moreover have "number (knob ''outage_until'' (wit_app 0 [])) = Some 0" "(0 :: rat) \<le> seconds 9"
    "knob ''rate_limit_per_min'' (wit_app 0 []) = JInt 0" "recent 9 (aw_request_times (wit_app 0 [])) = []"
    by (simp_all add: wit_app_def wit_knobs_def knob_def jget_or_def dict_get_or_def seconds_def recent_def)
  ultimately show ?thesis by (rule zero_rate_limit_crashes)
qed

end
