(* ===== verification/PyDateTime.thy ===== *)
theory PyDateTime
  imports PyDate
begin

text \<open>
  \<open>datetime.fromisoformat\<close> on the extended forms of ISO 8601: a date, or a date, one
  separator character and a time with optional fraction and offset. Instants are
  microseconds since the day before 0001-01-01. The basic forms without separators and week
  dates are not modelled.
\<close>

definition day_us :: int where "day_us = 86400000000"

definition epoch_ordinal :: date where "epoch_ordinal = 719163"

text \<open>The calendar day of a clock reading in microseconds since 1970.\<close>

definition utc_date :: "int \<Rightarrow> date" where
  "utc_date now = epoch_ordinal + now div day_us"

definition two_digits :: "string \<Rightarrow> int \<Rightarrow> int option" where
  "two_digits s bound =
     (if length s = 2 \<and> list_all is_digit s \<and> int (digits_val s) < bound then Some (int (digits_val s)) else None)"

definition fraction_us :: "string \<Rightarrow> int option" where
  "fraction_us s =
     (if s \<noteq> [] \<and> list_all is_digit s
      then Some (int (digits_val (take 6 (s @ replicate 6 (CHR ''0''))))) else None)"

text \<open>\<open>HH[:MM[:SS[.f]]]\<close> in microseconds; the hour bound is 24, for offsets too.\<close>

definition clock_us :: "string \<Rightarrow> int option" where
  "clock_us s =
     (let (whole, dot, frac) = partition_chr (CHR ''.'') (map (\<lambda>c. if c = CHR '','' then CHR ''.'' else c) s);
          parts = split_chr (CHR '':'') whole in
      if dot \<and> length parts \<noteq> 3 then None
      else
        (case parts of
           [h] \<Rightarrow> map_option (\<lambda>hh. hh * 3600000000) (two_digits h 24)
         | [h, m] \<Rightarrow>
             (case (two_digits h 24, two_digits m 60) of
                (Some hh, Some mm) \<Rightarrow> Some (hh * 3600000000 + mm * 60000000)
              | _ \<Rightarrow> None)
         | [h, m, sec] \<Rightarrow>
             (case (two_digits h 24, two_digits m 60, two_digits sec 60,
                    if dot then fraction_us frac else Some 0) of
                (Some hh, Some mm, Some ss, Some us) \<Rightarrow>
                  Some (hh * 3600000000 + mm * 60000000 + ss * 1000000 + us)
              | _ \<Rightarrow> None)
         | _ \<Rightarrow> None))"

text \<open>The time part: the clock and, after \<open>Z\<close>, a plus or a minus, the offset.\<close>

definition time_and_offset :: "string \<Rightarrow> (int \<times> int option) option" where
  "time_and_offset s =
     (let clock = takeWhile (\<lambda>c. c \<notin> set ''Z+-'') s in
      case clock_us clock of
        None \<Rightarrow> None
      | Some us \<Rightarrow>
          (case dropWhile (\<lambda>c. c \<notin> set ''Z+-'') s of
             [] \<Rightarrow> Some (us, None)
           | c # rest \<Rightarrow>
               if c = CHR ''Z'' then (if rest = [] then Some (us, Some 0) else None)
               else map_option (\<lambda>off. (us, Some (if c = CHR ''-'' then - off else off))) (clock_us rest)))"

definition datetime_fromisoformat :: "string \<Rightarrow> (int \<times> int option) option" where
  "datetime_fromisoformat s =
     (case fromisoformat (take 10 s) of
        None \<Rightarrow> None
      | Some day \<Rightarrow>
          (case drop 10 s of
             [] \<Rightarrow> Some (day * day_us, None)
           | [_] \<Rightarrow> Some (day * day_us, None)
           | _ # t \<Rightarrow> map_option (\<lambda>(us, off). (day * day_us + us, off)) (time_and_offset t)))"

text \<open>A date alone is its midnight.\<close>

lemma midnight:
  assumes "1 \<le> d" "d \<le> max_ordinal"
  shows "datetime_fromisoformat (isoformat d) = Some (d * day_us, None)"
proof -
  have "fromisoformat (isoformat d) = Some d" by (rule fromisoformat_isoformat [OF assms])
  moreover then have "length (isoformat d) = 10" by (auto simp: fromisoformat_def Let_def split: if_splits)
  ultimately show ?thesis by (simp add: datetime_fromisoformat_def)
qed

end
