(* ===== verification/App.thy ===== *)
theory App
  imports Chaos PyDateTime
begin

text \<open>
  The request handlers of \<open>fakeforce/app.py\<close>: queries and their locators, describe, deleted
  records, limits, and the bulk query and bulk ingest resources. Each is one function of the
  state; the JSON body of a request is given parsed, or as the decoder's error message.
\<close>

section \<open>Queries\<close>

record query_body =
  qb_total :: int
  qb_done :: bool
  qb_records :: "out_record list"
  qb_next :: "string option"

definition query_failure :: "app_env \<Rightarrow> string \<Rightarrow> query_error \<Rightarrow> http_error" where
  "query_failure env q e =
     (case e of
        QueryValidation code \<Rightarrow> sf_error 400 code (ap_wording env q e)
      | QueryOption m \<Rightarrow> sf_error 400 ''MALFORMED_QUERY'' (ap_wording env q e)
      | QueryInternal exn \<Rightarrow> Crash exn)"

definition query_timeout :: http_error where
  "query_timeout = sf_error 500 ''QUERY_TIMEOUT'' ''query timeout''"

text \<open>\<open>min(chaos["page_size"], requested)\<close>; a fractional page size is not modelled.\<close>

definition effective_page_size :: "json \<Rightarrow> int \<Rightarrow> http_error + int" where
  "effective_page_size v requested =
     (case v of
        JInt i \<Rightarrow> Ok (min i requested)
      | JBool b \<Rightarrow> Ok (min (if b then 1 else 0) requested)
      | JFloat r \<Rightarrow> if of_int requested < r then Ok requested
                    else if r = of_int \<lfloor>r\<rfloor> then Ok \<lfloor>r\<rfloor> else Err (Crash ''fractional page size'')
      | _ \<Rightarrow> Err (Crash ''TypeError''))"

definition next_url :: "string \<Rightarrow> int \<Rightarrow> string" where
  "next_url locator n = ''/services/data/'' @ api_version @ ''/query/'' @ locator @ ''-'' @ int_str n"

definition cursor_version :: "bool \<Rightarrow> string" where
  "cursor_version include_deleted = api_version @ '':'' @ (if include_deleted then ''queryAll'' else ''query'')"

text \<open>\<open>Path(text)\<close>.\<close>

definition path_of :: "string \<Rightarrow> path" where "path_of t = join_path [] (posix_parts t)"

text \<open>
  \<open>_page\<close>, with the generated locator, the private name the index is first written to and
  whether the deadline passes before the worker has finished.
\<close>

definition page ::
  "app_env \<Rightarrow> timestamp \<Rightarrow> string \<Rightarrow> path \<Rightarrow> bool \<Rightarrow> string \<Rightarrow> bool \<Rightarrow> int \<Rightarrow> int \<Rightarrow> query_body handler" where
  "page env now locator tmp late q include_deleted page_offset page_size =
     (case fetch_page_with_cursor_index (ap_run env) (ap_fmt env) api_version (ap_catalog env) q include_deleted page_size page_offset of
        Err e \<Rightarrow> eraise (query_failure env q e)
      | Ok (pg, artifact) \<Rightarrow>
          if late then eraise query_timeout
          else
            (let got = page_offset + int (length (qg_records pg)); total = int (qg_total_size pg);
                 body = \<lparr>qb_total = total, qb_done = (got \<ge> total), qb_records = qg_records pg, qb_next = None\<rparr> in
             ebind (emodify (\<lambda>w. case artifact of
                 None \<Rightarrow> w
               | Some idx \<Rightarrow> w\<lparr>aw_indexes :=
                   fs_run (write_index_ops (ap_cursor_directory env) tmp locator (map snd idx)) (aw_indexes w)\<rparr>)) (\<lambda>_.
             if qb_done body then eret body
             else
               ebind (on_store (create_cursor now locator (cursor_version include_deleted) q (ap_sha256 env q)
                   (qg_object_name pg) (ap_snapshot_id env) page_size 0 total
                   (path_str (index_path (ap_cursor_directory env) locator)) (now + days_us 2)) store_crash) (\<lambda>_.
               eret (body\<lparr>qb_next := Some (next_url locator got)\<rparr>)))))"

definition run_query ::
  "app_env \<Rightarrow> timestamp \<Rightarrow> string \<Rightarrow> path \<Rightarrow> bool \<Rightarrow> string option \<Rightarrow> string \<Rightarrow> bool \<Rightarrow> string option \<Rightarrow> query_body handler" where
  "run_query env now locator tmp late authorization q include_deleted query_options =
     ebind (require_token now authorization) (\<lambda>_.
     ebind (elift (case parse_query_batch_size query_options of Err e \<Rightarrow> Err (query_failure env q e) | Ok n \<Rightarrow> Ok n)) (\<lambda>requested.
     ebind (eget (knob ''page_size'')) (\<lambda>size_knob.
     ebind (elift (effective_page_size size_knob requested)) (\<lambda>page_size.
       page env now locator tmp late q include_deleted 0 page_size))))"

definition invalid_locator :: http_error where
  "invalid_locator = sf_error 400 ''INVALID_QUERY_LOCATOR'' ''invalid query locator''"

definition query_more ::
  "app_env \<Rightarrow> timestamp \<Rightarrow> bool \<Rightarrow> string option \<Rightarrow> string \<Rightarrow> query_body handler" where
  "query_more env now late authorization locator =
     ebind (require_token now authorization) (\<lambda>_.
     case rpartition_chr (CHR ''-'') locator of
       (locator_id, separator, offset_text) \<Rightarrow>
         if \<not> separator \<or> \<not> is_decimal offset_text then eraise invalid_locator
         else
           ebind (eget (\<lambda>w. get_cursor now locator_id (aw_store w))) (\<lambda>cursor.
           case cursor of
             None \<Rightarrow> eraise invalid_locator
           | Some cur \<Rightarrow>
               ebind (eget (\<lambda>w. aw_indexes w (path_of (sc_artifact cur)))) (\<lambda>index.
               case index of
                 None \<Rightarrow> eraise invalid_locator
               | Some idx \<Rightarrow>
                   let page_offset = int (digits_val offset_text) in
                   if sc_snapshot cur \<noteq> ap_snapshot_id env then eraise invalid_locator
                   else if page_offset \<ge> sc_total_size cur then eraise invalid_locator
                   else
                     (case fetch_records_for_locator (ap_run env) (ap_fmt env) api_version (ap_catalog env) (sc_query cur)
                             (sc_api_version cur = cursor_version True) idx page_offset (sc_batch_size cur) of
                        Err e \<Rightarrow> eraise (query_failure env (sc_query cur) e)
                      | Ok records \<Rightarrow>
                          if late then eraise query_timeout
                          else
                            (let got = page_offset + int (length records) in
                             eret \<lparr>qb_total = sc_total_size cur, qb_done = (got \<ge> sc_total_size cur), qb_records = records,
                               qb_next = (if got \<ge> sc_total_size cur then None else Some (next_url locator_id got))\<rparr>)))))"

section \<open>Objects\<close>

record field_description =
  fd_name :: string
  fd_type :: string
  fd_nillable :: bool
  fd_custom :: bool

definition sf_type :: "string \<times> arrow_type \<Rightarrow> string" where
  "sf_type f =
     (if fst f = ''Id'' \<or> ends_with (fst f) ''Id'' then ''id''
      else (case snd f of
              ArrowBool \<Rightarrow> ''boolean'' | ArrowInt \<Rightarrow> ''int'' | ArrowFloat \<Rightarrow> ''double''
            | ArrowDate \<Rightarrow> ''datetime'' | ArrowTimestamp _ \<Rightarrow> ''datetime'' | _ \<Rightarrow> ''string''))"

definition drift_active :: "timestamp \<Rightarrow> json \<Rightarrow> http_error + bool" where
  "drift_active now v =
     (if \<not> truthy v then Ok False
      else (case v of
              JStr s \<Rightarrow> (case fromisoformat s of None \<Rightarrow> Ok False | Some d \<Rightarrow> Ok (utc_date now \<ge> d))
            | _ \<Rightarrow> Err (Crash ''TypeError'')))"

definition unknown_object :: "string \<Rightarrow> http_error" where
  "unknown_object obj = sf_error 404 ''NOT_FOUND'' (''The requested resource does not exist: '' @ obj)"

definition describe :: "app_env \<Rightarrow> timestamp \<Rightarrow> string option \<Rightarrow> string \<Rightarrow> field_description list handler" where
  "describe env now authorization obj =
     ebind (require_token now authorization) (\<lambda>_.
     case catalog_get obj (ap_catalog env) of
       None \<Rightarrow> eraise (unknown_object obj)
     | Some s \<Rightarrow>
         ebind (eget (knob ''drift_after'')) (\<lambda>v.
         ebind (elift (drift_active now v)) (\<lambda>drift.
           eret (map (\<lambda>f. \<lparr>fd_name = fst f, fd_type = sf_type f, fd_nillable = (fst f \<noteq> ds_id_field s),
                       fd_custom = ends_with (fst f) ''__c''\<rparr>) (ds_schema s)
             @ (if drift \<and> obj = ''Account''
                then [\<lparr>fd_name = ''Territory__c'', fd_type = ''string'', fd_nillable = True, fd_custom = True\<rparr>] else [])))))"

text \<open>A window bound as an instant in microseconds; without an offset it is UTC.\<close>

definition parse_window_bound :: "string \<Rightarrow> int option" where
  "parse_window_bound v =
     (let t = (if ends_with v ''Z'' then butlast v @ ''+00:00'' else v) in
      map_option (\<lambda>(us, off). us - (case off of None \<Rightarrow> 0 | Some n \<Rightarrow> n)) (datetime_fromisoformat t))"

record deleted_body =
  db_records :: "(sql_value \<times> sql_value) list"
  db_earliest :: string
  db_latest :: string

definition deleted_sql :: "dataset_spec \<Rightarrow> string \<Rightarrow> string \<Rightarrow> string \<Rightarrow> string" where
  "deleted_sql s rel date_field soft =
     ''SELECT '' @ quote_identifier (ds_id_field s) @ '', '' @ quote_identifier date_field @ '' ''
     @ ''FROM '' @ quote_identifier rel @ '' '' @ ''WHERE '' @ quote_identifier soft @ '' ''
     @ ''AND CAST('' @ quote_identifier date_field @ '' AS TIMESTAMP) BETWEEN ? AND ?''"

definition get_deleted ::
  "app_env \<Rightarrow> timestamp \<Rightarrow> string option \<Rightarrow> string \<Rightarrow> string \<Rightarrow> string \<Rightarrow> deleted_body handler" where
  "get_deleted env now authorization obj start end =
     ebind (require_token now authorization) (\<lambda>_.
     case catalog_get obj (ap_catalog env) of
       None \<Rightarrow> eraise (unknown_object obj)
     | Some s \<Rightarrow>
         if start = [] \<or> end = [] then eraise (sf_error 400 ''MALFORMED_QUERY'' ''startDate and endDate are required'')
         else
           (case (parse_window_bound start, parse_window_bound end) of
              (Some a, Some b) \<Rightarrow>
                if b < a then eraise (sf_error 400 ''INVALID_DATE_RANGE'' ''endDate must not be before startDate'')
                else if b - a > days_us 30 then
                  eraise (sf_error 400 ''INVALID_DATE_RANGE'' ''the date range must not exceed 30 days'')
                else
                  (case ds_soft_delete_field s of
                     None \<Rightarrow> eret \<lparr>db_records = [], db_earliest = start, db_latest = end\<rparr>
                   | Some soft \<Rightarrow>
                       (let date_field = (if ''LastModifiedDate'' \<in> set (schema_names (ds_schema s)) then ''LastModifiedDate''
                                          else ds_id_field s) in
                        case relation_name obj (ap_catalog env) of
                          Err e \<Rightarrow> eraise (Crash ''KeyError'')
                        | Ok rel \<Rightarrow>
                            (case ap_deleted env (deleted_sql s rel date_field soft) a b of
                               None \<Rightarrow> eraise (Crash ''ConversionException'')
                             | Some rows \<Rightarrow> eret \<lparr>db_records = rows, db_earliest = start, db_latest = end\<rparr>)))
            | _ \<Rightarrow> eraise (sf_error 400 ''MALFORMED_QUERY'' ''startDate and endDate must be ISO8601 timestamps'')))"

record limits_body =
  lb_max :: json
  lb_remaining :: rat

definition limits :: "timestamp \<Rightarrow> string option \<Rightarrow> limits_body handler" where
  "limits now authorization =
     ebind (require_token now authorization) (\<lambda>_.
     ebind (eget (knob ''daily_api_limit'')) (\<lambda>cap.
     ebind (eget (\<lambda>w. api_usage_last_24_hours now (aw_store w))) (\<lambda>usage.
     ebind (elift (need_number cap)) (\<lambda>c.
       eret \<lparr>lb_max = cap, lb_remaining = max 0 (c - of_nat usage)\<rparr>))))"

end
