(* ===== verification/BulkApi.thy ===== *)
theory BulkApi
  imports App Runtime
begin

text \<open>
  The bulk resources of \<open>fakeforce/app.py\<close>, the dispatchers of
  \<open>fakeforce/bulk/dispatcher.py\<close> and the counters of \<open>fakeforce/diagnostics.py\<close>. A JSON
  body is the decoder's message or the parsed value. The executor is the queue of submitted
  jobs; taking the next one runs a worker on the parts of the state it sees.
\<close>

section \<open>Bodies\<close>

type_synonym request_body = "string + json"

definition json_body :: "request_body \<Rightarrow> http_error + json" where
  "json_body b =
     (case b of
        Inl m \<Rightarrow> Err (sf_error 400 ''JSON_PARSER_ERROR'' (''Cannot parse request body: '' @ m))
      | Inr v \<Rightarrow> Ok v)"

text \<open>\<open>body.get\<close> on something that is not an object is an \<open>AttributeError\<close>.\<close>

definition json_object :: "request_body \<Rightarrow> http_error + (string \<times> json) list" where
  "json_object b = rbind (json_body b) (\<lambda>v. case v of JObj d \<Rightarrow> Ok d | _ \<Rightarrow> Err (Crash ''AttributeError''))"

definition find_job :: "timestamp \<Rightarrow> bulk_job_type \<Rightarrow> string \<Rightarrow> bulk_job handler" where
  "find_job now t job_id =
     ebind (eget (\<lambda>w. get_job now job_id (aw_store w))) (\<lambda>found.
       case found of
         None \<Rightarrow> eraise not_found
       | Some job \<Rightarrow> if bj_type job \<noteq> t then eraise not_found else eret job)"

definition submit :: "bulk_job_type \<Rightarrow> string \<Rightarrow> unit handler" where
  "submit t job_id = emodify (\<lambda>w. w\<lparr>aw_queue := aw_queue w @ [(t, job_id)]\<rparr>)"

definition job_expiry :: "app_env \<Rightarrow> timestamp \<Rightarrow> timestamp" where
  "job_expiry env now = now + hours_us (se_bulk_job_retention_hours (ap_settings env))"

section \<open>Bulk query\<close>

record query_job_body =
  qj_id :: string
  qj_operation :: "string option"
  qj_state :: string
  qj_query :: "string option"
  qj_error_code :: "string option"
  qj_error_message :: "string option"

definition bulk_query_job_response :: "bulk_job \<Rightarrow> query_job_body" where
  "bulk_query_job_response job =
     \<lparr>qj_id = bj_id job, qj_operation = bj_operation job, qj_state = job_state_value (bj_state job),
      qj_query = bj_query_text job, qj_error_code = bj_error_code job, qj_error_message = bj_error_message job\<rparr>"

definition create_bulk_query_job ::
  "app_env \<Rightarrow> timestamp \<Rightarrow> string \<Rightarrow> string option \<Rightarrow> request_body \<Rightarrow> query_job_body handler" where
  "create_bulk_query_job env now token_hex authorization body =
     ebind (require_token now authorization) (\<lambda>_.
     ebind (elift (json_object body)) (\<lambda>d.
     let malformed = sf_error 400 ''MALFORMED_QUERY'' ''Bulk query jobs require operation=query and a query'' in
     case jget_or ''operation'' (JStr ''query'') d of
       JStr operation \<Rightarrow>
         if str_lower operation \<noteq> ''query'' then eraise malformed
         else
           (case jget ''query'' d of
              JStr q \<Rightarrow>
                (case plan (ap_catalog env) q False of
                   Err e \<Rightarrow> eraise (query_failure env q e)
                 | Ok p \<Rightarrow>
                     (let job = \<lparr>bj_id = ''750'' @ token_hex, bj_type = QUERY, bj_api_version = api_version,
                          bj_state = UPLOAD_COMPLETE, bj_object_name = None, bj_operation = Some ''query'',
                          bj_query_text = Some q, bj_snapshot_id = Some (ap_snapshot_id env), bj_error_code = None,
                          bj_error_message = None, bj_expires_at = Some (job_expiry env now), bj_options = []\<rparr> in
                      ebind (on_store (create_job now job) store_crash) (\<lambda>_.
                      ebind (submit QUERY (bj_id job)) (\<lambda>_. eret (bulk_query_job_response job)))))
            | _ \<Rightarrow> eraise malformed)
     | _ \<Rightarrow> eraise (Crash ''AttributeError'')))"

definition get_bulk_query_job ::
  "timestamp \<Rightarrow> string option \<Rightarrow> string \<Rightarrow> query_job_body handler" where
  "get_bulk_query_job now authorization job_id =
     ebind (require_token now authorization) (\<lambda>_.
     ebind (find_job now QUERY job_id) (\<lambda>job. eret (bulk_query_job_response job)))"

definition transition_failure :: "(unit \<Rightarrow> http_error) \<Rightarrow> string \<Rightarrow> store_error \<Rightarrow> http_error" where
  "transition_failure missing message e =
     (case e of
        TransitionError a b \<Rightarrow> sf_error 400 ''INVALIDJOB'' message
      | JobKeyError j \<Rightarrow> missing ()
      | _ \<Rightarrow> store_crash e)"

definition update_bulk_query_job ::
  "timestamp \<Rightarrow> string option \<Rightarrow> string \<Rightarrow> request_body \<Rightarrow> query_job_body handler" where
  "update_bulk_query_job now authorization job_id body =
     ebind (require_token now authorization) (\<lambda>_.
     ebind (elift (json_object body)) (\<lambda>d.
     if jget ''state'' d \<noteq> JStr (job_state_value ABORTED) then
       eraise (sf_error 400 ''INVALIDJOB'' ''Bulk query jobs can only be aborted through this resource'')
     else
       ebind (on_store (transition_job now job_id ABORTED None None)
                (transition_failure (\<lambda>_. not_found) ''invalid Bulk job state transition'')) (\<lambda>job.
         eret (bulk_query_job_response job))))"

record results_body =
  rb_record_count :: string
  rb_locator :: "string option"
  rb_stream :: "http_error + string list"

text \<open>The size of the pieces \<open>stream\<close> reads a file in.\<close>

definition stream_chunk_bytes :: nat where "stream_chunk_bytes = 65536"

definition file_stream :: "out_dirs \<Rightarrow> path \<Rightarrow> http_error + string list" where
  "file_stream dirs p =
     (case map_of (od_files (dir_at (path_parent p) dirs)) (path_name p) of
        None \<Rightarrow> Err (Crash ''FileNotFoundError'')
      | Some t \<Rightarrow> Ok (file_chunks stream_chunk_bytes t))"

definition get_bulk_query_results ::
  "app_env \<Rightarrow> timestamp \<Rightarrow> string option \<Rightarrow> string \<Rightarrow> string option \<Rightarrow> int option \<Rightarrow> results_body handler" where
  "get_bulk_query_results env now authorization job_id locator max_records =
     ebind (require_token now authorization) (\<lambda>_.
     ebind (find_job now QUERY job_id) (\<lambda>job.
     if bj_api_version job \<noteq> api_version then
       eraise (sf_error 409 ''API_VERSION_MISMATCH'' ''Bulk job API version does not match request'')
     else if bj_state job \<noteq> JOB_COMPLETE then
       eraise (sf_error 400 ''INVALIDJOB'' ''Bulk query results are not available until the job is complete'')
     else
       ebind (eget aw_results) (\<lambda>dirs.
       case (case max_records of
               None \<Rightarrow> results_page (ap_results_root env) dirs job_id locator
             | Some n \<Rightarrow> results_window (ap_results_root env) dirs job_id locator n) of
         Err InvalidBulkLocator \<Rightarrow> eraise (sf_error 400 ''INVALIDLOCATOR'' ''invalid bulk result locator'')
       | Err ResultsNotFound \<Rightarrow> eraise (sf_error 400 ''INVALIDLOCATOR'' ''invalid bulk result locator'')
       | Err e \<Rightarrow> eraise (Crash ''ValueError'')
       | Ok pg \<Rightarrow>
           eret \<lparr>rb_record_count = int_str (rp_record_count pg), rb_locator = rp_next_locator pg,
                 rb_stream =
                   (case max_records of
                      None \<Rightarrow> file_stream dirs (rp_path pg)
                    | Some n \<Rightarrow>
                        (case stream_window (ap_results_root env) dirs job_id locator (rp_record_count pg) of
                           Err e \<Rightarrow> Err (Crash ''FileNotFoundError'') | Ok cs \<Rightarrow> Ok cs))\<rparr>)))"

section \<open>Bulk ingest\<close>

record ingest_job_body =
  ij_id :: string
  ij_operation :: "string option"
  ij_object :: "string option"
  ij_state :: string
  ij_content_type :: "string option"
  ij_line_ending :: "string option"
  ij_column_delimiter :: "string option"
  ij_error_code :: "string option"
  ij_error_message :: "string option"

definition bulk_ingest_job_response :: "bulk_job \<Rightarrow> ingest_job_body" where
  "bulk_ingest_job_response job =
     \<lparr>ij_id = bj_id job, ij_operation = bj_operation job, ij_object = bj_object_name job,
      ij_state = job_state_value (bj_state job), ij_content_type = map_of (bj_options job) ''contentType'',
      ij_line_ending = map_of (bj_options job) ''lineEnding'', ij_column_delimiter = map_of (bj_options job) ''columnDelimiter'',
      ij_error_code = bj_error_code job, ij_error_message = bj_error_message job\<rparr>"

definition ingest_job_of :: "app_env \<Rightarrow> timestamp \<Rightarrow> string \<Rightarrow> ingest_configuration \<Rightarrow> bulk_job" where
  "ingest_job_of env now token_hex c =
     \<lparr>bj_id = ''750'' @ token_hex, bj_type = INGEST, bj_api_version = api_version, bj_state = OPEN,
      bj_object_name = Some (ic_object_name c), bj_operation = Some (ic_operation c), bj_query_text = None,
      bj_snapshot_id = Some (ap_snapshot_id env), bj_error_code = None, bj_error_message = None,
      bj_expires_at = Some (job_expiry env now),
      bj_options = [(''contentType'', ic_content_type c), (''lineEnding'', ic_line_ending c),
        (''columnDelimiter'', ic_column_delimiter c)]\<rparr>"

definition create_bulk_ingest_job ::
  "app_env \<Rightarrow> timestamp \<Rightarrow> string \<Rightarrow> string option \<Rightarrow> request_body \<Rightarrow> ingest_job_body handler" where
  "create_bulk_ingest_job env now token_hex authorization body =
     ebind (require_token now authorization) (\<lambda>_.
     ebind (elift (json_object body)) (\<lambda>d.
     case validate_ingest_create d (ap_catalog env) of
       Err (IngestInvalid code m) \<Rightarrow> eraise (sf_error (if code \<noteq> ''NOT_FOUND'' then 400 else 404) code m)
     | Err IngestUnhashable \<Rightarrow> eraise (Crash ''TypeError'')
     | Ok c \<Rightarrow>
         (let job = ingest_job_of env now token_hex c in
          ebind (on_store (create_job now job) store_crash) (\<lambda>_. eret (bulk_ingest_job_response job)))))"

definition upload_bulk_ingest_batch ::
  "app_env \<Rightarrow> timestamp \<Rightarrow> bool \<Rightarrow> path \<Rightarrow> string option \<Rightarrow> string \<Rightarrow> string list \<Rightarrow> unit handler" where
  "upload_bulk_ingest_batch env now reserve_ok tmp authorization job_id chunks =
     ebind (require_token now authorization) (\<lambda>_.
     ebind (find_job now INGEST job_id) (\<lambda>job.
     if bj_state job \<noteq> OPEN then
       eraise (sf_error 400 ''INVALIDJOB'' ''CSV data can be uploaded only while the job is open'')
     else (\<lambda>w.
       case write_upload (ap_resolve env) (ap_upload_root env) reserve_ok tmp job_id chunks
              (se_bulk_ingest_max_upload_bytes (ap_settings env)) (aw_uploads w) of
         (Ok n, f) \<Rightarrow> (Ok (), w\<lparr>aw_uploads := f\<rparr>)
       | (Err (IngestUploadTooLarge m), f) \<Rightarrow>
           (Err (sf_error 413 ''REQUEST_ENTITY_TOO_LARGE'' (''CSV upload exceeds '' @ int_str m @ '' byte limit'')),
            w\<lparr>aw_uploads := f\<rparr>)
       | (Err e, f) \<Rightarrow> (Err (Crash ''upload''), w\<lparr>aw_uploads := f\<rparr>))))"

definition upload_present :: "app_env \<Rightarrow> string \<Rightarrow> app_world \<Rightarrow> http_error + bool" where
  "upload_present env job_id w =
     (case upload_path (ap_resolve env) (ap_upload_root env) job_id of
        Err e \<Rightarrow> Err (Crash ''ValueError'')
      | Ok p \<Rightarrow> Ok (aw_uploads w p \<noteq> None))"

definition invalid_ingest_transition :: http_error where
  "invalid_ingest_transition = sf_error 400 ''INVALIDJOB'' ''invalid Bulk ingest job state transition''"

definition update_bulk_ingest_job ::
  "app_env \<Rightarrow> timestamp \<Rightarrow> string option \<Rightarrow> string \<Rightarrow> request_body \<Rightarrow> ingest_job_body handler" where
  "update_bulk_ingest_job env now authorization job_id body =
     ebind (require_token now authorization) (\<lambda>_.
     ebind (elift (json_object body)) (\<lambda>d.
     ebind (find_job now INGEST job_id) (\<lambda>_.
     let requested = jget ''state'' d;
         move = (\<lambda>st. ebind (on_store (transition_job now job_id st None None)
                    (transition_failure (\<lambda>_. Crash ''KeyError'') ''invalid Bulk ingest job state transition'')) (\<lambda>job.
                  ebind (if bj_state job = UPLOAD_COMPLETE then submit INGEST job_id else eret ()) (\<lambda>_.
                  eret (bulk_ingest_job_response job)))) in
     if requested = JStr (job_state_value UPLOAD_COMPLETE) then
       ebind (eget (upload_present env job_id)) (\<lambda>present.
       ebind (elift present) (\<lambda>ok.
         if \<not> ok then eraise (sf_error 400 ''INVALIDJOB'' ''CSV data must be uploaded before closing the job'')
         else move UPLOAD_COMPLETE))
     else if requested \<noteq> JStr (job_state_value ABORTED) then eraise invalid_ingest_transition
     else move ABORTED)))"

definition get_bulk_ingest_job :: "timestamp \<Rightarrow> string option \<Rightarrow> string \<Rightarrow> ingest_job_body handler" where
  "get_bulk_ingest_job now authorization job_id =
     ebind (require_token now authorization) (\<lambda>_.
     ebind (find_job now INGEST job_id) (\<lambda>job. eret (bulk_ingest_job_response job)))"

text \<open>\<open>next(csv.reader(stream))\<close>: the first record of the upload.\<close>

definition source_fields :: "app_env \<Rightarrow> string \<Rightarrow> app_world \<Rightarrow> http_error + string list" where
  "source_fields env job_id w =
     (let unavailable = sf_error 400 ''INVALIDJOB'' ''Bulk ingest CSV upload is unavailable'' in
      case upload_path (ap_resolve env) (ap_upload_root env) job_id of
        Err e \<Rightarrow> Err (Crash ''ValueError'')
      | Ok p \<Rightarrow>
          (case aw_uploads w p of
             None \<Rightarrow> Err unavailable
           | Some t \<Rightarrow>
               (case csv_read t of
                  None \<Rightarrow> Err (Crash ''csv.Error'')
                | Some [] \<Rightarrow> Err unavailable
                | Some (r # _) \<Rightarrow> Ok r)))"

record ingest_results_body =
  ib_record_count :: nat
  ib_stream :: "string list"

definition bulk_ingest_results ::
  "app_env \<Rightarrow> timestamp \<Rightarrow> string \<Rightarrow> string \<Rightarrow> string option \<Rightarrow> ingest_results_body handler" where
  "bulk_ingest_results env now job_id status authorization =
     ebind (require_token now authorization) (\<lambda>_.
     ebind (find_job now INGEST job_id) (\<lambda>job.
     if bj_state job \<notin> {JOB_COMPLETE, FAILED} then
       eraise (sf_error 400 ''INVALIDJOB'' ''Bulk ingest results are not available until processing ends'')
     else
       ebind (eget (source_fields env job_id)) (\<lambda>fields.
       ebind (elift fields) (\<lambda>names.
       eget (\<lambda>w. \<lparr>ib_record_count = ingest_result_count job_id status (aw_store w),
         ib_stream = stream_ingest_results job_id status names (aw_store w)\<rparr>)))))"

section \<open>Dispatch\<close>

record workers =
  wk_query :: bulk_env
  wk_ingest :: ingest_env

definition bulk_view :: "app_world \<Rightarrow> bulk_world" where
  "bulk_view w = \<lparr>bw_store = aw_store w, bw_dirs = aw_results w\<rparr>"

definition ingest_view :: "app_world \<Rightarrow> ingest_world" where
  "ingest_view w = \<lparr>iw_store = aw_store w, iw_tables = aw_tables w, iw_files = aw_uploads w\<rparr>"

text \<open>\<open>_run\<close>: a job that has left the two runnable states is left alone, and what the worker
  raises is swallowed.\<close>

definition dispatch_run :: "timestamp \<Rightarrow> workers \<Rightarrow> bulk_job_type \<times> string \<Rightarrow> app_world \<Rightarrow> app_world" where
  "dispatch_run now wk entry w =
     (case entry of (t, job_id) \<Rightarrow>
       (case get_job now job_id (aw_store w) of
          None \<Rightarrow> w
        | Some job \<Rightarrow>
            if bj_state job \<notin> {UPLOAD_COMPLETE, IN_PROGRESS} then w
            else
              (case t of
                 QUERY \<Rightarrow> (case bulk_run now (wk_query wk) NoFault job_id (bulk_view w) of
                   (r, v) \<Rightarrow> w\<lparr>aw_store := bw_store v, aw_results := bw_dirs v\<rparr>)
               | INGEST \<Rightarrow> (case ingest_run now (wk_ingest wk) NoIngestFault job_id (ingest_view w) of
                   (r, v) \<Rightarrow> w\<lparr>aw_store := iw_store v, aw_tables := iw_tables v, aw_uploads := iw_files v\<rparr>))))"

fun dispatch_all :: "timestamp \<Rightarrow> workers \<Rightarrow> (bulk_job_type \<times> string) list \<Rightarrow> app_world \<Rightarrow> app_world" where
  "dispatch_all now wk [] w = w"
| "dispatch_all now wk (x # xs) w = dispatch_all now wk xs (dispatch_run now wk x w)"

definition drain_queue :: "timestamp \<Rightarrow> workers \<Rightarrow> app_world \<Rightarrow> app_world" where
  "drain_queue now wk w = dispatch_all now wk (aw_queue w) (w\<lparr>aw_queue := []\<rparr>)"

definition resume_pending :: "timestamp \<Rightarrow> app_world \<Rightarrow> app_world" where
  "resume_pending now w =
     w\<lparr>aw_queue := aw_queue w @ map (Pair QUERY) (resumable_query_jobs now (aw_store w))
         @ map (Pair INGEST) (resumable_ingest_jobs now (aw_store w))\<rparr>"

section \<open>Counters\<close>

record query_counters =
  qc_active_sync :: nat
  qc_queued_sync :: nat
  qc_active_light :: nat
  qc_queued_light :: nat
  qc_open_cursors :: nat

definition diagnostics_queries :: "timestamp \<Rightarrow> controller \<Rightarrow> store \<Rightarrow> query_counters" where
  "diagnostics_queries now c s =
     (let a = admission_snapshot_of c in
      \<lparr>qc_active_sync = as_active a QueryOp, qc_queued_sync = as_queued a QueryOp,
       qc_active_light = as_active a Lightweight, qc_queued_light = as_queued a Lightweight,
       qc_open_cursors = count_open_cursors now s\<rparr>)"

record job_counters =
  jc_active :: nat
  jc_queued :: nat
  jc_by_state :: "(string \<times> nat) list"
  jc_checkpointed :: nat
  jc_output_bytes :: int
  jc_retention_hours :: int

definition diagnostics_jobs :: "int \<Rightarrow> store \<Rightarrow> job_counters" where
  "diagnostics_jobs retention_hours s =
     (let states = map (\<lambda>r. job_state_value (jr_state r)) (st_jobs s) in
      \<lparr>jc_active = length (filter (\<lambda>t. t = ''InProgress'' \<or> t = ''UploadComplete'') states),
       jc_queued = length (filter (\<lambda>t. t = ''Open'') states),
       jc_by_state = map (\<lambda>t. (t, count_list states t)) (sorted_set states),
       jc_checkpointed = length (remdups (map cp_job_id (st_checkpoints s))),
       jc_output_bytes = sum_list (map cp_bytes (st_checkpoints s)),
       jc_retention_hours = retention_hours\<rparr>)"

end
