(* ===== verification/AppProps.thy ===== *)
theory AppProps
  imports App QueryServiceProps
begin

text \<open>
  What a client of the query resource relies on: following \<open>nextRecordsUrl\<close> from the first
  answer to the last one yields every row of the statement once and in order, and asking for a
  page changes nothing, so each can be asked for again.
\<close>

section \<open>Paths as text\<close>

definition plain_segment :: "string \<Rightarrow> bool" where
  "plain_segment t \<longleftrightarrow> t \<noteq> [] \<and> t \<noteq> ''.'' \<and> CHR ''/'' \<notin> set t"

lemma split_plain: "c \<notin> set t \<Longrightarrow> split_chr c t = [t]"
  by (induction t) auto

lemma split_append: "c \<notin> set t \<Longrightarrow> split_chr c (t @ c # s) = t # split_chr c s"
  by (induction t) auto

lemma split_join: "ts \<noteq> [] \<Longrightarrow> \<forall>t \<in> set ts. c \<notin> set t \<Longrightarrow> split_chr c (join_with [c] ts) = ts"
proof (induction ts rule: induct_list012)
  case (3 t u ts)
  then show ?case using split_append [of c t "join_with [c] (u # ts)"] by simp
qed (simp_all add: split_plain)

lemma join_path_plain: "\<forall>t \<in> set ts. t \<noteq> ''/'' \<Longrightarrow> join_path d ts = d @ ts"
  by (induction ts arbitrary: d) auto

lemma path_of_path_str:
  assumes "\<forall>t \<in> set p. plain_segment t"
  shows "path_of (path_str p) = p"
proof (cases "p = []")
  case True
  then show ?thesis by (simp add: path_of_def path_str_def posix_parts_def starts_with_def)
next
  case False
  have plain: "CHR ''/'' \<notin> set t" "t \<noteq> []" "t \<noteq> ''.''" if "t \<in> set p" for t
    using assms that by (simp_all only: plain_segment_def) blast+
  have slash: "t \<noteq> ''/''" if "t \<in> set p" for t using plain(1) [OF that] by fastforce
  have shown: "path_str p = CHR ''/'' # join_with [CHR ''/''] p" by (simp only: path_str_def)
  have "split_chr (CHR ''/'') (path_str p) = [] # p"
  proof -
    have "split_chr (CHR ''/'') (join_with [CHR ''/''] p) = p" by (rule split_join [OF False]) (use plain(1) in blast)
    then show ?thesis by (simp only: shown split_chr.simps) simp
  qed
  moreover have "filter (\<lambda>t. t \<noteq> [] \<and> t \<noteq> ''.'') p = p" using plain(2,3) by (simp only: filter_id_conv) blast
  moreover have "starts_with (path_str p) ''/''" by (simp add: shown starts_with_def)
  ultimately have "posix_parts (path_str p) = ''/'' # p" by (simp only: posix_parts_def) simp
  then show ?thesis using join_path_plain [of p "[]"] slash by (simp only: path_of_def join_path.simps if_True) simp
qed

section \<open>Following a locator\<close>

text \<open>The text of a locator in a next URL is what the route passes to \<open>query_more\<close>.\<close>

definition route_locator :: "string \<Rightarrow> string" where
  "route_locator url = remove_prefix url (''/services/data/'' @ api_version @ ''/query/'')"

lemma route_locator_next: "route_locator (next_url locator n) = locator @ ''-'' @ int_str n"
proof -
  have "next_url locator n = (''/services/data/'' @ api_version @ ''/query/'') @ locator @ ''-'' @ int_str n"
    by (simp only: next_url_def append_assoc)
  then show ?thesis unfolding route_locator_def by (simp only: remove_prefix_append)
qed

fun follow ::
  "app_env \<Rightarrow> timestamp \<Rightarrow> string option \<Rightarrow> nat \<Rightarrow> query_body \<Rightarrow> app_world \<Rightarrow> http_error + out_record list" where
  "follow env now authorization fuel b w =
     (case qb_next b of
        None \<Rightarrow> Ok (qb_records b)
      | Some url \<Rightarrow>
          (case fuel of
             0 \<Rightarrow> Err (Crash ''no fuel'')
           | Suc n \<Rightarrow>
               (case query_more env now False authorization (route_locator url) w of
                  (Err e, u) \<Rightarrow> Err e
                | (Ok c, u) \<Rightarrow> rbind (follow env now authorization n c u) (\<lambda>rs. Ok (qb_records b @ rs)))))"

declare follow.simps [simp del]

text \<open>A cursor and its index as a first page leaves them.\<close>

definition open_locator :: "app_env \<Rightarrow> timestamp \<Rightarrow> string \<Rightarrow> string \<Rightarrow> bool \<Rightarrow> int \<Rightarrow> string list \<Rightarrow> app_world \<Rightarrow> bool" where
  "open_locator env now locator q incl n ids w \<longleftrightarrow>
     (\<exists>cur. get_cursor now locator (aw_store w) = Some cur \<and> sc_query cur = q \<and> sc_api_version cur = cursor_version incl
        \<and> sc_batch_size cur = n \<and> sc_total_size cur = int (length ids) \<and> sc_snapshot cur = ap_snapshot_id env
        \<and> aw_indexes w (path_of (sc_artifact cur)) = Some (index_of ids))"

lemma cursor_version_all: "(cursor_version incl = cursor_version True) = incl"
  by (cases incl) (simp_all add: cursor_version_def)

lemma query_more_page:
  assumes loc: "open_locator env now locator q incl n (map (ap_fmt env \<circ> record_id_of) rows) w"
    and auth: "require_token now a w = (Ok (), w)" and below: "off < length rows" and n: "0 < n"
    and fetched: "fetch_records_for_locator (ap_run env) (ap_fmt env) api_version (ap_catalog env) q incl
        (index_of (map (ap_fmt env \<circ> record_id_of) rows)) (int off) n = Ok (map f (take (nat n) (drop off rows)))"
  shows "query_more env now False a (locator @ ''-'' @ int_str (int off)) w
    = (Ok \<lparr>qb_total = int (length rows), qb_done = (off + nat n \<ge> length rows), qb_records = map f (take (nat n) (drop off rows)),
         qb_next = (if off + nat n \<ge> length rows then None else Some (next_url locator (int (off + nat n))))\<rparr>, w)"
proof -
  obtain cur where cur: "get_cursor now locator (aw_store w) = Some cur" "sc_query cur = q"
    "sc_api_version cur = cursor_version incl" "sc_batch_size cur = n" "sc_total_size cur = int (length rows)"
    "sc_snapshot cur = ap_snapshot_id env"
    "aw_indexes w (path_of (sc_artifact cur)) = Some (index_of (map (ap_fmt env \<circ> record_id_of) rows))"
    using loc by (auto simp: open_locator_def)
  have digits: "int_str (int off) = nat_digits off" by (simp add: int_str_def)
  have "CHR ''-'' \<notin> set (nat_digits off)"
    using nat_digits_all [of off] by (auto simp: list_all_iff dest: is_digit_imp)
  then have part: "rpartition_chr (CHR ''-'') (locator @ ''-'' @ int_str (int off)) = (locator, True, nat_digits off)"
    using rpartition_chr_join by (simp add: digits)
  have got: "int off + int (length (take (nat n) (drop off rows))) \<ge> int (length rows) \<longleftrightarrow> off + nat n \<ge> length rows"
    "\<not> off + nat n \<ge> length rows \<Longrightarrow> int off + int (length (take (nat n) (drop off rows))) = int (off + nat n)"
    using below by auto
  show ?thesis
    using below got(2) unfolding query_more_def part
    by (simp add: ebind_def auth eget_def cur cursor_version_all fetched eret_def got(1) Let_def del: of_nat_add)
qed

lemma follow_all:
  assumes loc: "open_locator env now locator q incl n (map (ap_fmt env \<circ> record_id_of) rows) w"
    and auth: "require_token now a w = (Ok (), w)" and n: "0 < n"
    and fetched: "\<And>off. fetch_records_for_locator (ap_run env) (ap_fmt env) api_version (ap_catalog env) q incl
        (index_of (map (ap_fmt env \<circ> record_id_of) rows)) (int off) n = Ok (map f (take (nat n) (drop off rows)))"
    and "off < length rows" "length rows - off \<le> fuel" "qb_next b = Some (next_url locator (int off))"
  shows "follow env now a fuel b w = Ok (qb_records b @ map f (drop off rows))"
  using assms(5-7)
proof (induction fuel arbitrary: off b)
  case (Suc fuel)
  let ?c = "\<lparr>qb_total = int (length rows), qb_done = (off + nat n \<ge> length rows), qb_records = map f (take (nat n) (drop off rows)),
         qb_next = (if off + nat n \<ge> length rows then None else Some (next_url locator (int (off + nat n))))\<rparr>"
  have step: "query_more env now False a (route_locator (next_url locator (int off))) w = (Ok ?c, w)"
    unfolding route_locator_next by (rule query_more_page [OF loc auth Suc.prems(1) n fetched])
  have "follow env now a fuel ?c w = Ok (map f (drop off rows))"
  proof (cases "off + nat n \<ge> length rows")
    case True
    then show ?thesis by (simp add: follow.simps)
  next
    case False
    have "follow env now a fuel ?c w = Ok (qb_records ?c @ map f (drop (off + nat n) rows))"
      by (rule Suc.IH) (use False Suc.prems n in auto)
    also have "qb_records ?c @ map f (drop (off + nat n) rows) = map f (drop off rows)"
    proof -
      have "drop (off + nat n) rows = drop (nat n) (drop off rows)" by (simp add: add.commute)
      then show ?thesis by (simp add: map_append [symmetric] del: map_append drop_drop)
    qed
    finally show ?thesis .
  qed
  then show ?case by (subst follow.simps) (simp add: Suc.prems(3) step)
qed simp

section \<open>The first page\<close>

lemma map_snd_index_of: "map snd (index_of ids) = ids"
proof -
  have "map snd (index_of ids) = map snd (enumerate_from 0 ids)"
    by (simp add: index_of_def comp_def case_prod_beta del: map_snd_enumerate_from)
  then show ?thesis by (simp only: map_snd_enumerate_from)
qed

lemma write_index_reads: "tmp \<noteq> index_path d locator \<Longrightarrow>
    fs_run (write_index_ops d tmp locator ids) g (index_path d locator) = Some (index_of ids)"
  by (simp add: write_index_ops_def publish_temp_ops_def)

lemma created_cursor:
  assumes "create_cursor now l v q h ob sn n off k art e s = (Ok (), t)" "later < e"
  shows "get_cursor later l t = Some \<lparr>sc_query = q, sc_api_version = v, sc_page_offset = off, sc_batch_size = n,
      sc_total_size = k, sc_artifact = art, sc_snapshot = sn\<rparr>"
proof -
  have new: "l \<notin> cu_locator ` set (st_cursors s)"
    and t: "st_cursors t = st_cursors s @ [\<lparr>cu_locator = l, cu_api_version = v, cu_query = q, cu_query_hash = h, cu_object = ob,
      cu_snapshot = sn, cu_batch_size = n, cu_offset = off, cu_total = k, cu_artifact = art, cu_status = ''open'',
      cu_created_at = now, cu_last_accessed_at = now, cu_expires_at = e\<rparr>]"
    using assms(1) by (auto simp: create_cursor_def split: if_splits)
  have "filter (\<lambda>r. cu_locator r = l \<and> cursor_live later r) (st_cursors s) = []"
    using new by (auto simp: filter_empty_conv)
  then show ?thesis using assms(2) by (simp add: get_cursor_def t cursor_live_def)
qed

lemma run_query_first:
  assumes run: "run_query env now locator tmp False a q incl opts w = (Ok b, u)"
    and plan: "plan (ap_catalog env) q incl = Ok p"
    and tmp: "tmp \<noteq> index_path (ap_cursor_directory env) locator"
    and seg: "\<forall>t \<in> set (index_path (ap_cursor_directory env) locator). plain_segment t"
    and later: "later < now + days_us 2"
  defines "rows \<equiv> ap_run env (qp_sql p) (qp_parameters p)"
  obtains n where "0 < n" "aw_tokens u = aw_tokens w" "aw_chaos u = aw_chaos w"
    "qb_records b = map (out_record_of (ap_fmt env) api_version p False) (take (nat n) rows)"
    "nat n \<ge> length rows \<Longrightarrow> qb_next b = None"
    "nat n < length rows \<Longrightarrow> qb_next b = Some (next_url locator n)
       \<and> open_locator env later locator q incl n (map (ap_fmt env \<circ> record_id_of) rows) u"
proof -
  from run obtain v n where auth: "require_token now a w = (Ok (), v)" and pg: "page env now locator tmp False q incl 0 n v = (Ok b, u)"
    by (auto simp: run_query_def ebind_eq_Inr eget_def elift_def)
  have v: "v = w" using require_token_ok [OF auth] .
  have n: "0 < n"
    using pg by (auto simp: page_def fetch_page_with_cursor_index_def eraise_def split: if_splits)
  let ?pg = "execute_page (ap_run env) (ap_fmt env) api_version p n 0"
  have recs: "qg_records ?pg = map (out_record_of (ap_fmt env) api_version p False) (take (nat n) rows)"
    "qg_total_size ?pg = length rows" by (simp_all add: execute_page_def rows_def Let_def)
  show thesis
  proof (cases "nat n \<ge> length rows")
    case True
    then have "fetch_page_with_cursor_index (ap_run env) (ap_fmt env) api_version (ap_catalog env) q incl n 0 = Ok (?pg, None)"
      using n by (simp add: fetch_page_with_cursor_index_def plan recs)
    then have "u = w" "b = \<lparr>qb_total = int (length rows), qb_done = True, qb_records = qg_records ?pg, qb_next = None\<rparr>"
      using pg True by (auto simp: page_def v ebind_def emodify_def eret_def recs Let_def)
    with True n recs that [of n] show thesis by simp
  next
    case False
    let ?idx = "index_of (map (ap_fmt env \<circ> record_id_of) rows)"
    let ?path = "index_path (ap_cursor_directory env) locator"
    have "fetch_page_with_cursor_index (ap_run env) (ap_fmt env) api_version (ap_catalog env) q incl n 0 = Ok (?pg, Some ?idx)"
      using n False by (simp add: fetch_page_with_cursor_index_def plan recs rows_def)
    with pg False n obtain s where s: "create_cursor now locator (cursor_version incl) q (ap_sha256 env q)
          (qg_object_name ?pg) (ap_snapshot_id env) n 0 (int (length rows)) (path_str ?path) (now + days_us 2) (aw_store w) = (Ok (), s)"
      and u: "u = w\<lparr>aw_store := s, aw_indexes := fs_run (write_index_ops (ap_cursor_directory env) tmp locator (map snd ?idx)) (aw_indexes w)\<rparr>"
      and b: "b = \<lparr>qb_total = int (length rows), qb_done = False, qb_records = qg_records ?pg, qb_next = Some (next_url locator n)\<rparr>"
      by (auto simp: page_def v ebind_def emodify_def eret_def recs on_store_def Let_def split: prod.splits sum.splits)
    have "open_locator env later locator q incl n (map (ap_fmt env \<circ> record_id_of) rows) u"
      using created_cursor [OF s later] write_index_reads [OF tmp] path_of_path_str [OF seg]
      by (simp add: open_locator_def u map_snd_index_of)
    with False n recs that [of n] show thesis by (simp add: b u)
  qed
qed


definition wit_settings :: settings where
  "wit_settings = \<lparr>se_seed_directory = [], se_catalog_path = [], se_data_roots = [], se_state_directory = [],
     se_bulk_query_results_directory = [], se_memory_limit = [], se_temp_directory = [], se_max_temp_size = [],
     se_disk_reserve_bytes = 1, se_scan_batch_rows = 1, se_batch_readahead = 1, se_fragment_readahead = 1,
     se_lightweight_request_workers = 1, se_heavy_query_workers = 1, se_bulk_workers = 1, se_bulk_result_part_records = 2,
     se_bulk_queue_delay_ms = 1, se_bulk_job_retention_hours = 24, se_bulk_ingest_max_upload_bytes = 100,
     se_bulk_ingest_batch_records = 2, se_sync_query_timeout_seconds = 1\<rparr>"

definition wit_http :: app_env where
  "wit_http = \<lparr>ap_settings = wit_settings, ap_catalog = wit_catalog, ap_snapshot_id = ''s'', ap_run = wit_run, ap_fmt = wit_fmt,
     ap_sha256 = (\<lambda>t. t), ap_wording = (\<lambda>q e. []), ap_deleted = (\<lambda>q a b. Some []), ap_defaults = wit_knobs 9,
     ap_resolve = (\<lambda>p. p), ap_cursor_directory = [''cursors''], ap_upload_root = [''ingest''], ap_results_root = [''results'']\<rparr>"

definition wit_session :: app_world where
  "wit_session = (wit_app 9 [])\<lparr>aw_tokens := [(''t'', 1000)]\<rparr>"


end
