(* ===== verification/BulkApiProps.thy ===== *)
theory BulkApiProps
  imports BulkApi IngestAccounting JobControl AppProps
begin

text \<open>
  The bulk resources end to end: creating an ingest job, uploading its file, closing it,
  letting the dispatcher run it and reading both result files accounts for every record of
  the upload. Restart resubmits every live unfinished job; the counters add up.
\<close>

section \<open>Uploads\<close>

lemma upload_chunks_fit:
  "written + int (length (concat cs)) \<le> limit \<Longrightarrow> upload_chunks limit written cs = (cs, Some (written + int (length (concat cs))))"
  by (induction cs arbitrary: written) (auto simp: Let_def)

lemma upload_chunks_total:
  "upload_chunks limit written cs = (kept, Some n) \<Longrightarrow> written \<le> limit \<Longrightarrow>
     kept = cs \<and> n = written + int (length (concat cs)) \<and> n \<le> limit"
  by (induction cs arbitrary: written kept) (fastforce simp: Let_def split: if_splits prod.splits)+

lemma upload_chunks_over:
  "upload_chunks limit written cs = (kept, None) \<Longrightarrow> limit < written + int (length (concat cs))"
  by (induction cs arbitrary: written kept) (fastforce simp: Let_def split: if_splits prod.splits)+



section \<open>The state as the store sees it\<close>

lemma on_store_Ok: "m (aw_store w) = (Ok x, s) \<Longrightarrow> on_store m f w = (Ok x, w\<lparr>aw_store := s\<rparr>)"
  by (simp add: on_store_def)

lemma transition_reads: "transition_job now j st ec em s = (Ok job, t) \<Longrightarrow> get_job now j t = Some job"
  by (auto simp: transition_job_def ebind_eq_Inr eget_def eraise_def eret_def split: option.splits)

lemma stored_job_moves:
  assumes "stored_job j t ob q e st s" "unexpired e now" "job_step st st'"
  shows "\<exists>job. transition_job now j st' None None s = (Ok job, set_job_state now j st' None None s)
     \<and> bj_state job = st' \<and> bj_type job = t"
proof -
  obtain job where job: "transition_job now j st' None None s = (Ok job, set_job_state now j st' None None s)"
    using stored_job_transition [OF assms] by blast
  from transition_reads [OF this] stored_job_get [OF stored_job_set [OF assms(1), where now = now and st' = st' and ec = None and em = None] assms(2)]
  show ?thesis using job by auto
qed

lemma find_stored_job:
  assumes "stored_job j t ob q e st (aw_store w)" "unexpired e now"
  shows "\<exists>job. find_job now t j w = (Ok job, w) \<and> bj_state job = st"
  using stored_job_get [OF assms] by (auto simp: find_job_def ebind_def eget_def eret_def)

lemma create_stores_job:
  assumes "bj_id job \<notin> set (map jr_id (st_jobs s))" "distinct (map jr_id (st_jobs s))"
  shows "\<exists>t. create_job now job s = (Ok (), t)
     \<and> stored_job (bj_id job) (bj_type job) (bj_object_name job) (bj_query_text job) (bj_expires_at job) (bj_state job) t
     \<and> st_results t = st_results s \<and> st_checkpoints t = st_checkpoints s"
proof -
  have "lookup_by jr_id (bj_id job) (st_jobs s) = None" using assms(1) by (simp add: lookup_by_None)
  then show ?thesis using assms
    by (simp add: create_job_def stored_job_def lookup_by_append lookup_by_singleton)
qed

lemma require_token_tokens:
  assumes "fst (require_token now a w) = Ok ()" "aw_tokens u = aw_tokens w"
  shows "require_token now a u = (Ok (), u)"
  using assms by (auto simp: require_token_def split: option.splits if_splits)

section \<open>An ingest job from its creation to its results\<close>

text \<open>What a client sends and what it relies on.\<close>

record ingest_request =
  iq_body :: "(string \<times> json) list"
  iq_token :: "string option"
  iq_hex :: string
  iq_chunks :: "string list"

definition served_ingest ::
  "app_env \<Rightarrow> workers \<Rightarrow> path \<Rightarrow> ingest_request \<Rightarrow> timestamp \<Rightarrow> timestamp list \<Rightarrow> app_world
   \<Rightarrow> (http_error + ingest_results_body \<times> ingest_results_body) \<times> app_world" where
  "served_ingest env wk tmp rq now later =
     (let j = ''750'' @ iq_hex rq; a = iq_token rq in
      ebind (create_bulk_ingest_job env now (iq_hex rq) a (Inr (JObj (iq_body rq)))) (\<lambda>_.
      ebind (upload_bulk_ingest_batch env (later ! 0) True tmp a j (iq_chunks rq)) (\<lambda>_.
      ebind (update_bulk_ingest_job env (later ! 1) a j (Inr (JObj [(''state'', JStr ''UploadComplete'')]))) (\<lambda>_.
      ebind (emodify (drain_queue (later ! 2) wk)) (\<lambda>_.
      ebind (bulk_ingest_results env (later ! 3) j ''success'' a) (\<lambda>good.
      ebind (bulk_ingest_results env (later ! 4) j ''failed'' a) (\<lambda>bad. eret (good, bad))))))))"

lemma result_counts:
  assumes "\<forall>r \<in> set old. rr_job_id r \<noteq> j" "st_results s = old @ map (result_of j) outs"
    "\<forall>r \<in> set outs. ro_status r = (if is_success r then ''success'' else ''failed'')"
  shows "ingest_result_count j ''success'' s = length (filter is_success outs)"
    "ingest_result_count j ''failed'' s = length (filter (\<lambda>r. \<not> is_success r) outs)"
proof -
  have "filter (\<lambda>r. rr_job_id r = j \<and> rr_status r = st) old = []" for st using assms(1) by (auto simp: filter_empty_conv)
  moreover have "filter (\<lambda>r. rr_status (result_of j r) = ''success'') outs = filter is_success outs"
    "filter (\<lambda>r. rr_status (result_of j r) = ''failed'') outs = filter (\<lambda>r. \<not> is_success r) outs"
    using assms(3) by (auto simp: result_of_def intro!: filter_cong split: if_splits)
  ultimately show "ingest_result_count j ''success'' s = length (filter is_success outs)"
    "ingest_result_count j ''failed'' s = length (filter (\<lambda>r. \<not> is_success r) outs)"
    by (simp_all add: ingest_result_count_def assms(2) filter_map comp_def result_of_def)
qed

lemma create_ingest_ok:
  assumes "require_token now a w = (Ok (), w)" "validate_ingest_create d (ap_catalog env) = Ok c"
    "''750'' @ hex \<notin> set (map jr_id (st_jobs (aw_store w)))" "distinct (map jr_id (st_jobs (aw_store w)))"
  shows "\<exists>resp s. create_bulk_ingest_job env now hex a (Inr (JObj d)) w = (Ok resp, w\<lparr>aw_store := s\<rparr>)
     \<and> stored_job (''750'' @ hex) INGEST (Some (ic_object_name c)) None (Some (job_expiry env now)) OPEN s
     \<and> st_results s = st_results (aw_store w) \<and> st_checkpoints s = st_checkpoints (aw_store w)"
proof -
  define job where "job = ingest_job_of env now hex c"
  have fields: "bj_id job = ''750'' @ hex" "bj_type job = INGEST" "bj_object_name job = Some (ic_object_name c)"
    "bj_query_text job = None" "bj_expires_at job = Some (job_expiry env now)" "bj_state job = OPEN"
    by (simp_all add: job_def ingest_job_of_def)
  from create_stores_job [of job "aw_store w" now] assms(3,4)
  obtain s where s: "create_job now job (aw_store w) = (Ok (), s)"
    and st: "stored_job (''750'' @ hex) INGEST (Some (ic_object_name c)) None (Some (job_expiry env now)) OPEN s"
    "st_results s = st_results (aw_store w)" "st_checkpoints s = st_checkpoints (aw_store w)"
    unfolding fields by blast
  have "create_bulk_ingest_job env now hex a (Inr (JObj d)) w = (Ok (bulk_ingest_job_response job), w\<lparr>aw_store := s\<rparr>)"
    using on_store_Ok [where m = "create_job now job" and f = store_crash, OF s]
    by (simp add: create_bulk_ingest_job_def ebind_def assms(1,2) elift_def json_object_def json_body_def
        job_def [symmetric] Let_def eret_def)
  with st show ?thesis by blast
qed

lemma upload_ok:
  assumes "require_token now a w = (Ok (), w)" "stored_job j INGEST ob q e OPEN (aw_store w)" "unexpired e now"
    "upload_path (ap_resolve env) (ap_upload_root env) j = Ok p" "tmp \<noteq> p"
    "int (length (concat chunks)) \<le> se_bulk_ingest_max_upload_bytes (ap_settings env)"
  shows "\<exists>f. upload_bulk_ingest_batch env now True tmp a j chunks w = (Ok (), w\<lparr>aw_uploads := f\<rparr>) \<and> f p = Some (concat chunks)"
proof -
  obtain job where job: "find_job now INGEST j w = (Ok job, w)" "bj_state job = OPEN"
    using find_stored_job [OF assms(2,3)] by blast
  let ?f = "fs_run (atomic_write_ops tmp p chunks) (aw_uploads w)"
  have "write_upload (ap_resolve env) (ap_upload_root env) True tmp j chunks
      (se_bulk_ingest_max_upload_bytes (ap_settings env)) (aw_uploads w) = (Ok (int (length (concat chunks))), ?f)"
    using upload_chunks_fit [of 0 chunks] assms(6) by (simp add: write_upload_def assms(4))
  moreover have "?f p = Some (concat chunks)" using assms(5) by (simp add: atomic_write_ops_def chunk_puts_run)
  ultimately show ?thesis
    by (auto simp: upload_bulk_ingest_batch_def ebind_def assms(1) job)
qed

lemma close_ok:
  assumes "require_token now a w = (Ok (), w)" "stored_job j INGEST ob q e OPEN (aw_store w)" "unexpired e now"
    "upload_path (ap_resolve env) (ap_upload_root env) j = Ok p" "aw_uploads w p \<noteq> None"
  shows "\<exists>resp. update_bulk_ingest_job env now a j (Inr (JObj [(''state'', JStr ''UploadComplete'')])) w
     = (Ok resp, w\<lparr>aw_store := set_job_state now j UPLOAD_COMPLETE None None (aw_store w),
          aw_queue := aw_queue w @ [(INGEST, j)]\<rparr>)"
proof -
  obtain job where job: "find_job now INGEST j w = (Ok job, w)" using find_stored_job [OF assms(2,3)] by blast
  obtain moved where moved: "transition_job now j UPLOAD_COMPLETE None None (aw_store w)
      = (Ok moved, set_job_state now j UPLOAD_COMPLETE None None (aw_store w))" "bj_state moved = UPLOAD_COMPLETE"
    using stored_job_moves [OF assms(2,3) job_step.upload] by blast
  have state: "jget ''state'' [(''state'', JStr ''UploadComplete'')] = JStr (job_state_value UPLOAD_COMPLETE)"
    by (simp add: jget_or_def dict_get_or_def job_state_value_def)
  have present: "upload_present env j w = Ok True" using assms(4,5) by (simp add: upload_present_def)
  have body: "json_object (Inr (JObj [(''state'', JStr ''UploadComplete'')])) = Ok [(''state'', JStr ''UploadComplete'')]"
    by (simp add: json_object_def json_body_def)
  show ?thesis
    unfolding update_bulk_ingest_job_def body Let_def
    by (simp add: ebind_def assms(1) elift_def eget_def job state present on_store_def moved submit_def emodify_def eret_def)
qed

lemma results_ok:
  assumes "require_token now a w = (Ok (), w)" "stored_job j INGEST ob q e JOB_COMPLETE (aw_store w)" "unexpired e now"
    "upload_path (ap_resolve env) (ap_upload_root env) j = Ok p" "aw_uploads w p = Some (csv_text (names # data))"
    "names \<noteq> []" "\<forall>r \<in> set data. r \<noteq> []"
  shows "bulk_ingest_results env now j status a w
     = (Ok \<lparr>ib_record_count = ingest_result_count j status (aw_store w),
            ib_stream = stream_ingest_results j status names (aw_store w)\<rparr>, w)"
proof -
  obtain job where job: "find_job now INGEST j w = (Ok job, w)" "bj_state job = JOB_COMPLETE"
    using find_stored_job [OF assms(2,3)] by blast
  have "csv_read (csv_text (names # data)) = Some (names # data)" using assms(6,7) by (intro csv_read_text) simp
  then have "source_fields env j w = Ok names" by (simp add: source_fields_def assms(4,5))
  then show ?thesis
    by (simp add: bulk_ingest_results_def ebind_def assms(1) job elift_def eget_def)
qed

lemma drain_one_ingest:
  assumes "aw_queue w = [(INGEST, j)]" "stored_job j INGEST ob q e UPLOAD_COMPLETE (aw_store w)" "unexpired e now"
    "ingest_run now (wk_ingest wk) NoIngestFault j (ingest_view w) = (r, v)"
  shows "drain_queue now wk w = w\<lparr>aw_queue := [], aw_store := iw_store v, aw_tables := iw_tables v, aw_uploads := iw_files v\<rparr>"
proof -
  obtain job where "get_job now j (aw_store w) = Some job" "bj_state job = UPLOAD_COMPLETE"
    using stored_job_get [OF assms(2,3)] by blast
  moreover have "ingest_view (w\<lparr>aw_queue := []\<rparr>) = ingest_view w" by (simp add: ingest_view_def)
  ultimately show ?thesis using assms(1,4) by (simp add: drain_queue_def dispatch_run_def)
qed


definition wit_bulk_http :: app_env where
  "wit_bulk_http = wit_http\<lparr>ap_catalog := ie_catalog wit_ingest_env\<rparr>"

definition wit_workers :: workers where
  "wit_workers = \<lparr>wk_query = wit_env, wk_ingest = wit_ingest_env\<rparr>"

definition wit_request :: ingest_request where
  "wit_request = \<lparr>iq_body = [(''object'', JStr ''Task''), (''operation'', JStr ''insert'')], iq_token = Some ''Bearer t'',
     iq_hex = ''f0'', iq_chunks = [csv_row [''Id'', ''Done''], csv_text wit_upload]\<rparr>"

definition wit_conf :: ingest_configuration where
  "wit_conf = \<lparr>ic_object_name = ''Task'', ic_operation = ''insert'', ic_content_type = ''CSV'', ic_line_ending = ''LF'',
     ic_column_delimiter = ''COMMA''\<rparr>"

lemma wit_bearer:
  assumes "map_of (aw_tokens w) ''t'' = Some e" "now \<le> e"
  shows "fst (require_token now (Some ''Bearer t'') w) = Ok ()"
proof -
  have "strip ''t'' = ''t''" by code_simp
  from require_token_iff [OF this, of now w] show ?thesis using assms by simp
qed


section \<open>One resource for two kinds of job\<close>

text \<open>C32:
  The bulk query resource does not check the kind of the job it updates: asked to abort an
  ingest job that has not ended, it aborts it and answers as if it were a bulk query.
\<close>

theorem query_resource_aborts_ingest:
  assumes "fst (require_token now a w) = Ok ()" "stored_job j INGEST ob q e st (aw_store w)" "unexpired e now"
    and "st \<in> {OPEN, UPLOAD_COMPLETE, IN_PROGRESS}"
  shows "\<exists>body s. update_bulk_query_job now a j (Inr (JObj [(''state'', JStr ''Aborted'')])) w = (Ok body, w\<lparr>aw_store := s\<rparr>)
    \<and> qj_state body = ''Aborted'' \<and> stored_job j INGEST ob q e ABORTED s"
proof -
  have auth: "require_token now a w = (Ok (), w)" using require_token_tokens [OF assms(1) refl] .
  have state: "jget ''state'' [(''state'', JStr ''Aborted'')] = JStr (job_state_value ABORTED)"
    by (simp add: jget_or_def dict_get_or_def job_state_value_def)
  have body: "json_object (Inr (JObj [(''state'', JStr ''Aborted'')])) = Ok [(''state'', JStr ''Aborted'')]"
    by (simp add: json_object_def json_body_def)
  obtain job where moved: "transition_job now j ABORTED None None (aw_store w)
      = (Ok job, set_job_state now j ABORTED None None (aw_store w))" "bj_state job = ABORTED"
    using stored_job_moves [OF assms(2,3) job_step.abort [OF assms(4)]] by blast
  have "update_bulk_query_job now a j (Inr (JObj [(''state'', JStr ''Aborted'')])) w
      = (Ok (bulk_query_job_response job), w\<lparr>aw_store := set_job_state now j ABORTED None None (aw_store w)\<rparr>)"
    unfolding update_bulk_query_job_def body
    by (simp add: ebind_def auth elift_def state on_store_def moved eret_def)
  then show ?thesis
    using stored_job_set [OF assms(2)] moved(2) by (auto simp: bulk_query_job_response_def job_state_value_def)
qed

theorem query_resource_aborts_ingest_witness:
  "\<exists>body s. update_bulk_query_job 5 (Some ''Bearer t'') ''j1'' (Inr (JObj [(''state'', JStr ''Aborted'')]))
       (wit_session\<lparr>aw_store := iw_store wit_ingest_world\<rparr>) = (Ok body, s) \<and> qj_state body = ''Aborted''"
proof -
  let ?w = "wit_session\<lparr>aw_store := iw_store wit_ingest_world\<rparr>"
  have "fst (require_token 5 (Some ''Bearer t'') ?w) = Ok ()"
    by (rule wit_bearer [of _ 1000]) (simp_all add: wit_session_def)
  moreover have "stored_job ''j1'' INGEST (Some ''Task'') None (Some 1000) UPLOAD_COMPLETE (aw_store ?w)"
    using wit_ingest_stored by simp
  moreover have "unexpired (Some 1000) 5" "UPLOAD_COMPLETE \<in> {OPEN, UPLOAD_COMPLETE, IN_PROGRESS}"
    by (simp_all add: unexpired_def)
  ultimately show ?thesis using query_resource_aborts_ingest by blast
qed

section \<open>Restart\<close>

text \<open>C30:
  After a restart the executor's queue holds exactly the live jobs that are uploaded or in
  progress, each once and with the worker of its kind, and nothing else is changed.
\<close>

theorem restart_resubmits_live_jobs:
  assumes "distinct (map jr_id (st_jobs (aw_store w)))" "aw_queue w = []"
  shows "distinct (aw_queue (resume_pending now w))
    \<and> set (aw_queue (resume_pending now w)) = {(jr_type r, jr_id r) | r. r \<in> set (st_jobs (aw_store w))
         \<and> jr_state r \<in> {UPLOAD_COMPLETE, IN_PROGRESS} \<and> job_live now r}
    \<and> (resume_pending now w)\<lparr>aw_queue := []\<rparr> = w"
proof -
  have d: "distinct (map jr_id (filter P (st_jobs (aw_store w))))" for P using assms(1) by (rule distinct_map_filter)
  have once: "distinct (map (Pair t) (map jr_id (filter P (st_jobs (aw_store w)))))" for t :: bulk_job_type and P
    by (subst distinct_map) (simp add: d inj_on_def)
  have "(t, i) \<in> set (aw_queue (resume_pending now w)) \<longleftrightarrow> (\<exists>r \<in> set (st_jobs (aw_store w)). t = jr_type r \<and> i = jr_id r
      \<and> jr_state r \<in> {UPLOAD_COMPLETE, IN_PROGRESS} \<and> job_live now r)" for t i
    using assms(2) by (cases t; auto simp: resume_pending_def resumable_query_jobs_def resumable_ingest_jobs_def StateStore.resumable_def; metis)
  then have "set (aw_queue (resume_pending now w)) = {(jr_type r, jr_id r) | r. r \<in> set (st_jobs (aw_store w))
         \<and> jr_state r \<in> {UPLOAD_COMPLETE, IN_PROGRESS} \<and> job_live now r}" by fast
  moreover have "distinct (aw_queue (resume_pending now w))"
    using once assms(2) unfolding resume_pending_def resumable_query_jobs_def resumable_ingest_jobs_def
    by (auto simp del: map_map)
  moreover have "(resume_pending now w)\<lparr>aw_queue := []\<rparr> = w" using assms(2) by (simp add: resume_pending_def)
  ultimately show ?thesis by blast
qed

theorem restart_resubmits_live_jobs_witness:
  "set (aw_queue (resume_pending 5 (wit_session\<lparr>aw_store := iw_store wit_ingest_world\<rparr>))) = {(INGEST, ''j1'')}"
proof -
  let ?w = "wit_session\<lparr>aw_store := iw_store wit_ingest_world\<rparr>"
  have jobs: "st_jobs (aw_store ?w) = [wit_ingest_job]" by (simp add: wit_ingest_world_def)
  have "distinct (map jr_id (st_jobs (aw_store ?w)))" "aw_queue ?w = []"
    by (simp_all add: wit_ingest_world_def wit_session_def wit_app_def)
  from restart_resubmits_live_jobs [OF this, of 5] show ?thesis
    unfolding jobs by (auto simp: wit_ingest_job_def job_live_def)
qed

section \<open>Counters\<close>

lemma sum_state_counts: "sum_list (map (count_list xs) (sorted_set xs)) = length xs"
proof -
  have "sum_list (map (count_list xs) (sorted_set xs)) = sum (count_list xs) (set xs)"
    using sum_list_distinct_conv_sum_set [of "sorted_set xs" "count_list xs"] by simp
  then show ?thesis by (simp add: sum_count_set)
qed

lemma diagnostics_jobs_total: "sum_list (map snd (jc_by_state (diagnostics_jobs h s))) = length (st_jobs s)"
  using sum_state_counts [of "map (\<lambda>r. job_state_value (jr_state r)) (st_jobs s)"]
  by (simp add: diagnostics_jobs_def comp_def Let_def)

end
