(* ===== verification/SimEvents.thy ===== *)
theory SimEvents
  imports PyDate Complex_Main
begin

text \<open>
  The business events of the simulator (\<open>simulator/events.py\<close>): their identity, a digest of
  their content, and their payload with the JSON text it is stored as. A payload is a flat
  dictionary of scalars, which is all the planners build; \<open>ScDecimal\<close> is a \<open>Decimal\<close> of two
  places, held in cents, which \<open>default=str\<close> prints as text. Floats are integral here, the only
  ones the planners put into a payload. The digest is the parameter \<open>sha\<close>, the bytes of SHA-256.
\<close>

section \<open>Scalars\<close>

datatype scalar =
  ScNull | ScBool bool | ScInt int | ScFloat int | ScStr string | ScDecimal int

type_synonym payload = "(string, scalar) dict"

text \<open>\<open>str\<close> of a \<open>Decimal\<close> with two decimal places.\<close>

definition decimal_str :: "int \<Rightarrow> string" where
  "decimal_str cents =
     (if cents < 0 then ''-'' else '''') @ int_str (\<bar>cents\<bar> div 100) @ ''.'' @ zero_pad 2 (\<bar>cents\<bar> mod 100)"

text \<open>\<open>Decimal(text)\<close> of such a text.\<close>

definition decimal_of_str :: "string \<Rightarrow> int option" where
  "decimal_of_str t =
     (let neg = starts_with t ''-''; u = (if neg then tl t else t);
          (whole, dot, frac) = partition_chr (CHR ''.'') u in
      if is_decimal whole \<and> dot \<and> length frac = 2 \<and> list_all is_digit frac
      then Some ((if neg then - 1 else 1) * (int (digits_val whole) * 100 + int (digits_val frac)))
      else None)"

section \<open>JSON text\<close>

definition hex_char :: "nat \<Rightarrow> char" where
  "hex_char n = (if n < 10 then digit_char n else char_of (87 + n))"

definition hex_val :: "char \<Rightarrow> nat" where
  "hex_val c = (if is_digit c then digit_val c else of_char c - 87)"

text \<open>\<open>ensure_ascii\<close>: two-character escapes where JSON has them, \<open>\\u00xx\<close> outside blank to tilde.\<close>

definition short_escapes :: "(char \<times> char) list" where
  "short_escapes = [(CHR 0x22, CHR 0x22), (CHR 0x5C, CHR 0x5C), (CHR 0x0A, CHR ''n''), (CHR 0x0D, CHR ''r''),
     (CHR 0x09, CHR ''t''), (CHR 0x08, CHR ''b''), (CHR 0x0C, CHR ''f'')]"

definition escape_char :: "char \<Rightarrow> string" where
  "escape_char c =
     (case map_of short_escapes c of
        Some e \<Rightarrow> [CHR 0x5C, e]
      | None \<Rightarrow>
          if of_char c < (32 :: nat) \<or> of_char c > (126 :: nat) then
            [CHR 0x5C, CHR ''u'', CHR ''0'', CHR ''0'', hex_char (of_char c div 16), hex_char (of_char c mod 16)]
          else [c])"

definition json_string :: "string \<Rightarrow> string" where
  "json_string s = CHR 0x22 # concat (map escape_char s) @ [CHR 0x22]"

fun json_scalar :: "scalar \<Rightarrow> string" where
  "json_scalar ScNull = ''null''"
| "json_scalar (ScBool b) = (if b then ''true'' else ''false'')"
| "json_scalar (ScInt i) = int_str i"
| "json_scalar (ScFloat i) = int_str i @ ''.0''"
| "json_scalar (ScStr s) = json_string s"
| "json_scalar (ScDecimal c) = json_string (decimal_str c)"

definition json_member :: "string \<times> scalar \<Rightarrow> string" where
  "json_member kv = json_string (fst kv) @ '':'' @ json_scalar (snd kv)"

text \<open>\<open>json.dumps(payload, sort_keys=True, separators=(",", ":"), default=str)\<close>.\<close>

definition json_dumps :: "payload \<Rightarrow> string" where
  "json_dumps p = ''{'' @ join_with '','' (map json_member (sort_key fst p)) @ ''}''"

text \<open>\<open>json.loads\<close> on the compact flat objects \<open>json_dumps\<close> writes.\<close>

definition simple_escape :: "char \<Rightarrow> char option" where
  "simple_escape = map_of (map prod.swap short_escapes)"

fun scan_string :: "string \<Rightarrow> (string \<times> string) option" where
  "scan_string [] = None"
| "scan_string (c # r) =
     (if c = CHR 0x22 then Some ([], r)
      else if c = CHR 0x5C then
        (case r of
           [] \<Rightarrow> None
         | e # r' \<Rightarrow>
             (case simple_escape e of
                Some d \<Rightarrow> map_option (apfst (Cons d)) (scan_string r')
              | None \<Rightarrow>
                  (case r' of
                     y # z # a # b # r'' \<Rightarrow>
                       if e = CHR ''u'' \<and> y = CHR ''0'' \<and> z = CHR ''0'' then
                         map_option (apfst (Cons (char_of (16 * hex_val a + hex_val b)))) (scan_string r'')
                       else None
                   | _ \<Rightarrow> None)))
      else map_option (apfst (Cons c)) (scan_string r))"

definition numeric_part :: "char \<Rightarrow> bool" where
  "numeric_part c \<longleftrightarrow> is_digit c \<or> c = CHR ''-'' \<or> c = CHR ''.''"

definition number_scalar :: "string \<Rightarrow> scalar option" where
  "number_scalar t =
     (let (whole, dot, frac) = partition_chr (CHR ''.'') t in
      if dot then (if frac = ''0'' then map_option ScFloat (py_int whole) else None)
      else map_option ScInt (py_int t))"

definition scan_scalar :: "string \<Rightarrow> (scalar \<times> string) option" where
  "scan_scalar t =
     (if starts_with t ''null'' then Some (ScNull, drop 4 t)
      else if starts_with t ''true'' then Some (ScBool True, drop 4 t)
      else if starts_with t ''false'' then Some (ScBool False, drop 5 t)
      else if starts_with t [CHR 0x22] then map_option (apfst ScStr) (scan_string (tl t))
      else map_option (\<lambda>v. (v, dropWhile numeric_part t)) (number_scalar (takeWhile numeric_part t)))"

fun scan_members :: "nat \<Rightarrow> string \<Rightarrow> payload option" where
  "scan_members 0 t = None"
| "scan_members (Suc n) t =
     (if \<not> starts_with t [CHR 0x22] then None
      else
        (case scan_string (tl t) of
           None \<Rightarrow> None
         | Some (k, r) \<Rightarrow>
             if \<not> starts_with r '':'' then None
             else
               (case scan_scalar (tl r) of
                  None \<Rightarrow> None
                | Some (v, r') \<Rightarrow>
                    if r' = ''}'' then Some [(k, v)]
                    else if starts_with r' '','' then map_option (Cons (k, v)) (scan_members n (tl r'))
                    else None)))"

definition json_loads :: "string \<Rightarrow> payload option" where
  "json_loads t = (if t = ''{}'' then Some []
     else if starts_with t ''{'' then map_option dict_of_pairs (scan_members (length t) (tl t)) else None)"


section \<open>Events\<close>

datatype source_system = Crm | Ops | Erp

definition system_name :: "source_system \<Rightarrow> string" where
  "system_name s = (case s of Crm \<Rightarrow> ''crm'' | Ops \<Rightarrow> ''ops'' | Erp \<Rightarrow> ''erp'')"

text \<open>The order of \<open>SOURCES\<close>.\<close>

definition system_index :: "source_system \<Rightarrow> nat" where
  "system_index s = (case s of Crm \<Rightarrow> 0 | Ops \<Rightarrow> 1 | Erp \<Rightarrow> 2)"

definition sources :: "source_system list" where "sources = [Crm, Ops, Erp]"

lemma system_index_inj: "system_index s = system_index t \<longleftrightarrow> s = t"
  by (cases s; cases t) (simp_all add: system_index_def)

instantiation source_system :: linorder
begin

definition "less_eq_source_system s t \<longleftrightarrow> system_index s \<le> system_index t"

definition "less_source_system s t \<longleftrightarrow> system_index s < system_index t"

instance
  by standard (auto simp: less_eq_source_system_def less_source_system_def system_index_inj)

end

record source_event =
  ev_id :: string
  ev_business_date :: date
  ev_system :: source_system
  ev_type :: string
  ev_entity :: string
  ev_payload :: payload
  ev_available_on :: date
  ev_anomaly :: "string option"

type_synonym digest = "string \<Rightarrow> nat list"

definition hexdigest :: "nat list \<Rightarrow> string" where
  "hexdigest bytes = concat (map (\<lambda>b. [hex_char (b div 16), hex_char (b mod 16)]) bytes)"

definition event_text :: "date \<Rightarrow> source_system \<Rightarrow> string \<Rightarrow> string \<Rightarrow> payload \<Rightarrow> string" where
  "event_text day sys ty entity p =
     isoformat day @ ''|'' @ system_name sys @ ''|'' @ ty @ ''|'' @ entity @ ''|'' @ json_dumps p"

text \<open>\<open>SourceEvent.create\<close>; no planner passes \<open>available_on\<close>.\<close>

definition create_event ::
  "digest \<Rightarrow> date \<Rightarrow> source_system \<Rightarrow> string \<Rightarrow> string \<Rightarrow> payload \<Rightarrow> date option \<Rightarrow> string option \<Rightarrow> source_event" where
  "create_event sha day sys ty entity p available anomaly =
     \<lparr>ev_id = hexdigest (sha (event_text day sys ty entity p)), ev_business_date = day, ev_system = sys,
      ev_type = ty, ev_entity = entity, ev_payload = p,
      ev_available_on = (case available of None \<Rightarrow> day | Some d \<Rightarrow> d), ev_anomaly = anomaly\<rparr>"

text \<open>\<open>payload[k]\<close>, \<open>payload.get(k)\<close>, \<open>int(v)\<close> and \<open>str(v)\<close> of a payload value.\<close>

definition payload_get :: "string \<Rightarrow> payload \<Rightarrow> scalar" where
  "payload_get k p = dict_get_or p k ScNull"

fun scalar_int :: "scalar \<Rightarrow> int option" where
  "scalar_int (ScBool b) = Some (if b then 1 else 0)"
| "scalar_int (ScInt i) = Some i"
| "scalar_int (ScFloat i) = Some i"
| "scalar_int (ScStr t) = py_int t"
| "scalar_int (ScDecimal c) = Some (if c < 0 then - (- c div 100) else c div 100)"
| "scalar_int ScNull = None"

fun scalar_str :: "scalar \<Rightarrow> string" where
  "scalar_str ScNull = ''None''"
| "scalar_str (ScBool b) = (if b then ''True'' else ''False'')"
| "scalar_str (ScInt i) = int_str i"
| "scalar_str (ScFloat i) = int_str i @ ''.0''"
| "scalar_str (ScStr t) = t"
| "scalar_str (ScDecimal c) = decimal_str c"

definition payload_int :: "string \<Rightarrow> source_event \<Rightarrow> int option" where
  "payload_int k e = Option.bind (map_of (ev_payload e) k) scalar_int"

fun scalar_truthy :: "scalar \<Rightarrow> bool" where
  "scalar_truthy ScNull = False"
| "scalar_truthy (ScBool b) = b"
| "scalar_truthy (ScInt i) = (i \<noteq> 0)"
| "scalar_truthy (ScFloat i) = (i \<noteq> 0)"
| "scalar_truthy (ScStr t) = (t \<noteq> [])"
| "scalar_truthy (ScDecimal c) = (c \<noteq> 0)"

section \<open>Round trips\<close>

lemma hex_val_char: "n < 16 \<Longrightarrow> hex_val (hex_char n) = n"
proof -
  assume n: "n < 16"
  show ?thesis
  proof (cases "n < 10")
    case True
    then show ?thesis by (simp add: hex_char_def hex_val_def digit_char_inverse)
  next
    case False
    then show ?thesis using n by (simp add: hex_char_def hex_val_def is_digit_def chr_between_def)
  qed
qed

lemma char_hex: "char_of (16 * hex_val (hex_char (of_char c div 16)) + hex_val (hex_char (of_char c mod 16))) = (c :: char)"
proof -
  define n :: nat where "n = of_char c"
  have n: "n < 256" unfolding n_def by (rule nat_of_char_less_256)
  have c: "c = char_of n" by (simp add: n_def)
  have "n div 16 < 16" "n mod 16 < 16" using n by presburger+
  then have "16 * hex_val (hex_char (n div 16)) + hex_val (hex_char (n mod 16)) = n"
    by (simp only: hex_val_char mult_div_mod_eq)
  then show ?thesis unfolding n_def [symmetric] by (simp only: c [symmetric])
qed

lemma scan_escape_char: "scan_string (escape_char c @ t) = map_option (apfst (Cons c)) (scan_string t)"
proof (cases "map_of short_escapes c")
  case None
  then have "c \<noteq> CHR 0x22" "c \<noteq> CHR 0x5C" by (auto simp: short_escapes_def)
  moreover have "simple_escape (CHR ''u'') = None" by (simp add: simple_escape_def short_escapes_def)
  ultimately show ?thesis by (simp add: escape_char_def None char_hex)
next
  case (Some e)
  have "\<forall>(c, e) \<in> set short_escapes. simple_escape e = Some c"
    by (simp add: simple_escape_def short_escapes_def)
  then have "simple_escape e = Some c" using map_of_SomeD [OF Some] by blast
  then show ?thesis by (simp add: escape_char_def Some)
qed

lemma scan_escaped: "scan_string (concat (map escape_char s) @ CHR 0x22 # t) = Some (s, t)"
  by (induction s) (simp_all add: scan_escape_char)

lemma scan_json_string: "scan_string (tl (json_string s @ t)) = Some (s, t)"
  by (simp add: json_string_def scan_escaped)

lemma numeric_nat_digits: "list_all numeric_part (nat_digits n)"
  using nat_digits_all [of n] by (auto simp: list_all_iff numeric_part_def)

lemma numeric_int_str: "list_all numeric_part (int_str i)"
  by (simp add: int_str_def numeric_nat_digits) (simp add: numeric_part_def)

lemma int_str_no_dot: "CHR ''.'' \<notin> set (int_str i)"
proof -
  have "CHR ''.'' \<notin> set (nat_digits n)" for n
    using nat_digits_all [of n] by (auto simp: list_all_iff is_digit_def chr_between_def)
  then show ?thesis by (simp add: int_str_def)
qed

lemma takeWhile_not_mem: "c \<notin> set t \<Longrightarrow> takeWhile (\<lambda>x. x \<noteq> c) t = t" "c \<notin> set t \<Longrightarrow> dropWhile (\<lambda>x. x \<noteq> c) t = []"
  by (induction t) auto

lemma partition_no_dot: "c \<notin> set t \<Longrightarrow> partition_chr c t = (t, False, [])"
  by (simp add: partition_chr_def takeWhile_not_mem)

lemma partition_dot: "c \<notin> set t \<Longrightarrow> partition_chr c (t @ c # u) = (t, True, u)"
  by (induction t) (auto simp: partition_chr_def Let_def)

lemma number_scalar_int: "number_scalar (int_str i) = Some (ScInt i)"
  by (simp add: number_scalar_def partition_no_dot int_str_no_dot)

lemma number_scalar_float: "number_scalar (int_str i @ ''.0'') = Some (ScFloat i)"
  by (simp add: number_scalar_def partition_dot int_str_no_dot)

lemma int_str_head: "\<exists>c r. int_str i = c # r \<and> numeric_part c"
  using numeric_int_str [of i] by (cases "int_str i") (auto simp: int_str_def split: if_splits)

fun stored_scalar :: "scalar \<Rightarrow> scalar" where
  "stored_scalar (ScDecimal c) = ScStr (decimal_str c)"
| "stored_scalar v = v"

definition stored_payload :: "payload \<Rightarrow> payload" where
  "stored_payload p = map (apsnd stored_scalar) (sort_key fst p)"

lemma scan_number:
  assumes "list_all numeric_part t" "t = c # u" "r \<noteq> [] \<longrightarrow> \<not> numeric_part (hd r)" "number_scalar t = Some v"
  shows "scan_scalar (t @ r) = Some (v, r)"
proof -
  have c: "numeric_part c" using assms(1,2) by simp
  then have "c \<noteq> CHR ''n''" "c \<noteq> CHR ''t''" "c \<noteq> CHR ''f''" "c \<noteq> CHR 0x22"
    by (auto simp: numeric_part_def is_digit_def chr_between_def)
  then have heads: "\<not> starts_with (t @ r) ''null''" "\<not> starts_with (t @ r) ''true''"
    "\<not> starts_with (t @ r) ''false''" "\<not> starts_with (t @ r) [CHR 0x22]"
    by (auto simp: starts_with_iff assms(2))
  have "takeWhile numeric_part (t @ r) = t" "dropWhile numeric_part (t @ r) = r"
    using assms(1,3) by (induction t) (cases r; auto)+
  then show ?thesis by (simp add: scan_scalar_def heads assms(4))
qed

lemma scan_json_scalar:
  assumes "r \<noteq> [] \<longrightarrow> \<not> numeric_part (hd r)"
  shows "scan_scalar (json_scalar v @ r) = Some (stored_scalar v, r)"
proof (cases v)
  case (ScInt i)
  obtain c u where "int_str i = c # u" using int_str_head by blast
  then show ?thesis using scan_number [OF numeric_int_str _ assms number_scalar_int] ScInt by simp
next
  case (ScFloat i)
  obtain c u where cu: "int_str i = c # u" using int_str_head by blast
  have "list_all numeric_part (int_str i @ ''.0'')"
    using numeric_int_str [of i] by (simp add: numeric_part_def is_digit_def chr_between_def)
  from scan_number [OF this _ assms number_scalar_float, of c "u @ ''.0''"] cu ScFloat show ?thesis by simp
next
  case (ScStr s)
  have "json_string s @ r = CHR 0x22 # tl (json_string s @ r)" by (simp add: json_string_def)
  then show ?thesis using scan_json_string [of s r] ScStr
    by (simp add: scan_scalar_def starts_with_def json_string_def)
next
  case (ScDecimal k)
  then show ?thesis using scan_json_string [of "decimal_str k" r]
    by (simp add: scan_scalar_def starts_with_def json_string_def)
qed (simp_all add: scan_scalar_def starts_with_def)

lemma scan_json_members:
  assumes "kvs \<noteq> []" "length kvs \<le> n"
  shows "scan_members n (join_with '','' (map json_member kvs) @ ''}'') = Some (map (apsnd stored_scalar) kvs)"
  using assms
proof (induction kvs arbitrary: n)
  case (Cons kv kvs)
  obtain k v m where kv: "kv = (k, v)" and n: "n = Suc m" using Cons.prems(2) by (cases kv; cases n) auto
  show ?case
  proof (cases kvs)
    case Nil
    have "scan_scalar (json_scalar v @ ''}'') = Some (stored_scalar v, ''}'')"
      by (rule scan_json_scalar) (simp add: numeric_part_def is_digit_def chr_between_def)
    then show ?thesis using scan_json_string [of k "'':'' @ json_scalar v @ ''}''"]
      by (simp add: Nil kv n json_member_def starts_with_def) (simp add: json_string_def)
  next
    case (Cons kv' rest)
    let ?t = "join_with '','' (map json_member kvs) @ ''}''"
    have "scan_scalar (json_scalar v @ '','' @ ?t) = Some (stored_scalar v, '','' @ ?t)"
      by (rule scan_json_scalar) (simp add: numeric_part_def is_digit_def chr_between_def)
    moreover have "scan_members m ?t = Some (map (apsnd stored_scalar) kvs)"
      using Cons.IH [of m] Cons.prems(2) n Cons by simp
    moreover have "join_with '','' (map json_member (kv # kvs)) @ ''}''
        = json_string k @ '':'' @ json_scalar v @ '','' @ ?t"
      using Cons by (simp add: kv json_member_def)
    ultimately show ?thesis using scan_json_string [of k "'':'' @ json_scalar v @ '','' @ ?t"]
      by (simp add: kv n starts_with_def del: join_with.simps) (simp add: json_string_def)
  qed
qed simp

lemma dict_update_append: "distinct (map fst (acc @ kvs)) \<Longrightarrow> dict_update acc kvs = acc @ kvs"
proof (induction kvs arbitrary: acc)
  case (Cons kv kvs)
  obtain k v where kv: "kv = (k, v)" by (cases kv)
  have "dict_set k v acc = acc @ [(k, v)]" if "k \<notin> set (map fst acc)" for acc :: "('a, 'b) dict"
    using that by (induction acc) auto
  then have "dict_set k v acc = acc @ [(k, v)]" using Cons.prems kv by auto
  then show ?case using Cons.IH [of "acc @ [(k, v)]"] Cons.prems kv by simp
qed simp

lemma json_round_trip:
  assumes "distinct (map fst p)"
  shows "json_loads (json_dumps p) = Some (stored_payload p)"
proof (cases "sort_key fst p = []")
  case True
  then show ?thesis by (simp add: json_loads_def json_dumps_def stored_payload_def)
next
  case False
  let ?s = "sort_key fst p"
  let ?t = "join_with '','' (map json_member ?s) @ ''}''"
  have d: "json_dumps p = CHR ''{'' # ?t" by (simp add: json_dumps_def)
  have len: "length kvs \<le> length (join_with '','' (map json_member kvs))" for kvs
  proof (induction kvs)
    case (Cons kv kvs)
    then show ?case by (cases kvs) (auto simp: json_member_def json_string_def)
  qed simp
  have "?t \<noteq> ''}''" using len [of ?s] False by (cases ?s) auto
  then have "json_loads (json_dumps p) = map_option dict_of_pairs (scan_members (length (json_dumps p)) ?t)"
    unfolding d by (simp add: json_loads_def starts_with_def)
  also have "scan_members (length (json_dumps p)) ?t = Some (map (apsnd stored_scalar) ?s)"
    by (rule scan_json_members [OF False]) (use len [of ?s] d in simp)
  finally have "json_loads (json_dumps p) = Some (dict_of_pairs (map (apsnd stored_scalar) ?s))" by simp
  moreover have "dict_of_pairs (map (apsnd stored_scalar) ?s) = map (apsnd stored_scalar) ?s"
    unfolding dict_of_pairs_def
  proof (subst dict_update_append)
    have "distinct (map fst ?s)" using assms by (simp add: distinct_map inj_on_def)
    then show "distinct (map fst ([] @ map (apsnd stored_scalar) ?s))" by (simp add: comp_def)
  qed simp
  ultimately show ?thesis by (simp add: stored_payload_def)
qed

lemma map_of_stored: "distinct (map fst p) \<Longrightarrow> map_of (stored_payload p) k = map_option stored_scalar (map_of p k)"
proof -
  assume d: "distinct (map fst p)"
  have "map_of (sort_key fst p) = map_of p"
    using d by (intro map_of_inject_set [THEN iffD2]) (auto simp: distinct_map inj_on_def)
  moreover have "map_of (map (apsnd f) kvs) k = map_option f (map_of kvs k)" for f :: "scalar \<Rightarrow> scalar" and kvs
    by (induction kvs) auto
  ultimately show ?thesis by (simp add: stored_payload_def)
qed

lemma decimal_round_trip: "decimal_of_str (decimal_str c) = Some c"
proof -
  have len: "\<bar>c\<bar> mod 100 < 100" "0 \<le> \<bar>c\<bar> mod 100" by simp_all
  define w where "w = nat (\<bar>c\<bar> div 100)"
  define f where "f = nat (\<bar>c\<bar> mod 100)"
  have wf: "int_str (\<bar>c\<bar> div 100) = nat_digits w" "\<bar>c\<bar> = int w * 100 + int f" "f < 10 ^ 2"
    using len by (simp_all add: int_str_def w_def f_def pos_imp_zdiv_nonneg_iff)
  have z: "zero_pad 2 (\<bar>c\<bar> mod 100) = zero_pad 2 (int f)" using len by (simp add: f_def)
  have pad: "length (zero_pad 2 (int f)) = 2" "list_all is_digit (zero_pad 2 (int f))" "digits_val (zero_pad 2 (int f)) = f"
    using zero_pad_nat [of f 2] wf(3) by (simp_all add: is_decimal_def)
  have "CHR ''.'' \<notin> set (nat_digits w)" using int_str_no_dot [of "int w"] by (simp add: int_str_def)
  then have "partition_chr (CHR ''.'') (nat_digits w @ CHR ''.'' # zero_pad 2 (int f)) = (nat_digits w, True, zero_pad 2 (int f))"
    by (rule partition_dot)
  moreover have "\<not> starts_with (nat_digits w @ u) ''-''" for u
    using nat_digits_all [of w] by (cases "nat_digits w") (auto simp: starts_with_def is_digit_def chr_between_def)
  moreover have "decimal_str c = (if c < 0 then ''-'' else '''') @ nat_digits w @ ''.'' @ zero_pad 2 (int f)"
    by (simp only: decimal_str_def wf(1) z)
  moreover have "starts_with (''-'' @ u) ''-''" for u by (simp only: starts_with_append)
  ultimately show ?thesis
    using wf(2) pad by (auto simp: decimal_of_str_def Let_def)
qed

section \<open>Identity\<close>

lemma hex_char_inj: "m < 16 \<Longrightarrow> n < 16 \<Longrightarrow> hex_char m = hex_char n \<longleftrightarrow> m = n"
  using hex_val_char by metis

lemma hexdigest_inj:
  assumes "\<forall>b \<in> set xs. b < 256" "\<forall>b \<in> set ys. b < 256" "hexdigest xs = hexdigest ys"
  shows "xs = ys"
  using assms
proof (induction xs arbitrary: ys)
  case Nil
  then show ?case by (cases ys) (auto simp: hexdigest_def)
next
  case (Cons x xs)
  then obtain y ys' where ys: "ys = y # ys'" by (cases ys) (auto simp: hexdigest_def)
  have "x div 16 = y div 16" "x mod 16 = y mod 16" "hexdigest xs = hexdigest ys'"
    using Cons.prems by (auto simp: ys hexdigest_def hex_char_inj)
  then have "x = y" by (metis div_mult_mod_eq)
  then show ?case using Cons.IH [of ys'] Cons.prems \<open>hexdigest xs = hexdigest ys'\<close> by (simp add: ys)
qed

lemma append_sep_inj:
  fixes c :: char
  assumes "c \<notin> set a" "c \<notin> set b" "a @ c # u = b @ c # v"
  shows "a = b \<and> u = v"
proof -
  have "partition_chr c (a @ c # u) = (a, True, u)" "partition_chr c (b @ c # v) = (b, True, v)"
    using assms(1,2) by (simp_all add: partition_dot)
  then have "(a, True, u) = (b, True, v)" unfolding assms(3) by metis
  then show ?thesis by simp
qed

lemma no_bar_isoformat: "CHR ''|'' \<notin> set (isoformat d)"
proof -
  have "CHR ''|'' \<notin> set (nat_digits n)" for n
  proof
    assume "CHR ''|'' \<in> set (nat_digits n)"
    then have "is_digit (CHR ''|'')" using nat_digits_all [of n] by (simp add: list_all_iff)
    then show False by (simp add: is_digit_def chr_between_def)
  qed
  then have "CHR ''|'' \<notin> set (zero_pad w i)" for w i by (simp add: zero_pad_def)
  then show ?thesis by (simp add: isoformat_def split: prod.splits)
qed

lemma system_name_facts: "CHR ''|'' \<notin> set (system_name s)" "system_name s = system_name t \<longleftrightarrow> s = t"
  by (cases s; simp add: system_name_def) (cases s; cases t; simp add: system_name_def)

lemma event_text_inj:
  assumes "event_text d s t e p = event_text d' s' t' e' p'"
    and "CHR ''|'' \<notin> set t \<union> set t' \<union> set e \<union> set e'"
  shows "isoformat d = isoformat d' \<and> s = s' \<and> t = t' \<and> e = e' \<and> json_dumps p = json_dumps p'"
proof -
  let ?p = "t @ CHR ''|'' # e @ CHR ''|'' # json_dumps p"
  let ?p' = "t' @ CHR ''|'' # e' @ CHR ''|'' # json_dumps p'"
  have "isoformat d @ CHR ''|'' # system_name s @ CHR ''|'' # ?p
      = isoformat d' @ CHR ''|'' # system_name s' @ CHR ''|'' # ?p'"
    using assms(1) by (simp add: event_text_def)
  from append_sep_inj [OF no_bar_isoformat no_bar_isoformat this]
  have a: "isoformat d = isoformat d'" "system_name s @ CHR ''|'' # ?p = system_name s' @ CHR ''|'' # ?p'" by simp_all
  from append_sep_inj [OF system_name_facts(1) system_name_facts(1) a(2)]
  have b: "s = s'" "?p = ?p'" by (simp_all add: system_name_facts(2))
  have "CHR ''|'' \<notin> set t" "CHR ''|'' \<notin> set t'" using assms(2) by simp_all
  from append_sep_inj [OF this b(2)]
  have c: "t = t'" "e @ CHR ''|'' # json_dumps p = e' @ CHR ''|'' # json_dumps p'" by simp_all
  have "CHR ''|'' \<notin> set e" "CHR ''|'' \<notin> set e'" using assms(2) by simp_all
  from append_sep_inj [OF this c(2)] have "e = e' \<and> json_dumps p = json_dumps p'" .
  with a b c show ?thesis by simp
qed

lemma event_id_inj:
  assumes "\<And>t u. sha t = sha u \<Longrightarrow> t = u" "\<And>t. \<forall>b \<in> set (sha t). b < 256"
    and "ev_id (create_event sha d s t e p av an) = ev_id (create_event sha d' s' t' e' p' av' an')"
    and "CHR ''|'' \<notin> set t \<union> set t' \<union> set e \<union> set e'"
  shows "isoformat d = isoformat d' \<and> s = s' \<and> t = t' \<and> e = e' \<and> json_dumps p = json_dumps p'"
proof -
  have "hexdigest (sha (event_text d s t e p)) = hexdigest (sha (event_text d' s' t' e' p'))"
    using assms(3) by (simp add: create_event_def)
  then have "event_text d s t e p = event_text d' s' t' e' p'"
    using hexdigest_inj [OF assms(2) assms(2)] assms(1) by blast
  then show ?thesis using assms(4) by (rule event_text_inj)
qed

lemma json_dumps_stored: "json_dumps (stored_payload p) = json_dumps p"
proof -
  have "sort_key fst (map (apsnd stored_scalar) (sort_key fst p)) = map (apsnd stored_scalar) (sort_key fst p)"
    by (rule sort_key_id_if_sorted) (simp add: comp_def)
  moreover have "json_scalar (stored_scalar v) = json_scalar v" for v by (cases v) simp_all
  then have "json_member (apsnd stored_scalar kv) = json_member kv" for kv by (simp add: json_member_def)
  ultimately show ?thesis by (simp add: json_dumps_def stored_payload_def comp_def)
qed

end
