(* ===== verification/SimPolicy.thy ===== *)
theory SimPolicy
  imports SimEvents
begin

text \<open>
  The simulator's timing contract (\<open>simulator/policy.py\<close>) and the errors of the simulator.
  Floating point rates are exact rationals; \<open>py_round\<close> is Python's \<open>round\<close> to the even
  neighbour. The field \<open>run_at\<close>, which nothing reads, is left out.
\<close>

datatype sim_error =
  StateErr string | ValueErr string | DeltaErr string | RuntimeErr string
| ReconcileErr "string list" | ConstraintErr string | Uncaught string

section \<open>The policy\<close>

record day_window =
  dw_minimum :: int
  dw_maximum :: int

definition make_window :: "int \<Rightarrow> int \<Rightarrow> sim_error + day_window" where
  "make_window a b =
     (if a < 0 \<or> b < a then Err (ValueErr ''day windows must be non-negative and ordered'')
      else Ok \<lparr>dw_minimum = a, dw_maximum = b\<rparr>)"

record anomaly_rates =
  ar_stalled_opportunity :: rat
  ar_delayed_crm_to_ops :: rat
  ar_stalled_shipment :: rat
  ar_delayed_erp_posting :: rat

definition make_rates :: "rat \<Rightarrow> rat \<Rightarrow> rat \<Rightarrow> rat \<Rightarrow> sim_error + anomaly_rates" where
  "make_rates a b c d =
     (if list_all (\<lambda>v. 0 \<le> v \<and> v \<le> 1 / 20) [a, b, c, d] then
        Ok \<lparr>ar_stalled_opportunity = a, ar_delayed_crm_to_ops = b, ar_stalled_shipment = c, ar_delayed_erp_posting = d\<rparr>
      else Err (ValueErr ''anomaly rates must be between 0 and 0.05''))"

record simulation_policy =
  sp_timezone :: string
  sp_growth :: rat
  sp_crm_to_ops :: day_window
  sp_order_to_shipment :: day_window
  sp_shipment_to_delivery :: day_window
  sp_shipment_to_invoice :: day_window
  sp_invoice_to_erp :: day_window
  sp_breach_days :: int
  sp_anomalies :: anomaly_rates

definition check_policy :: "simulation_policy \<Rightarrow> sim_error + simulation_policy" where
  "check_policy p =
     (if \<not> (0 < sp_growth p \<and> sp_growth p \<le> 1) then Err (ValueErr ''annual growth rate must be between 0 and 1'')
      else if sp_breach_days p < 1 then Err (ValueErr ''weekly SLA breach duration must be positive'')
      else Ok p)"

definition default_policy :: simulation_policy where
  "default_policy =
     \<lparr>sp_timezone = ''America/Los_Angeles'', sp_growth = 8 / 100,
      sp_crm_to_ops = \<lparr>dw_minimum = 1, dw_maximum = 3\<rparr>, sp_order_to_shipment = \<lparr>dw_minimum = 1, dw_maximum = 5\<rparr>,
      sp_shipment_to_delivery = \<lparr>dw_minimum = 1, dw_maximum = 5\<rparr>,
      sp_shipment_to_invoice = \<lparr>dw_minimum = 0, dw_maximum = 3\<rparr>, sp_invoice_to_erp = \<lparr>dw_minimum = 1, dw_maximum = 2\<rparr>,
      sp_breach_days = 1,
      sp_anomalies = \<lparr>ar_stalled_opportunity = 6 / 1000, ar_delayed_crm_to_ops = 4 / 1000,
        ar_stalled_shipment = 8 / 1000, ar_delayed_erp_posting = 4 / 1000\<rparr>\<rparr>"

section \<open>Volumes\<close>

definition py_round :: "rat \<Rightarrow> int" where
  "py_round r =
     (let f = \<lfloor>r\<rfloor>; d = r - of_int f in
      if d < 1 / 2 then f else if d > 1 / 2 then f + 1 else if even f then f else f + 1)"

definition proportional_daily_volume :: "simulation_policy \<Rightarrow> int \<Rightarrow> sim_error + int" where
  "proportional_daily_volume p population =
     (if population < 0 then Err (ValueErr ''current population cannot be negative'')
      else Ok (max 1 (py_round (of_int population * sp_growth p / 365))))"

section \<open>The weekly breach\<close>

definition breach_text :: "int \<Rightarrow> date \<Rightarrow> string" where
  "breach_text seed day =
     (case isocalendar day of (y, w, _) \<Rightarrow> int_str seed @ '':'' @ int_str y @ '':'' @ int_str w)"

definition selected_weekday :: "digest \<Rightarrow> int \<Rightarrow> date \<Rightarrow> int" where
  "selected_weekday sha seed day = int (hd (sha (breach_text seed day))) mod 7 + 1"

definition is_weekly_sla_breach_date :: "digest \<Rightarrow> date \<Rightarrow> int \<Rightarrow> bool" where
  "is_weekly_sla_breach_date sha day seed \<longleftrightarrow> isoweekday day = selected_weekday sha seed day"

section \<open>Drawn delays\<close>

text \<open>
  How the planners draw a delay: the first digest byte selects a day of the window, the second
  one decides on an anomaly.
\<close>

definition drawn_delay :: "day_window \<Rightarrow> nat list \<Rightarrow> int" where
  "drawn_delay w bytes = dw_minimum w + int (bytes ! 0) mod (dw_maximum w - dw_minimum w + 1)"

definition drawn_anomaly :: "rat \<Rightarrow> nat list \<Rightarrow> bool" where
  "drawn_anomaly rate bytes \<longleftrightarrow> of_nat (bytes ! 1) / 255 < rate"

section \<open>Lemmas\<close>

lemma py_round_near: "\<bar>of_int (py_round r) - r\<bar> \<le> 1 / 2"
proof -
  have "of_int \<lfloor>r\<rfloor> \<le> r" "r < of_int \<lfloor>r\<rfloor> + 1" by linarith+
  then show ?thesis by (auto simp: py_round_def Let_def)
qed

lemma drawn_delay_bounds:
  assumes "dw_minimum w \<le> dw_maximum w"
  shows "dw_minimum w \<le> drawn_delay w bytes \<and> drawn_delay w bytes \<le> dw_maximum w"
proof -
  have "0 < dw_maximum w - dw_minimum w + 1" using assms by simp
  then have "0 \<le> int (bytes ! 0) mod (dw_maximum w - dw_minimum w + 1)"
    "int (bytes ! 0) mod (dw_maximum w - dw_minimum w + 1) < dw_maximum w - dw_minimum w + 1"
    by (rule pos_mod_sign, rule pos_mod_bound)
  then show ?thesis unfolding drawn_delay_def by linarith
qed

lemma breach_text_week:
  assumes "iso_thursday d = iso_thursday d'"
  shows "breach_text seed d = breach_text seed d'"
  using assms by (simp add: breach_text_def isocalendar_def Let_def)

lemma week_monday: "(d - isoweekday d + 1 - 1) mod 7 = 0"
  unfolding isoweekday_def by presburger

text \<open>The week of a day: seven days from its Monday, all with the same ISO year and week.\<close>

lemma week_days:
  assumes "m = d - isoweekday d + 1" "0 \<le> k" "k < 7"
  shows "isoweekday (m + k) = k + 1" "iso_thursday (m + k) = iso_thursday d"
proof -
  have m: "(m - 1) mod 7 = 0" using week_monday [of d] assms(1) by simp
  show "isoweekday (m + k) = k + 1" using iso_thursday_monday [OF m assms(2,3)] by simp
  have "iso_thursday (m + (isoweekday d - 1)) = m + 3"
    by (rule iso_thursday_monday(1) [OF m]) (use isoweekday_bounds [of d] in simp_all)
  then show "iso_thursday (m + k) = iso_thursday d"
    using iso_thursday_monday [OF m assms(2,3)] assms(1) by simp
qed

text \<open>C39:
  Every ISO week has exactly one SLA breach date: of the seven days of the week any day lies in,
  which all share its ISO year and week number, exactly one is selected for a seed.
\<close>

theorem one_breach_date_per_week:
  "\<exists>!k. 0 \<le> k \<and> k < 7 \<and> fst (isocalendar (d - isoweekday d + 1 + k)) = fst (isocalendar d)
     \<and> fst (snd (isocalendar (d - isoweekday d + 1 + k))) = fst (snd (isocalendar d))
     \<and> is_weekly_sla_breach_date sha (d - isoweekday d + 1 + k) seed"
proof -
  let ?m = "d - isoweekday d + 1"
  let ?s = "selected_weekday sha seed d"
  have s: "1 \<le> ?s" "?s \<le> 7" by (simp_all add: selected_weekday_def)
  have day: "is_weekly_sla_breach_date sha (?m + k) seed \<longleftrightarrow> k + 1 = ?s" if "0 \<le> k" "k < 7" for k
    using week_days [OF refl that, of d] breach_text_week [of "?m + k" d seed]
    by (simp add: is_weekly_sla_breach_date_def selected_weekday_def)
  have week: "fst (isocalendar (?m + k)) = fst (isocalendar d)
      \<and> fst (snd (isocalendar (?m + k))) = fst (snd (isocalendar d))" if "0 \<le> k" "k < 7" for k
    using week_days(2) [OF refl that, of d] by (simp add: isocalendar_def Let_def)
  show ?thesis
  proof (rule ex1I [of _ "?s - 1"])
    show "0 \<le> ?s - 1 \<and> ?s - 1 < 7 \<and> fst (isocalendar (?m + (?s - 1))) = fst (isocalendar d)
        \<and> fst (snd (isocalendar (?m + (?s - 1)))) = fst (snd (isocalendar d))
        \<and> is_weekly_sla_breach_date sha (?m + (?s - 1)) seed"
      using s day [of "?s - 1"] week [of "?s - 1"] by simp
  next
    fix k
    assume "0 \<le> k \<and> k < 7 \<and> fst (isocalendar (?m + k)) = fst (isocalendar d)
        \<and> fst (snd (isocalendar (?m + k))) = fst (snd (isocalendar d))
        \<and> is_weekly_sla_breach_date sha (?m + k) seed"
    then show "k = ?s - 1" using day [of k] by simp
  qed
qed

end
