(* ===== verification/SimState.thy ===== *)
theory SimState
  imports SimPolicy
begin

text \<open>
  The control database of the simulator (\<open>simulator/state.py\<close>): four tables, each a list of rows.
  DuckDB commits every statement on its own, so a method is its checks followed by the statements
  it runs one by one; \<open>run_stmts\<close> of a prefix of them is what an interrupted method leaves. Dates
  of the metadata table are ISO texts, the clock is the argument \<open>now\<close>.
\<close>

section \<open>Tables\<close>

datatype run_state = RunInProgress | RunCompleted

definition run_state_text :: "run_state \<Rightarrow> string" where
  "run_state_text s = (case s of RunInProgress \<Rightarrow> ''in_progress'' | RunCompleted \<Rightarrow> ''completed'')"

datatype source_state = SrcPending | SrcApplied

definition source_state_text :: "source_state \<Rightarrow> string" where
  "source_state_text s = (case s of SrcPending \<Rightarrow> ''pending'' | SrcApplied \<Rightarrow> ''applied'')"

record sim_run =
  sr_date :: date
  sr_state :: run_state
  sr_breach :: bool
  sr_started :: int
  sr_completed :: "int option"
  sr_failure :: "string option"

record source_run =
  so_date :: date
  so_system :: source_system
  so_state :: source_state
  so_generated :: int
  so_applied :: int
  so_applied_at :: "int option"

record event_row =
  er_id :: string
  er_business_date :: date
  er_system :: source_system
  er_type :: string
  er_entity :: string
  er_payload_json :: string
  er_available_on :: date
  er_anomaly :: "string option"

record sim_store =
  ss_metadata :: "(string \<times> string) list"
  ss_runs :: "sim_run list"
  ss_sources :: "source_run list"
  ss_events :: "event_row list"

definition empty_sim :: sim_store where
  "empty_sim = \<lparr>ss_metadata = [], ss_runs = [], ss_sources = [], ss_events = []\<rparr>"

type_synonym 'a sim_op = "(sim_store, sim_error, 'a) eff"

section \<open>Statements\<close>

datatype sim_stmt =
  InsertMetadata string string
| SetMetadata string string
| InsertRun date bool int
| InsertSource date source_system
| ReopenRun date
| MarkApplied date source_system int int int
| FinishRun date int
| InsertEvent event_row

definition insert_unique :: "('r \<Rightarrow> 'k) \<Rightarrow> 'r \<Rightarrow> 'r list \<Rightarrow> sim_error + 'r list" where
  "insert_unique key r tbl =
     (if key r \<in> key ` set tbl then Err (ConstraintErr ''primary key'') else Ok (tbl @ [r]))"

definition source_key :: "source_run \<Rightarrow> date \<times> source_system" where
  "source_key r = (so_date r, so_system r)"

definition stmt_effect :: "sim_stmt \<Rightarrow> sim_store \<Rightarrow> sim_error + sim_store" where
  "stmt_effect st s =
     (case st of
        InsertMetadata k v \<Rightarrow> rbind (insert_unique fst (k, v) (ss_metadata s)) (\<lambda>t. Ok (s\<lparr>ss_metadata := t\<rparr>))
      | SetMetadata k v \<Rightarrow>
          Ok (s\<lparr>ss_metadata := map (\<lambda>kv. if fst kv = k then (k, v) else kv) (ss_metadata s)\<rparr>)
      | InsertRun d breach now \<Rightarrow>
          rbind (insert_unique sr_date \<lparr>sr_date = d, sr_state = RunInProgress, sr_breach = breach, sr_started = now,
              sr_completed = None, sr_failure = None\<rparr> (ss_runs s)) (\<lambda>t. Ok (s\<lparr>ss_runs := t\<rparr>))
      | InsertSource d src \<Rightarrow>
          rbind (insert_unique source_key \<lparr>so_date = d, so_system = src, so_state = SrcPending, so_generated = 0,
              so_applied = 0, so_applied_at = None\<rparr> (ss_sources s)) (\<lambda>t. Ok (s\<lparr>ss_sources := t\<rparr>))
      | ReopenRun d \<Rightarrow>
          Ok (s\<lparr>ss_runs := map (\<lambda>r. if sr_date r = d then r\<lparr>sr_state := RunInProgress, sr_failure := None\<rparr> else r) (ss_runs s)\<rparr>)
      | MarkApplied d src generated applied now \<Rightarrow>
          Ok (s\<lparr>ss_sources := map (\<lambda>r. if source_key r = (d, src)
              then r\<lparr>so_state := SrcApplied, so_generated := generated, so_applied := applied, so_applied_at := Some now\<rparr>
              else r) (ss_sources s)\<rparr>)
      | FinishRun d now \<Rightarrow>
          Ok (s\<lparr>ss_runs := map (\<lambda>r. if sr_date r = d then r\<lparr>sr_state := RunCompleted, sr_completed := Some now\<rparr> else r) (ss_runs s)\<rparr>)
      | InsertEvent r \<Rightarrow> Ok (s\<lparr>ss_events := insert_or_ignore er_id r (ss_events s)\<rparr>))"

definition exec_stmt :: "sim_stmt \<Rightarrow> unit sim_op" where
  "exec_stmt st s = (case stmt_effect st s of Err e \<Rightarrow> (Err e, s) | Ok t \<Rightarrow> (Ok (), t))"

definition run_stmts :: "sim_stmt list \<Rightarrow> unit sim_op" where
  "run_stmts sts = efor sts exec_stmt"

section \<open>Metadata\<close>

definition baseline_key :: string where "baseline_key = ''baseline_completed_date''"

definition last_completed_key :: string where "last_completed_key = ''last_completed_date''"

text \<open>The statements \<open>initialize\<close> runs after creating the tables, then its last check.\<close>

definition initialize_stmts :: "date \<Rightarrow> sim_store \<Rightarrow> sim_stmt list" where
  "initialize_stmts base s =
     (if map_of (ss_metadata s) last_completed_key = None then [InsertMetadata last_completed_key (isoformat base)] else [])
     @ (if map_of (ss_metadata s) baseline_key = None then [InsertMetadata baseline_key (isoformat base)] else [])"

definition initialize :: "date \<Rightarrow> unit sim_op" where
  "initialize base =
     ebind (eget (\<lambda>s. (map_of (ss_metadata s) baseline_key, initialize_stmts base s))) (\<lambda>(found, sts).
     ebind (run_stmts sts) (\<lambda>_.
     case found of
       None \<Rightarrow> eret ()
     | Some t \<Rightarrow>
         if t \<noteq> isoformat base then eraise (StateErr ''simulation state already belongs to a different baseline date'')
         else eret ()))"

definition metadata_date :: "string \<Rightarrow> sim_error \<Rightarrow> sim_store \<Rightarrow> sim_error + date" where
  "metadata_date k missing s =
     (case map_of (ss_metadata s) k of
        None \<Rightarrow> Err missing
      | Some t \<Rightarrow> of_opt (Uncaught ''ValueError'') (fromisoformat t))"

definition not_initialized :: sim_error where
  "not_initialized = StateErr ''simulation state has not been initialized''"

definition baseline_completed_date :: "sim_store \<Rightarrow> sim_error + date" where
  "baseline_completed_date = metadata_date baseline_key not_initialized"

definition last_completed_date :: "sim_store \<Rightarrow> sim_error + date" where
  "last_completed_date = metadata_date last_completed_key not_initialized"

text \<open>Inside a method a missing watermark is \<open>None[0]\<close>.\<close>

definition watermark :: "sim_store \<Rightarrow> sim_error + date" where
  "watermark = metadata_date last_completed_key (Uncaught ''TypeError'')"

definition due_dates :: "date \<Rightarrow> sim_store \<Rightarrow> sim_error + date list" where
  "due_dates through s =
     rbind (last_completed_date s) (\<lambda>current. Ok (if through \<le> current then [] else [current + 1 .. through]))"

section \<open>Runs\<close>

definition find_run :: "date \<Rightarrow> sim_store \<Rightarrow> sim_run option" where
  "find_run d s = lookup_by sr_date d (ss_runs s)"

definition find_source :: "date \<Rightarrow> source_system \<Rightarrow> sim_store \<Rightarrow> source_run option" where
  "find_source d src s = lookup_by source_key (d, src) (ss_sources s)"

definition claim_stmts ::
  "digest \<Rightarrow> date \<Rightarrow> int \<Rightarrow> int \<Rightarrow> sim_store \<Rightarrow> sim_error + sim_stmt list" where
  "claim_stmts sha d seed now s =
     rbind (watermark s) (\<lambda>last.
     if d > last + 1 then Err (StateErr ''simulation dates must be claimed in order'')
     else
       (case find_run d s of
          None \<Rightarrow> Ok (InsertRun d (is_weekly_sla_breach_date sha d seed) now # map (InsertSource d) sources)
        | Some r \<Rightarrow> if sr_state r = RunCompleted then Ok [] else Ok [ReopenRun d]))"

definition claim_run :: "digest \<Rightarrow> date \<Rightarrow> int \<Rightarrow> int \<Rightarrow> bool sim_op" where
  "claim_run sha d seed now =
     ebind (eget (claim_stmts sha d seed now)) (\<lambda>r.
     ebind (elift r) (\<lambda>sts.
     ebind (run_stmts sts) (\<lambda>_. eret (sts \<noteq> []))))"

definition mark_checks :: "date \<Rightarrow> source_system \<Rightarrow> int \<Rightarrow> int \<Rightarrow> sim_store \<Rightarrow> sim_error + unit" where
  "mark_checks d src generated applied s =
     (if generated < 0 \<or> applied < 0 then Err (ValueErr ''record counts cannot be negative'')
      else if find_source d src s = None then Err (StateErr ''source run has not been claimed'')
      else if \<exists>r \<in> set (ss_sources s). so_date r = d \<and> so_system r < src \<and> so_state r \<noteq> SrcApplied
      then Err (StateErr ''source systems must apply in CRM, Ops, ERP order'')
      else Ok ())"

definition mark_source_applied :: "date \<Rightarrow> source_system \<Rightarrow> int \<Rightarrow> int \<Rightarrow> int \<Rightarrow> unit sim_op" where
  "mark_source_applied d src generated applied now =
     ebind (eget (mark_checks d src generated applied)) (\<lambda>r.
     ebind (elift r) (\<lambda>_. run_stmts [MarkApplied d src generated applied now]))"

definition complete_stmts :: "date \<Rightarrow> int \<Rightarrow> sim_store \<Rightarrow> sim_error + sim_stmt list" where
  "complete_stmts d now s =
     rbind (watermark s) (\<lambda>last.
     if d \<noteq> last + 1 then Err (StateErr ''simulation dates must complete in order'')
     else if \<exists>r \<in> set (ss_sources s). so_date r = d \<and> so_state r \<noteq> SrcApplied
     then Err (StateErr ''all source systems must apply before completion'')
     else Ok [FinishRun d now, SetMetadata last_completed_key (isoformat d)])"

definition complete_run :: "date \<Rightarrow> int \<Rightarrow> unit sim_op" where
  "complete_run d now =
     ebind (eget (complete_stmts d now)) (\<lambda>r. ebind (elift r) run_stmts)"

definition source_run_state :: "date \<Rightarrow> source_system \<Rightarrow> sim_store \<Rightarrow> sim_error + source_state" where
  "source_run_state d src s =
     (case find_source d src s of
        None \<Rightarrow> Err (StateErr ''source run has not been claimed'')
      | Some r \<Rightarrow> Ok (so_state r))"

record incomplete_run =
  ir_date :: string
  ir_state :: string
  ir_failure :: "string option"

record status_snapshot =
  st_baseline :: string
  st_last :: string
  st_counts :: "(string \<times> nat) list"
  st_incomplete :: "incomplete_run option"

definition status_of :: "sim_store \<Rightarrow> sim_error + status_snapshot" where
  "status_of s =
     (let states = map (run_state_text \<circ> sr_state) (ss_runs s);
          current = first_opt (sort_key sr_date (filter (\<lambda>r. sr_state r \<noteq> RunCompleted) (ss_runs s))) in
      rbind (baseline_completed_date s) (\<lambda>base.
      rbind (last_completed_date s) (\<lambda>last.
      Ok \<lparr>st_baseline = isoformat base, st_last = isoformat last,
          st_counts = map (\<lambda>t. (t, count_list states t)) (sorted_set states),
          st_incomplete = map_option (\<lambda>r. \<lparr>ir_date = isoformat (sr_date r), ir_state = run_state_text (sr_state r),
            ir_failure = sr_failure r\<rparr>) current\<rparr>)))"

section \<open>Events\<close>

definition row_of_event :: "source_event \<Rightarrow> event_row" where
  "row_of_event e =
     \<lparr>er_id = ev_id e, er_business_date = ev_business_date e, er_system = ev_system e, er_type = ev_type e,
      er_entity = ev_entity e, er_payload_json = json_dumps (ev_payload e), er_available_on = ev_available_on e,
      er_anomaly = ev_anomaly e\<rparr>"

definition event_of_row :: "event_row \<Rightarrow> sim_error + source_event" where
  "event_of_row r =
     (case json_loads (er_payload_json r) of
        None \<Rightarrow> Err (Uncaught ''JSONDecodeError'')
      | Some p \<Rightarrow> Ok \<lparr>ev_id = er_id r, ev_business_date = er_business_date r, ev_system = er_system r, ev_type = er_type r,
          ev_entity = er_entity r, ev_payload = p, ev_available_on = er_available_on r, ev_anomaly = er_anomaly r\<rparr>)"

definition record_event :: "source_event \<Rightarrow> unit sim_op" where
  "record_event e =
     ebind (eget (find_source (ev_business_date e) (ev_system e))) (\<lambda>claimed.
     if claimed = None then eraise (StateErr ''events may be recorded only for a claimed source run'')
     else exec_stmt (InsertEvent (row_of_event e)))"

definition record_events :: "source_event list \<Rightarrow> unit sim_op" where
  "record_events es = efor es record_event"

definition event_count :: "date \<Rightarrow> source_system \<Rightarrow> sim_store \<Rightarrow> nat" where
  "event_count d src s = length (filter (\<lambda>r. er_business_date r = d \<and> er_system r = src) (ss_events s))"

definition events_through :: "date \<Rightarrow> source_system \<Rightarrow> bool \<Rightarrow> sim_store \<Rightarrow> sim_error + source_event list" where
  "events_through d src exact_date s =
     rmap event_of_row (sort_key er_id
       (filter (\<lambda>r. (if exact_date then er_business_date r = d else er_business_date r \<le> d) \<and> er_system r = src)
         (ss_events s)))"

definition events_for :: "date \<Rightarrow> source_system \<Rightarrow> sim_store \<Rightarrow> sim_error + source_event list" where
  "events_for d src = events_through d src True"

end
