(* ===== verification/SimStateProps.thy ===== *)
theory SimStateProps
  imports SimState
begin

text \<open>
  The control database implements a day clock: a completed day and how far the three systems have
  applied the next one. Every method of the store is a step of the clock or leaves it alone, so a
  date is passed only after CRM, Ops and ERP have applied it, in this order. Claiming is not one
  transaction, and completion does not ask for a claim: the last section shows what follows.
\<close>

section \<open>The abstract clock\<close>

datatype day_phase = Unclaimed | Applying nat

record day_clock =
  dc_day :: date
  dc_phase :: day_phase

inductive clock_step :: "day_clock \<Rightarrow> day_clock \<Rightarrow> bool" where
  idle: "clock_step c c"
| claim: "dc_phase c = Unclaimed \<Longrightarrow> clock_step c (c\<lparr>dc_phase := Applying 0\<rparr>)"
| apply_next: "dc_phase c = Applying n \<Longrightarrow> n < 3 \<Longrightarrow> clock_step c (c\<lparr>dc_phase := Applying (Suc n)\<rparr>)"
| complete: "dc_phase c = Applying 3 \<Longrightarrow> clock_step c \<lparr>dc_day = dc_day c + 1, dc_phase = Unclaimed\<rparr>"

inductive_cases clock_stepE: "clock_step c c'"
inductive_simps clock_step_done: "clock_step \<lparr>dc_day = d, dc_phase = Applying 3\<rparr> c'"

definition source_at :: "sim_store \<Rightarrow> date \<Rightarrow> source_system \<Rightarrow> source_state option" where
  "source_at s d src = map_option so_state (find_source d src s)"

definition phase_at :: "sim_store \<Rightarrow> date \<Rightarrow> day_phase" where
  "phase_at s d =
     (if source_at s d Crm = None then Unclaimed
      else Applying (length (filter (\<lambda>src. source_at s d src = Some SrcApplied) sources)))"

definition day_of :: "sim_store \<Rightarrow> date" where
  "day_of s = (case watermark s of Ok w \<Rightarrow> w | Err e \<Rightarrow> 0)"

definition clock_of :: "sim_store \<Rightarrow> day_clock" where
  "clock_of s = \<lparr>dc_day = day_of s, dc_phase = phase_at s (day_of s + 1)\<rparr>"

section \<open>The invariant\<close>

definition valid_date :: "date \<Rightarrow> bool" where
  "valid_date d \<longleftrightarrow> 1 \<le> d \<and> d \<le> max_ordinal"

definition sim_wf :: "sim_store \<Rightarrow> bool" where
  "sim_wf s \<longleftrightarrow> watermark s = Ok (day_of s) \<and> valid_date (day_of s)
     \<and> distinct (map sr_date (ss_runs s)) \<and> distinct (map source_key (ss_sources s))
     \<and> (\<forall>r \<in> set (ss_runs s). sr_date r \<le> day_of s + 1)
     \<and> (\<forall>d src. source_at s d src = None \<longleftrightarrow> find_run d s = None)
     \<and> (\<forall>d src src'. source_at s d src = Some SrcApplied \<and> src' < src \<longrightarrow> source_at s d src' = Some SrcApplied)"

lemma source_system_order: "Crm < Ops" "Crm < Erp" "Ops < Erp" "\<not> (src :: source_system) < Crm"
  by (simp_all add: less_source_system_def system_index_def split: source_system.splits)

lemma phase_cases:
  assumes "sim_wf s" "source_at s d Crm \<noteq> None"
  shows "phase_at s d = Applying (if source_at s d Crm \<noteq> Some SrcApplied then 0 else if source_at s d Ops \<noteq> Some SrcApplied then 1
     else if source_at s d Erp \<noteq> Some SrcApplied then 2 else 3)"
proof -
  have "\<forall>src src'. source_at s d src = Some SrcApplied \<and> src' < src \<longrightarrow> source_at s d src' = Some SrcApplied"
    using assms(1) by (auto simp: sim_wf_def)
  from spec [OF spec [OF this]] have
    "source_at s d Ops = Some SrcApplied \<Longrightarrow> source_at s d Crm = Some SrcApplied"
    "source_at s d Erp = Some SrcApplied \<Longrightarrow> source_at s d Ops = Some SrcApplied"
    using source_system_order by blast+
  then show ?thesis using assms(2) by (auto simp: phase_at_def sources_def)
qed

lemma pending_iff:
  assumes "distinct (map source_key (ss_sources s))"
  shows "(\<exists>r \<in> set (ss_sources s). so_date r = d \<and> P (so_system r) \<and> so_state r \<noteq> SrcApplied)
     \<longleftrightarrow> (\<exists>src. P src \<and> source_at s d src = Some SrcPending)"
proof
  assume "\<exists>r \<in> set (ss_sources s). so_date r = d \<and> P (so_system r) \<and> so_state r \<noteq> SrcApplied"
  then obtain r where r: "r \<in> set (ss_sources s)" "so_date r = d" "P (so_system r)" "so_state r \<noteq> SrcApplied" by blast
  have "find_source d (so_system r) s = Some r"
    using lookup_by_unique [OF assms r(1)] r(2) by (simp add: find_source_def source_key_def)
  then have "source_at s d (so_system r) = Some SrcPending"
    using r(4) by (cases "so_state r") (simp_all add: source_at_def)
  with r(3) show "\<exists>src. P src \<and> source_at s d src = Some SrcPending" by blast
next
  assume "\<exists>src. P src \<and> source_at s d src = Some SrcPending"
  then obtain src r where r: "P src" "find_source d src s = Some r" "so_state r = SrcPending" by (auto simp: source_at_def)
  have k: "r \<in> set (ss_sources s)" "source_key r = (d, src)"
    using lookup_by_Some [OF r(2) [unfolded find_source_def]] by blast+
  have "so_date r = d" "so_system r = src" using k(2) unfolding source_key_def by blast+
  then show "\<exists>r \<in> set (ss_sources s). so_date r = d \<and> P (so_system r) \<and> so_state r \<noteq> SrcApplied"
    using k(1) r(1,3) by (intro bexI [of _ r]) simp_all
qed

section \<open>Statements and the clock\<close>

lemma watermark_cong: "ss_metadata t = ss_metadata s \<Longrightarrow> watermark t = watermark s"
  by (simp add: watermark_def metadata_date_def)

lemma day_of_cong: "ss_metadata t = ss_metadata s \<Longrightarrow> day_of t = day_of s"
  using watermark_cong [of t s] by (simp add: day_of_def)

lemma source_at_cong: "ss_sources t = ss_sources s \<Longrightarrow> source_at t d src = source_at s d src"
  by (simp add: source_at_def find_source_def)

lemma find_run_cong: "ss_runs t = ss_runs s \<Longrightarrow> find_run d t = find_run d s"
  by (simp add: find_run_def)

lemma source_at_appended:
  "source_at (s\<lparr>ss_sources := ss_sources s @ map (\<lambda>src. \<lparr>so_date = d, so_system = src, so_state = SrcPending, so_generated = 0,
      so_applied = 0, so_applied_at = None\<rparr>) srcs\<rparr>) d' src' =
    (case source_at s d' src' of
       Some st \<Rightarrow> Some st
     | None \<Rightarrow> if d' = d \<and> src' \<in> set srcs then Some SrcPending else None)"
proof -
  have "lookup_by source_key (d', src') (map (\<lambda>src. \<lparr>so_date = d, so_system = src, so_state = SrcPending, so_generated = 0,
      so_applied = 0, so_applied_at = None\<rparr>) srcs) = (if d' = d \<and> src' \<in> set srcs then Some \<lparr>so_date = d, so_system = src',
      so_state = SrcPending, so_generated = 0, so_applied = 0, so_applied_at = None\<rparr> else None)"
    by (induction srcs) (auto simp: lookup_by_def source_key_def)
  then show ?thesis by (auto simp: source_at_def find_source_def lookup_by_append split: option.splits)
qed

lemma insert_sources:
  assumes "distinct srcs" "\<forall>src \<in> set srcs. (d, src) \<notin> source_key ` set (ss_sources s)"
  shows "run_stmts (map (InsertSource d) srcs) s = (Ok (), s\<lparr>ss_sources := ss_sources s @ map (\<lambda>src. \<lparr>so_date = d, so_system = src,
     so_state = SrcPending, so_generated = 0, so_applied = 0, so_applied_at = None\<rparr>) srcs\<rparr>)"
  using assms
proof (induction srcs arbitrary: s)
  case Nil
  then show ?case by (simp add: run_stmts_def eret_def)
next
  case (Cons src srcs)
  let ?r = "\<lparr>so_date = d, so_system = src, so_state = SrcPending, so_generated = 0, so_applied = 0, so_applied_at = None\<rparr>"
  let ?t = "s\<lparr>ss_sources := ss_sources s @ [?r]\<rparr>"
  have "source_key ?r \<notin> source_key ` set (ss_sources s)" using Cons.prems(2) by (simp add: source_key_def)
  then have "exec_stmt (InsertSource d src) s = (Ok (), ?t)"
    by (simp add: exec_stmt_def stmt_effect_def insert_unique_def)
  moreover have "\<forall>x \<in> set srcs. (d, x) \<notin> source_key ` set (ss_sources ?t)"
    using Cons.prems by (auto simp: source_key_def)
  ultimately show ?case using Cons.IH [of ?t] Cons.prems(1) by (simp add: run_stmts_def ebind_def)
qed

section \<open>What each method does\<close>

abbreviation pending_row :: "date \<Rightarrow> source_system \<Rightarrow> source_run" where
  "pending_row d src \<equiv> \<lparr>so_date = d, so_system = src, so_state = SrcPending, so_generated = 0, so_applied = 0, so_applied_at = None\<rparr>"

abbreviation new_run :: "date \<Rightarrow> bool \<Rightarrow> int \<Rightarrow> sim_run" where
  "new_run d breach now \<equiv> \<lparr>sr_date = d, sr_state = RunInProgress, sr_breach = breach, sr_started = now,
     sr_completed = None, sr_failure = None\<rparr>"

abbreviation reopened :: "date \<Rightarrow> sim_run \<Rightarrow> sim_run" where
  "reopened d r \<equiv> (if sr_date r = d then r\<lparr>sr_state := RunInProgress, sr_failure := None\<rparr> else r)"

abbreviation finished :: "date \<Rightarrow> int \<Rightarrow> sim_run \<Rightarrow> sim_run" where
  "finished d now r \<equiv> (if sr_date r = d then r\<lparr>sr_state := RunCompleted, sr_completed := Some now\<rparr> else r)"

abbreviation applied_row :: "date \<Rightarrow> source_system \<Rightarrow> int \<Rightarrow> int \<Rightarrow> int \<Rightarrow> source_run \<Rightarrow> source_run" where
  "applied_row d src generated applied now r \<equiv>
     (if source_key r = (d, src) then r\<lparr>so_state := SrcApplied, so_generated := generated, so_applied := applied, so_applied_at := Some now\<rparr> else r)"

lemma wf_parts:
  assumes "sim_wf s"
  shows "watermark s = Ok (day_of s)" "valid_date (day_of s)" "distinct (map sr_date (ss_runs s))"
    "distinct (map source_key (ss_sources s))" "r \<in> set (ss_runs s) \<Longrightarrow> sr_date r \<le> day_of s + 1"
    "source_at s d src = None \<longleftrightarrow> find_run d s = None"
    "source_at s d src = Some SrcApplied \<Longrightarrow> src' < src \<Longrightarrow> source_at s d src' = Some SrcApplied"
  using assms unfolding sim_wf_def by blast+

lemma find_run_None: "find_run d s = None \<longleftrightarrow> d \<notin> set (map sr_date (ss_runs s))"
  by (simp add: find_run_def lookup_by_None)

lemma same_clock:
  assumes "sim_wf s" "watermark t = watermark s" "\<And>d src. source_at t d src = source_at s d src"
    and "map sr_date (ss_runs t) = map sr_date (ss_runs s)" "distinct (map source_key (ss_sources t))"
  shows "sim_wf t" "clock_of t = clock_of s"
proof -
  have day: "day_of t = day_of s" using assms(2) by (simp add: day_of_def)
  have runs: "find_run d t = None \<longleftrightarrow> find_run d s = None" for d by (simp only: find_run_None assms(4))
  have dates: "sr_date ` set (ss_runs t) = sr_date ` set (ss_runs s)" using arg_cong [OF assms(4), of set] by simp
  have "\<forall>x \<in> sr_date ` set (ss_runs s). x \<le> day_of s + 1" using wf_parts(5) [OF assms(1)] by blast
  then have "\<forall>r \<in> set (ss_runs t). sr_date r \<le> day_of t + 1" unfolding day dates [symmetric] by blast
  moreover have "watermark t = Ok (day_of t)" using wf_parts(1) [OF assms(1)] by (simp add: assms(2) day)
  moreover have "valid_date (day_of t)" "distinct (map sr_date (ss_runs t))"
    using wf_parts(2,3) [OF assms(1)] by (simp_all add: day assms(4))
  moreover have "source_at t d src = None \<longleftrightarrow> find_run d t = None" for d src
    using wf_parts(6) [OF assms(1)] by (simp only: runs assms(3))
  moreover have "\<forall>d src src'. source_at t d src = Some SrcApplied \<and> src' < src \<longrightarrow> source_at t d src' = Some SrcApplied"
    using assms(1) unfolding sim_wf_def assms(3) by blast
  ultimately show "sim_wf t" using assms(5) unfolding sim_wf_def by blast
  show "clock_of t = clock_of s" by (simp add: clock_of_def day phase_at_def assms(3))
qed

lemma claim_cases:
  assumes "sim_wf s"
  obtains (refused) e where "day_of s + 1 < d" "claim_run sha d seed now s = (Err e, s)"
  | (fresh) breach where "d \<le> day_of s + 1" "find_run d s = None" "claim_run sha d seed now s
      = (Ok True, s\<lparr>ss_runs := ss_runs s @ [new_run d breach now], ss_sources := ss_sources s @ map (pending_row d) sources\<rparr>)"
  | (closed) "d \<le> day_of s + 1" "find_run d s \<noteq> None" "claim_run sha d seed now s = (Ok False, s)"
  | (again) "d \<le> day_of s + 1" "find_run d s \<noteq> None"
      "claim_run sha d seed now s = (Ok True, s\<lparr>ss_runs := map (reopened d) (ss_runs s)\<rparr>)"
proof -
  note w = wf_parts(1) [OF assms]
  consider "day_of s + 1 < d" | "d \<le> day_of s + 1" "find_run d s = None"
    | r where "d \<le> day_of s + 1" "find_run d s = Some r" "sr_state r = RunCompleted"
    | r where "d \<le> day_of s + 1" "find_run d s = Some r" "sr_state r \<noteq> RunCompleted"
    by (cases "find_run d s") force+
  then show thesis
  proof cases
    case 1
    then show thesis by (intro refused) (simp_all add: claim_run_def claim_stmts_def w ebind_def eget_def elift_def)
  next
    case 2
    let ?b = "is_weekly_sla_breach_date sha d seed"
    let ?t = "s\<lparr>ss_runs := ss_runs s @ [new_run d ?b now]\<rparr>"
    have ins: "exec_stmt (InsertRun d ?b now) s = (Ok (), ?t)"
      using 2(2) by (simp add: exec_stmt_def stmt_effect_def insert_unique_def find_run_None)
    have "\<forall>src \<in> set sources. (d, src) \<notin> source_key ` set (ss_sources ?t)"
      using 2(2) wf_parts(6) [OF assms, of d] by (auto simp: source_at_def find_source_def lookup_by_None)
    from insert_sources [OF _ this]
    have "run_stmts (map (InsertSource d) sources) ?t = (Ok (), ?t\<lparr>ss_sources := ss_sources s @ map (pending_row d) sources\<rparr>)"
      by (simp add: sources_def)
    then have "run_stmts (InsertRun d ?b now # map (InsertSource d) sources) s
        = (Ok (), s\<lparr>ss_runs := ss_runs s @ [new_run d ?b now], ss_sources := ss_sources s @ map (pending_row d) sources\<rparr>)"
      using ins by (simp add: run_stmts_def ebind_def)
    then show thesis
      using 2 by (intro fresh [of ?b]) (simp_all add: claim_run_def claim_stmts_def w ebind_def eget_def elift_def eret_def)
  next
    case 3
    then show thesis
      by (intro closed) (simp_all add: claim_run_def claim_stmts_def w ebind_def eget_def elift_def eret_def run_stmts_def)
  next
    case 4
    then show thesis
      by (intro again) (simp_all add: claim_run_def claim_stmts_def w ebind_def eget_def elift_def eret_def run_stmts_def
          exec_stmt_def stmt_effect_def)
  qed
qed

lemma mark_cases:
  assumes "sim_wf s"
  obtains (refused) e where "mark_source_applied d src generated applied now s = (Err e, s)"
  | (marked) "source_at s d src \<noteq> None" "\<And>src'. src' < src \<Longrightarrow> source_at s d src' = Some SrcApplied"
      "mark_source_applied d src generated applied now s
        = (Ok (), s\<lparr>ss_sources := map (applied_row d src generated applied now) (ss_sources s)\<rparr>)"
proof (cases "mark_checks d src generated applied s")
  case (Inl e)
  then show thesis by (intro refused) (simp add: mark_source_applied_def ebind_def eget_def elift_def)
next
  case (Inr u)
  then have ok: "find_source d src s \<noteq> None"
    "\<not> (\<exists>r \<in> set (ss_sources s). so_date r = d \<and> so_system r < src \<and> so_state r \<noteq> SrcApplied)"
    by (auto simp: mark_checks_def split: if_splits)
  have here: "source_at s d src \<noteq> None" using ok(1) by (simp add: source_at_def)
  moreover have "source_at s d src' = Some SrcApplied" if "src' < src" for src'
  proof -
    have "source_at s d src' \<noteq> Some SrcPending"
      using ok(2) that pending_iff [OF wf_parts(4) [OF assms], of d "\<lambda>x. x < src"] by blast
    moreover have "source_at s d src' \<noteq> None" using here wf_parts(6) [OF assms] by metis
    ultimately show ?thesis by (metis source_state.exhaust option.exhaust)
  qed
  ultimately show thesis using Inr
    by (intro marked) (simp_all add: mark_source_applied_def ebind_def eget_def elift_def run_stmts_def exec_stmt_def stmt_effect_def eret_def)
qed

lemma set_metadata_lookup:
  "map_of kvs k \<noteq> None \<Longrightarrow> map_of (map (\<lambda>kv. if fst kv = k then (k, v) else kv) kvs) k = Some v"
  by (induction kvs) auto

lemma complete_cases:
  assumes "sim_wf s" "valid_date d"
  obtains (refused) e where "complete_run d now s = (Err e, s)"
  | (completed) m where "d = day_of s + 1" "\<And>src. source_at s d src \<noteq> Some SrcPending"
      "complete_run d now s = (Ok (), s\<lparr>ss_runs := map (finished d now) (ss_runs s), ss_metadata := m\<rparr>)"
      "watermark (s\<lparr>ss_runs := map (finished d now) (ss_runs s), ss_metadata := m\<rparr>) = Ok d"
proof (cases "complete_stmts d now s")
  case (Inl e)
  then show thesis by (intro refused) (simp add: complete_run_def ebind_def eget_def elift_def)
next
  case (Inr sts)
  note w = wf_parts(1) [OF assms(1)]
  from Inr have ok: "d = day_of s + 1" "\<not> (\<exists>r \<in> set (ss_sources s). so_date r = d \<and> so_state r \<noteq> SrcApplied)"
    "sts = [FinishRun d now, SetMetadata last_completed_key (isoformat d)]"
    by (auto simp: complete_stmts_def w split: if_splits)
  let ?m = "map (\<lambda>kv. if fst kv = last_completed_key then (last_completed_key, isoformat d) else kv) (ss_metadata s)"
  let ?t = "s\<lparr>ss_runs := map (finished d now) (ss_runs s), ss_metadata := ?m\<rparr>"
  have "map_of (ss_metadata s) last_completed_key \<noteq> None"
    using w by (auto simp: watermark_def metadata_date_def split: option.splits)
  then have "map_of (ss_metadata ?t) last_completed_key = Some (isoformat d)"
    by (simp add: set_metadata_lookup)
  then have "watermark ?t = Ok d"
    using fromisoformat_isoformat assms(2) by (simp add: watermark_def metadata_date_def valid_date_def)
  moreover have "\<And>src. source_at s d src \<noteq> Some SrcPending"
    using ok(2) pending_iff [OF wf_parts(4) [OF assms(1)], of d "\<lambda>_. True"] by blast
  moreover have "complete_run d now s = (Ok (), ?t)"
    using Inr by (simp add: complete_run_def ok(3) ebind_def eget_def elift_def run_stmts_def exec_stmt_def stmt_effect_def eret_def)
  ultimately show thesis using ok(1) by (intro completed)
qed

definition only_events :: "sim_store \<Rightarrow> sim_store \<Rightarrow> bool" where
  "only_events s t \<longleftrightarrow> (\<exists>evs. t = s\<lparr>ss_events := evs\<rparr>)"

lemma only_events_refl: "only_events s s"
  unfolding only_events_def by (rule exI [of _ "ss_events s"]) simp

lemma record_event_frame: "record_event e s = (r, t) \<Longrightarrow> only_events s t"
  using only_events_refl [of s]
  by (auto simp: record_event_def ebind_def eget_def eraise_def exec_stmt_def stmt_effect_def only_events_def split: if_splits)

lemma record_events_frame: "record_events es s = (r, t) \<Longrightarrow> only_events s t"
proof (induction es arbitrary: s)
  case Nil
  then show ?case using only_events_refl [of s] by (simp add: record_events_def eret_def)
next
  case (Cons e es)
  obtain r' u where u: "record_event e s = (r', u)" by fastforce
  then have "only_events s u" by (rule record_event_frame)
  moreover have "only_events u t \<or> t = u"
    using Cons.prems Cons.IH [of u] u by (auto simp: record_events_def ebind_def split: sum.splits)
  ultimately show ?case by (auto simp: only_events_def)
qed

lemma only_events_clock:
  assumes "sim_wf s" "only_events s t"
  shows "sim_wf t" "clock_of t = clock_of s"
proof -
  obtain evs where t: "t = s\<lparr>ss_events := evs\<rparr>" using assms(2) by (auto simp: only_events_def)
  have "watermark t = watermark s" "\<And>d src. source_at t d src = source_at s d src" "map sr_date (ss_runs t) = map sr_date (ss_runs s)"
    by (simp_all add: t watermark_def metadata_date_def source_at_def find_source_def)
  moreover have "distinct (map source_key (ss_sources t))" using wf_parts(4) [OF assms(1)] by (simp add: t)
  ultimately show "sim_wf t" "clock_of t = clock_of s" using same_clock [OF assms(1)] by blast+
qed

section \<open>Each method is a step of the clock\<close>

lemma claim_clock:
  assumes "sim_wf s" "valid_date d"
  shows "sim_wf (snd (claim_run sha d seed now s)) \<and> clock_step (clock_of s) (clock_of (snd (claim_run sha d seed now s)))"
  using assms(1)
proof (cases rule: claim_cases [of s d sha seed now])
  case (fresh breach)
  let ?t = "s\<lparr>ss_runs := ss_runs s @ [new_run d breach now], ss_sources := ss_sources s @ map (pending_row d) sources\<rparr>"
  have all: "src \<in> set sources" for src by (cases src) (simp_all add: sources_def)
  have at: "source_at ?t d' src = (case source_at s d' src of Some st \<Rightarrow> Some st | None \<Rightarrow> if d' = d then Some SrcPending else None)" for d' src
    using source_at_appended [of "s\<lparr>ss_runs := ss_runs s @ [new_run d breach now]\<rparr>" d sources d' src] all [of src]
    by (simp add: source_at_def find_source_def)
  have none: "source_at s d src = None" for src using fresh(2) wf_parts(6) [OF assms(1)] by blast
  have day: "watermark ?t = watermark s" "day_of ?t = day_of s" by (simp_all add: watermark_def metadata_date_def day_of_def)
  have run: "find_run d' ?t = None \<longleftrightarrow> find_run d' s = None \<and> d' \<noteq> d" for d' by (auto simp: find_run_None)
  have fresh_keys: "(d, src) \<notin> source_key ` set (ss_sources s)" for src
    using none [of src] by (auto simp: source_at_def find_source_def lookup_by_None)
  have keys: "distinct (map source_key (ss_sources ?t))"
    using wf_parts(4) [OF assms(1)] fresh_keys by (auto simp: sources_def source_key_def)
  have "source_at ?t d' src = None \<longleftrightarrow> find_run d' ?t = None" for d' src
    using wf_parts(6) [OF assms(1), of d' src] none by (auto simp: at run split: option.splits)
  moreover have "\<forall>d' src src'. source_at ?t d' src = Some SrcApplied \<and> src' < src \<longrightarrow> source_at ?t d' src' = Some SrcApplied"
    using wf_parts(7) [OF assms(1)] none unfolding at by (auto split: option.splits if_splits)
  moreover have "distinct (map sr_date (ss_runs ?t))" using wf_parts(3) [OF assms(1)] fresh(2) by (simp add: find_run_None)
  moreover have "\<forall>r \<in> set (ss_runs ?t). sr_date r \<le> day_of ?t + 1"
    using wf_parts(5) [OF assms(1)] fresh(1) day by auto
  ultimately have wf: "sim_wf ?t"
    using wf_parts(1,2) [OF assms(1)] day keys unfolding sim_wf_def by simp
  have "clock_step (clock_of s) (clock_of ?t)"
  proof (cases "d = day_of s + 1")
    case True
    have "phase_at s d = Unclaimed" by (simp add: phase_at_def none)
    moreover have "phase_at ?t d = Applying 0" by (simp add: phase_at_def at none)
    ultimately show ?thesis
      using clock_step.claim [of "clock_of s"] True unfolding clock_of_def day by simp
  next
    case False
    then have "source_at ?t (day_of s + 1) src = source_at s (day_of s + 1) src" for src
      unfolding at by (simp split: option.split)
    then have "phase_at ?t (day_of s + 1) = phase_at s (day_of s + 1)" by (simp add: phase_at_def)
    then show ?thesis using clock_step.idle by (simp add: clock_of_def day)
  qed
  with wf show ?thesis by (simp add: fresh(3))
next
  case again
  let ?t = "s\<lparr>ss_runs := map (reopened d) (ss_runs s)\<rparr>"
  have "map sr_date (ss_runs ?t) = map sr_date (ss_runs s)" by (simp add: comp_def)
  from same_clock [OF assms(1) _ _ this] wf_parts(4) [OF assms(1)]
  have "sim_wf ?t" "clock_of ?t = clock_of s"
    by (simp_all add: watermark_def metadata_date_def source_at_def find_source_def)
  then show ?thesis using clock_step.idle by (simp add: again(3))
qed (use assms(1) clock_step.idle in simp_all)

lemma mark_clock:
  assumes "sim_wf s"
  shows "sim_wf (snd (mark_source_applied d src g a now s))
    \<and> clock_step (clock_of s) (clock_of (snd (mark_source_applied d src g a now s)))"
  using assms
proof (cases rule: mark_cases [of s d src g a now])
  case marked
  let ?t = "s\<lparr>ss_sources := map (applied_row d src g a now) (ss_sources s)\<rparr>"
  have at: "source_at ?t d' src' = (if (d', src') = (d, src) then Some SrcApplied else source_at s d' src')" for d' src'
  proof -
    have "lookup_by source_key (d', src') (ss_sources ?t)
        = map_option (applied_row d src g a now) (lookup_by source_key (d', src') (ss_sources s))"
      by simp (rule lookup_by_map, simp add: source_key_def)
    then show ?thesis
      using marked(1) by (cases "lookup_by source_key (d', src') (ss_sources s)")
        (auto simp: source_at_def find_source_def dest: lookup_by_Some)
  qed
  have day: "watermark ?t = watermark s" "day_of ?t = day_of s" by (simp_all add: watermark_def metadata_date_def day_of_def)
  have "source_key \<circ> applied_row d src g a now = source_key" by (rule ext) (simp add: source_key_def)
  then have keys: "distinct (map source_key (ss_sources ?t))" using wf_parts(4) [OF assms] by simp
  have "source_at ?t d' src' = None \<longleftrightarrow> find_run d' ?t = None" for d' src'
    using wf_parts(6) [OF assms, of d' src'] marked(1) by (auto simp: at find_run_def)
  moreover have "\<forall>d' src1 src2. source_at ?t d' src1 = Some SrcApplied \<and> src2 < src1 \<longrightarrow> source_at ?t d' src2 = Some SrcApplied"
    using wf_parts(7) [OF assms] marked(2) unfolding at by auto
  ultimately have wf: "sim_wf ?t"
    using wf_parts(1-3,5) [OF assms] day keys unfolding sim_wf_def by simp
  have "clock_step (clock_of s) (clock_of ?t)"
  proof (cases "d = day_of s + 1 \<and> source_at s d src \<noteq> Some SrcApplied")
    case False
    then have "source_at ?t (day_of s + 1) src' = source_at s (day_of s + 1) src'" for src' by (auto simp: at)
    then have "phase_at ?t (day_of s + 1) = phase_at s (day_of s + 1)" by (simp add: phase_at_def)
    then show ?thesis using clock_step.idle by (simp add: clock_of_def day)
  next
    case True
    have claimed: "source_at s d x \<noteq> None" "source_at ?t d x \<noteq> None" for x
      using marked(1) wf_parts(6) [OF assms, of d] by (auto simp: at)
    have later: "source_at s d x \<noteq> Some SrcApplied" if "src < x" for x
      using wf_parts(7) [OF assms, of d x src] that True by blast
    have "phase_at s d = Applying (system_index src) \<and> phase_at ?t d = Applying (Suc (system_index src))"
      using marked(2) later conjunct2 [OF True]
      unfolding phase_cases [OF assms claimed(1)] phase_cases [OF wf claimed(2)] at
      by (cases src) (simp_all add: source_system_order system_index_def)
    moreover have "system_index src < 3" by (cases src) (simp_all add: system_index_def)
    ultimately show ?thesis
      using clock_step.apply_next [of "clock_of s" "system_index src"] True unfolding clock_of_def day by simp
  qed
  with wf show ?thesis by (simp add: marked(3))
qed (use assms clock_step.idle in simp_all)

lemma complete_clock:
  assumes "sim_wf s" "valid_date d" "find_run d s \<noteq> None"
  shows "sim_wf (snd (complete_run d now s)) \<and> clock_step (clock_of s) (clock_of (snd (complete_run d now s)))"
  using assms(1,2)
proof (cases rule: complete_cases [of s d now])
  case (completed m)
  let ?t = "s\<lparr>ss_runs := map (finished d now) (ss_runs s), ss_metadata := m\<rparr>"
  have day: "day_of ?t = d" using completed(4) by (simp add: day_of_def)
  have at: "source_at ?t d' src = source_at s d' src" for d' src by (simp add: source_at_def find_source_def)
  have dates: "map sr_date (ss_runs ?t) = map sr_date (ss_runs s)" by (simp add: comp_def)
  have run: "find_run d' ?t = None \<longleftrightarrow> find_run d' s = None" for d' by (simp only: find_run_None dates)
  have "\<forall>r \<in> set (ss_runs ?t). sr_date r \<le> d + 1"
    using wf_parts(5) [OF assms(1)] completed(1) by fastforce
  moreover have "\<forall>d src src'. source_at s d src = Some SrcApplied \<and> src' < src \<longrightarrow> source_at s d src' = Some SrcApplied"
    using wf_parts(7) [OF assms(1)] by blast
  ultimately have wf: "sim_wf ?t"
    using wf_parts(1-6) [OF assms(1)] assms(2) completed(4) unfolding sim_wf_def day at run dates by simp
  have all: "source_at s d src = Some SrcApplied" for src
    using completed(2) assms(3) wf_parts(6) [OF assms(1)] by (metis source_state.exhaust option.exhaust)
  then have "phase_at s (day_of s + 1) = Applying 3" by (simp add: phase_at_def completed(1) sources_def)
  moreover have "find_run (d + 1) s = None"
    using wf_parts(5) [OF assms(1)] completed(1) by (fastforce simp: find_run_None)
  then have "phase_at ?t (d + 1) = Unclaimed" using wf_parts(6) [OF assms(1), of "d + 1"] by (simp add: phase_at_def at)
  then have next_clock: "clock_of ?t = \<lparr>dc_day = day_of s + 1, dc_phase = Unclaimed\<rparr>"
    unfolding clock_of_def day completed(1) [symmetric] by simp
  ultimately have "clock_step (clock_of s) (clock_of ?t)"
    using clock_step.complete [of "clock_of s"] unfolding next_clock by (simp add: clock_of_def)
  with wf show ?thesis by (simp add: completed(3))
qed (use assms clock_step.idle in simp_all)

section \<open>Runs of the methods\<close>

datatype sim_call =
  InitCall date
| ClaimCall date int
| MarkCall date source_system int int
| RecordCall "source_event list"
| CompleteCall date

fun exec_call :: "digest \<Rightarrow> int \<Rightarrow> sim_call \<Rightarrow> unit sim_op" where
  "exec_call sha now (InitCall d) = initialize d"
| "exec_call sha now (ClaimCall d seed) = ebind (claim_run sha d seed now) (\<lambda>_. eret ())"
| "exec_call sha now (MarkCall d src g a) = mark_source_applied d src g a now"
| "exec_call sha now (RecordCall es) = record_events es"
| "exec_call sha now (CompleteCall d) = complete_run d now"

fun sim_calls :: "digest \<Rightarrow> (int \<times> sim_call) list \<Rightarrow> sim_store \<Rightarrow> sim_store" where
  "sim_calls sha [] s = s"
| "sim_calls sha ((now, c) # cs) s = sim_calls sha cs (snd (exec_call sha now c s))"

text \<open>The callers' discipline: dates are valid and a date is completed only after it was claimed.\<close>

fun call_ok :: "sim_call \<Rightarrow> sim_store \<Rightarrow> bool" where
  "call_ok (InitCall d) s \<longleftrightarrow> valid_date d"
| "call_ok (ClaimCall d seed) s \<longleftrightarrow> valid_date d"
| "call_ok (CompleteCall d) s \<longleftrightarrow> valid_date d \<and> find_run d s \<noteq> None"
| "call_ok _ s \<longleftrightarrow> True"

fun disciplined :: "digest \<Rightarrow> (int \<times> sim_call) list \<Rightarrow> sim_store \<Rightarrow> bool" where
  "disciplined sha [] s \<longleftrightarrow> True"
| "disciplined sha ((now, c) # cs) s \<longleftrightarrow> call_ok c s \<and> disciplined sha cs (snd (exec_call sha now c s))"

lemma initialize_clock:
  assumes "sim_wf s"
  shows "sim_wf (snd (initialize d s)) \<and> clock_of (snd (initialize d s)) = clock_of s"
proof -
  have known: "map_of (ss_metadata s) last_completed_key \<noteq> None"
    using wf_parts(1) [OF assms] by (auto simp: watermark_def metadata_date_def split: option.splits)
  obtain m where t: "snd (initialize d s) = s\<lparr>ss_metadata := m\<rparr>"
    "map_of m last_completed_key = map_of (ss_metadata s) last_completed_key"
  proof (cases "map_of (ss_metadata s) baseline_key")
    case None
    then have "fst (baseline_key, isoformat d) \<notin> fst ` set (ss_metadata s)" by (simp add: map_of_eq_None_iff)
    then have "snd (initialize d s) = s\<lparr>ss_metadata := ss_metadata s @ [(baseline_key, isoformat d)]\<rparr>"
      using known None by (simp add: initialize_def initialize_stmts_def run_stmts_def exec_stmt_def stmt_effect_def
          insert_unique_def ebind_def eget_def eret_def)
    moreover have "map_of (ss_metadata s @ [(baseline_key, isoformat d)]) last_completed_key = map_of (ss_metadata s) last_completed_key"
      by (simp add: map_add_def baseline_key_def last_completed_key_def split: option.splits)
    ultimately show thesis using that by blast
  next
    case (Some t)
    then have "snd (initialize d s) = s"
      using known by (auto simp: initialize_def initialize_stmts_def run_stmts_def ebind_def eget_def eret_def eraise_def)
    then show thesis using that [of "ss_metadata s"] by simp
  qed
  have "watermark (snd (initialize d s)) = watermark s" by (simp add: t watermark_def metadata_date_def)
  moreover have "source_at (snd (initialize d s)) e src = source_at s e src" for e src
    by (simp add: t source_at_def find_source_def)
  moreover have "map sr_date (ss_runs (snd (initialize d s))) = map sr_date (ss_runs s)" by (simp add: t)
  moreover have "distinct (map source_key (ss_sources (snd (initialize d s))))" using wf_parts(4) [OF assms] by (simp add: t)
  ultimately show ?thesis using same_clock [OF assms] by blast
qed

lemma exec_call_clock:
  assumes "sim_wf s" "call_ok c s"
  shows "sim_wf (snd (exec_call sha now c s)) \<and> clock_step (clock_of s) (clock_of (snd (exec_call sha now c s)))"
proof (cases c)
  case (InitCall d)
  then show ?thesis using initialize_clock [OF assms(1), of d] clock_step.idle by simp
next
  case (ClaimCall d seed)
  have "snd (ebind m (\<lambda>_. eret ()) s) = snd (m s)" for m :: "bool sim_op"
    by (simp add: ebind_def eret_def split: prod.split sum.split)
  then show ?thesis using claim_clock [OF assms(1), of d sha seed now] assms(2) ClaimCall by simp
next
  case (MarkCall d src g a)
  then show ?thesis using mark_clock [OF assms(1)] by simp
next
  case (RecordCall es)
  obtain r t where t: "record_events es s = (r, t)" by fastforce
  then show ?thesis
    using only_events_clock [OF assms(1) record_events_frame [OF t]] clock_step.idle RecordCall by simp
next
  case (CompleteCall d)
  then show ?thesis using complete_clock [OF assms(1)] assms(2) by simp
qed

lemma sim_calls_clock:
  "sim_wf s \<Longrightarrow> disciplined sha cs s \<Longrightarrow> sim_wf (sim_calls sha cs s) \<and> clock_step\<^sup>*\<^sup>* (clock_of s) (clock_of (sim_calls sha cs s))"
proof (induction cs arbitrary: s)
  case (Cons c cs)
  obtain now call where c: "c = (now, call)" by (cases c)
  have "sim_wf (snd (exec_call sha now call s)) \<and> clock_step (clock_of s) (clock_of (snd (exec_call sha now call s)))"
    using exec_call_clock Cons.prems by (simp add: c)
  then show ?case using Cons.IH [of "snd (exec_call sha now call s)"] Cons.prems(2)
    by (auto simp: c intro: converse_rtranclp_into_rtranclp)
qed simp

text \<open>The clock never turns back, and a day it passes was applied by all three systems.\<close>

lemma clock_steps_mono: "clock_step\<^sup>*\<^sup>* c c' \<Longrightarrow> dc_day c \<le> dc_day c'"
  by (induction rule: rtranclp_induct) (auto elim: clock_stepE)

lemma initialized_at:
  "snd (initialize d empty_sim) = empty_sim\<lparr>ss_metadata := [(last_completed_key, isoformat d), (baseline_key, isoformat d)]\<rparr>"
  by (simp add: initialize_def initialize_stmts_def empty_sim_def run_stmts_def exec_stmt_def stmt_effect_def
      insert_unique_def ebind_def eget_def eret_def baseline_key_def last_completed_key_def)

lemma initialized_wf:
  assumes "valid_date d"
  shows "sim_wf (snd (initialize d empty_sim))" "clock_of (snd (initialize d empty_sim)) = \<lparr>dc_day = d, dc_phase = Unclaimed\<rparr>"
proof -
  note t = initialized_at [of d]
  have w: "watermark (snd (initialize d empty_sim)) = Ok d"
    using fromisoformat_isoformat assms by (simp add: t watermark_def metadata_date_def valid_date_def)
  then have day: "day_of (snd (initialize d empty_sim)) = d" by (simp add: day_of_def)
  have none: "source_at (snd (initialize d empty_sim)) e src = None" "find_run e (snd (initialize d empty_sim)) = None" for e src
    unfolding t by (simp_all add: empty_sim_def source_at_def find_source_def find_run_def lookup_by_def)
  have "ss_runs (snd (initialize d empty_sim)) = []" "ss_sources (snd (initialize d empty_sim)) = []"
    unfolding t by (simp_all add: empty_sim_def)
  then show "sim_wf (snd (initialize d empty_sim))"
    unfolding sim_wf_def day w using assms by (simp add: none)
  show "clock_of (snd (initialize d empty_sim)) = \<lparr>dc_day = d, dc_phase = Unclaimed\<rparr>"
    by (simp add: clock_of_def day phase_at_def none)
qed

text \<open>C33:
  The control database refines the day clock: over any run of its methods by callers that
  complete only days they claimed, every method is at most one step of the clock. So the completed
  date never goes back and passes a day only after CRM, Ops and ERP, in this order, applied it.
\<close>

theorem store_refines_clock:
  assumes "sim_wf s" "disciplined sha cs s"
  shows "sim_wf (sim_calls sha cs s) \<and> clock_step\<^sup>*\<^sup>* (clock_of s) (clock_of (sim_calls sha cs s))"
  by (rule sim_calls_clock [OF assms])

definition wit_sha :: digest where "wit_sha t = map of_char t"

lemma wit_sha_inj: "wit_sha t = wit_sha u \<Longrightarrow> t = u" "\<forall>b \<in> set (wit_sha t). b < 256"
proof -
  have "inj (of_char :: char \<Rightarrow> nat)" by (rule inj_of_char)
  then show "wit_sha t = wit_sha u \<Longrightarrow> t = u" by (simp add: wit_sha_def inj_map_eq_map)
  show "\<forall>b \<in> set (wit_sha t). b < 256" using nat_of_char_less_256 by (auto simp: wit_sha_def)
qed

definition wit_calls :: "(int \<times> sim_call) list" where
  "wit_calls = [(0, ClaimCall 739001 7), (1, MarkCall 739001 Crm 3 3), (2, MarkCall 739001 Erp 1 1),
     (3, MarkCall 739001 Ops 2 2), (4, MarkCall 739001 Erp 1 1), (5, CompleteCall 739001)]"

lemma mark_runs: "ss_runs (snd (mark_source_applied d src g a now s)) = ss_runs s"
  by (simp add: mark_source_applied_def ebind_def eget_def elift_def run_stmts_def exec_stmt_def stmt_effect_def eret_def split: sum.split)

lemma claimed_after:
  assumes "sim_wf s" "d \<le> day_of s + 1"
  shows "find_run d (snd (claim_run sha d seed now s)) \<noteq> None"
  using assms(1)
proof (cases rule: claim_cases [of s d sha seed now])
  case (refused e)
  then show ?thesis using assms(2) by simp
next
  case (fresh breach)
  then show ?thesis by (simp add: find_run_None)
next
  case again
  have "map sr_date (ss_runs (s\<lparr>ss_runs := map (reopened d) (ss_runs s)\<rparr>)) = map sr_date (ss_runs s)" by (simp add: comp_def)
  then show ?thesis using again(2) unfolding again(3) snd_conv find_run_None by simp
qed simp

theorem store_refines_clock_witness:
  "clock_step\<^sup>*\<^sup>* \<lparr>dc_day = 739000, dc_phase = Unclaimed\<rparr>
     (clock_of (sim_calls wit_sha wit_calls (snd (initialize 739000 empty_sim))))"
proof -
  let ?s = "snd (initialize 739000 empty_sim)"
  have v: "valid_date 739000" "valid_date 739001" by (simp_all add: valid_date_def max_ordinal_def)
  note wf = initialized_wf [OF v(1)]
  have "day_of ?s = 739000" using arg_cong [OF wf(2), of dc_day] by (simp add: clock_of_def)
  then have "find_run 739001 (snd (claim_run wit_sha 739001 7 0 ?s)) \<noteq> None" using claimed_after [OF wf(1)] by simp
  moreover have "snd (exec_call wit_sha now (ClaimCall d seed) s) = snd (claim_run wit_sha d seed now s)" for now d seed s
    by (simp add: ebind_def eret_def split: prod.split sum.split)
  ultimately have "disciplined wit_sha wit_calls ?s"
    unfolding wit_calls_def by (simp add: v find_run_None mark_runs del: exec_call.simps(2))
  from store_refines_clock [OF wf(1) this] show ?thesis unfolding wf(2) by blast
qed

section \<open>Where the guards leave gaps\<close>

text \<open>C38:
  complete_run does not ask for a claim: with no source of the next day claimed, let alone
  applied, it counts no pending source and moves the completed date.
\<close>

theorem unclaimed_day_completes:
  assumes "sim_wf s" "valid_date (day_of s + 1)" "dc_phase (clock_of s) = Unclaimed"
  shows "\<exists>t. complete_run (day_of s + 1) now s = (Ok (), t) \<and> day_of t = day_of s + 1
    \<and> (\<forall>src. source_at t (day_of s + 1) src = None)"
proof -
  let ?d = "day_of s + 1"
  have "source_at s ?d Crm = None" using assms(3) by (auto simp: clock_of_def phase_at_def split: if_splits)
  then have none: "source_at s ?d src = None" for src using wf_parts(6) [OF assms(1)] by blast
  have ok: "complete_stmts ?d now s = Ok [FinishRun ?d now, SetMetadata last_completed_key (isoformat ?d)]"
    using wf_parts(1) [OF assms(1)] pending_iff [OF wf_parts(4) [OF assms(1)], of ?d "\<lambda>_. True"] none
    by (simp add: complete_stmts_def)
  then have "\<not> (\<exists>e. complete_run ?d now s = (Err e, s))"
    by (simp add: complete_run_def ebind_def eget_def elift_def run_stmts_def exec_stmt_def stmt_effect_def eret_def)
  with assms(1,2) show ?thesis
  proof (cases rule: complete_cases [of s ?d now])
    case (completed m)
    let ?t = "s\<lparr>ss_runs := map (finished ?d now) (ss_runs s), ss_metadata := m\<rparr>"
    have "day_of ?t = ?d" using completed(4) by (simp add: day_of_def)
    moreover have "source_at ?t ?d src = None" for src using none by (simp add: source_at_def find_source_def)
    ultimately show ?thesis using completed(3) by blast
  qed auto
qed

theorem unclaimed_day_completes_witness:
  "day_of (snd (complete_run 739001 0 (snd (initialize 739000 empty_sim)))) = 739001"
proof -
  let ?s = "snd (initialize 739000 empty_sim)"
  have v: "valid_date 739000" "valid_date 739001" by (simp_all add: valid_date_def max_ordinal_def)
  have c: "dc_phase (clock_of ?s) = Unclaimed" by (simp add: initialized_wf(2) [OF v(1)])
  have d: "day_of ?s = 739000" using arg_cong [OF initialized_wf(2) [OF v(1)], of dc_day] by (simp add: clock_of_def)
  from unclaimed_day_completes [OF initialized_wf(1) [OF v(1)] _ c, of 0] show ?thesis
    using v(2) by (auto simp: d)
qed

definition blocked :: "date \<Rightarrow> sim_store \<Rightarrow> bool" where
  "blocked d s \<longleftrightarrow> d \<in> set (map sr_date (ss_runs s)) \<and> (d, Erp) \<notin> source_key ` set (ss_sources s)"

lemma blocked_stmt: "st \<noteq> InsertSource d Erp \<Longrightarrow> keeps (blocked d) (exec_stmt st)"
proof (cases st)
  case (MarkApplied e src g a now)
  have "source_key (applied_row e src g a now r) = source_key r" for r by (simp add: source_key_def)
  then show ?thesis
    by (simp add: MarkApplied keeps_def blocked_def exec_stmt_def stmt_effect_def image_image del: if_image_distrib)
next
  case (ReopenRun e)
  have "sr_date (reopened e r) = sr_date r" for r by simp
  then show ?thesis by (simp add: ReopenRun keeps_def blocked_def exec_stmt_def stmt_effect_def image_image del: if_image_distrib)
next
  case (FinishRun e now)
  have "sr_date (finished e now r) = sr_date r" for r by simp
  then show ?thesis by (simp add: FinishRun keeps_def blocked_def exec_stmt_def stmt_effect_def image_image del: if_image_distrib)
next
  case (InsertSource e src)
  assume "st \<noteq> InsertSource d Erp"
  then have "source_key (pending_row e src) \<noteq> (d, Erp)" by (auto simp: InsertSource source_key_def)
  then have "blocked d (s\<lparr>ss_sources := ss_sources s @ [pending_row e src]\<rparr>)" if "blocked d s" for s
    using that by (auto simp: blocked_def)
  then show ?thesis
    by (simp add: InsertSource keeps_def exec_stmt_def stmt_effect_def insert_unique_def)
qed (simp_all add: keeps_def blocked_def exec_stmt_def stmt_effect_def insert_unique_def)

lemma blocked_stmts: "InsertSource d Erp \<notin> set sts \<Longrightarrow> keeps (blocked d) (run_stmts sts)"
  unfolding run_stmts_def
proof (rule keeps_efor)
  fix st
  assume "InsertSource d Erp \<notin> set sts" "st \<in> set sts"
  then have "st \<noteq> InsertSource d Erp" by metis
  then show "keeps (blocked d) (exec_stmt st)" by (rule blocked_stmt)
qed

lemma keeps_read:
  assumes "\<And>s. P s \<Longrightarrow> P (snd (k (f s) s))"
  shows "keeps P (ebind (eget f) k)"
  using assms by (simp add: keeps_def ebind_def eget_def)

lemma keeps_checked:
  assumes "\<And>s x. P s \<Longrightarrow> f s = Ok x \<Longrightarrow> P (snd (k x s))"
  shows "keeps P (ebind (eget f) (\<lambda>r. ebind (elift r) k))"
  using assms by (auto simp: keeps_def ebind_def eget_def elift_def split: sum.split)

lemma blocked_call: "keeps (blocked d) (exec_call sha now c)"
proof (cases c)
  case (InitCall e)
  have "InsertSource d Erp \<notin> set (initialize_stmts e s)" for s by (simp add: initialize_stmts_def)
  then have "keeps (blocked d) (ebind (run_stmts (initialize_stmts e s)) (\<lambda>_. case found of None \<Rightarrow> eret () | Some t \<Rightarrow>
      if t \<noteq> isoformat e then eraise x else eret ()))" for s found x
    by (intro keeps_ebind blocked_stmts) (auto intro: keeps_eff split: option.split)
  then show ?thesis unfolding InitCall exec_call.simps initialize_def
    by (intro keeps_read) (simp add: keeps_snd)
next
  case (ClaimCall e seed)
  have sts: "InsertSource d Erp \<notin> set sts" if "blocked d s" "claim_stmts sha e seed now s = Ok sts" for s sts
    using that by (auto simp: claim_stmts_def blocked_def rbind_eq_Inr find_run_None sources_def split: if_splits option.splits)
  have "keeps (blocked d) (claim_run sha e seed now)"
    unfolding claim_run_def by (rule keeps_checked) (use sts in \<open>blast intro: keeps_snd keeps_ebind keeps_eff blocked_stmts\<close>)
  then show ?thesis unfolding ClaimCall exec_call.simps by (intro keeps_ebind keeps_eff)
next
  case (MarkCall e src g a)
  then show ?thesis
    by (auto simp: mark_source_applied_def intro!: keeps_ebind keeps_eff blocked_stmts)
next
  case (RecordCall es)
  then show ?thesis
    by (auto simp: record_events_def record_event_def intro!: keeps_efor keeps_ebind keeps_eff blocked_stmt)
next
  case (CompleteCall e)
  have "InsertSource d Erp \<notin> set sts" if "complete_stmts e now s = Ok sts" for s sts
    using that by (auto simp: complete_stmts_def rbind_eq_Inr split: if_splits)
  then show ?thesis unfolding CompleteCall exec_call.simps complete_run_def
    by (intro keeps_checked) (blast intro: keeps_snd blocked_stmts)
qed

lemma blocked_calls: "blocked d s \<Longrightarrow> blocked d (sim_calls sha cs s)"
  by (induction cs arbitrary: s) (auto simp: keeps_snd [OF blocked_call])



section \<open>The event log\<close>

definition stored_event :: "source_event \<Rightarrow> source_event" where
  "stored_event e = e\<lparr>ev_payload := stored_payload (ev_payload e)\<rparr>"

definition add_events :: "source_event list \<Rightarrow> event_row list \<Rightarrow> event_row list" where
  "add_events es rows = fold (insert_or_ignore er_id) (map row_of_event es) rows"

lemma add_events_simps [simp]:
  "add_events [] rows = rows"
  "add_events (e # es) rows = add_events es (insert_or_ignore er_id (row_of_event e) rows)"
  by (simp_all add: add_events_def)

lemma event_of_stored: "distinct (map fst (ev_payload e)) \<Longrightarrow> event_of_row (row_of_event e) = Ok (stored_event e)"
  by (simp add: event_of_row_def row_of_event_def json_round_trip stored_event_def)

lemma record_events_ok:
  assumes "\<forall>e \<in> set es. find_source (ev_business_date e) (ev_system e) s \<noteq> None"
  shows "record_events es s = (Ok (), s\<lparr>ss_events := add_events es (ss_events s)\<rparr>)"
  using assms
proof (induction es arbitrary: s)
  case Nil
  then show ?case by (simp add: record_events_def eret_def)
next
  case (Cons e es)
  let ?u = "s\<lparr>ss_events := insert_or_ignore er_id (row_of_event e) (ss_events s)\<rparr>"
  have "record_event e s = (Ok (), ?u)"
    using Cons.prems by (auto simp: record_event_def ebind_def eget_def exec_stmt_def stmt_effect_def)
  moreover have "find_source d src ?u = find_source d src s" for d src by (simp add: find_source_def)
  ultimately show ?case using Cons.IH [of ?u] Cons.prems by (simp add: record_events_def ebind_def)
qed

lemma add_events_fresh:
  assumes "distinct (map ev_id es)" "\<forall>e \<in> set es. ev_id e \<notin> er_id ` set rows"
  shows "add_events es rows = rows @ map row_of_event es"
  using assms
proof (induction es arbitrary: rows)
  case (Cons e es)
  have id: "er_id (row_of_event e) = ev_id e" for e by (simp add: row_of_event_def)
  have "insert_or_ignore er_id (row_of_event e) rows = rows @ [row_of_event e]"
    using Cons.prems(2) by (simp add: insert_or_ignore_def id)
  moreover have "ev_id x \<notin> er_id ` set (rows @ [row_of_event e])" if "x \<in> set es" for x
    using Cons.prems that by (auto simp: id) (metis imageI)
  ultimately show ?case using Cons.IH [of "rows @ [row_of_event e]"] Cons.prems(1) by simp
qed simp

lemma add_events_known:
  "\<forall>e \<in> set es. ev_id e \<in> er_id ` set rows \<Longrightarrow> add_events es rows = rows"
  by (induction es) (auto simp: insert_or_ignore_def row_of_event_def)

lemma sort_key_map: "sort_key f (map g xs) = map g (sort_key (\<lambda>x. f (g x)) xs)"
proof -
  have "insort_key f (g x) (map g ys) = map g (insort_key (\<lambda>x. f (g x)) x ys)" for x ys by (induction ys) auto
  then show ?thesis by (induction xs) simp_all
qed

lemma events_through_appended:
  assumes "\<forall>e \<in> set es. ev_business_date e = d \<and> ev_system e = src \<and> distinct (map fst (ev_payload e))"
    and "filter (\<lambda>r. er_business_date r = d \<and> er_system r = src) (ss_events s) = []"
  shows "events_for d src (s\<lparr>ss_events := ss_events s @ map row_of_event es\<rparr>) = Ok (map stored_event (sort_key ev_id es))"
proof -
  let ?P = "\<lambda>r. er_business_date r = d \<and> er_system r = src"
  have "filter ?P (map row_of_event es) = map row_of_event es"
    using assms(1) by (induction es) (auto simp: row_of_event_def)
  then have "filter ?P (ss_events s @ map row_of_event es) = map row_of_event es" using assms(2) by simp
  moreover have "sort_key er_id (map row_of_event es) = map row_of_event (sort_key ev_id es)"
    by (simp add: sort_key_map) (simp add: row_of_event_def)
  moreover have "rmap event_of_row (map row_of_event xs) = Ok (map stored_event xs)" if "set xs \<subseteq> set es" for xs
    using that
  proof (induction xs)
    case (Cons x xs)
    then show ?case using assms(1) by (simp add: event_of_stored)
  qed simp
  ultimately show ?thesis by (simp add: events_for_def events_through_def)
qed

text \<open>C36:
  Events recorded for a claimed day are read back by events_for in the order of their identifiers,
  with every field as planned; only their payload has its keys sorted and its decimals printed,
  which leaves their JSON text as it was. Recording the planned or the read events again changes
  nothing.
\<close>

theorem recorded_events_read_back:
  assumes "find_source d src s \<noteq> None" "distinct (map ev_id es)"
    and "\<forall>e \<in> set es. ev_business_date e = d \<and> ev_system e = src \<and> distinct (map fst (ev_payload e))
      \<and> ev_id e \<notin> er_id ` set (ss_events s)"
    and "filter (\<lambda>r. er_business_date r = d \<and> er_system r = src) (ss_events s) = []"
  shows "\<exists>t. record_events es s = (Ok (), t) \<and> events_for d src t = Ok (map stored_event (sort_key ev_id es))
    \<and> (\<forall>e \<in> set es. json_dumps (ev_payload (stored_event e)) = json_dumps (ev_payload e))
    \<and> record_events es t = (Ok (), t) \<and> record_events (map stored_event es) t = (Ok (), t)"
proof -
  let ?t = "s\<lparr>ss_events := ss_events s @ map row_of_event es\<rparr>"
  have "\<forall>e \<in> set es. find_source (ev_business_date e) (ev_system e) s \<noteq> None"
    and "\<forall>e \<in> set es. ev_id e \<notin> er_id ` set (ss_events s)" using assms(1,3) by simp_all
  then have "record_events es s = (Ok (), ?t)"
    using record_events_ok [of es s] add_events_fresh [OF assms(2)] by simp
  moreover have "events_for d src ?t = Ok (map stored_event (sort_key ev_id es))"
    using assms(3) by (intro events_through_appended assms(4)) blast
  moreover have again: "record_events es' ?t = (Ok (), ?t)"
    if "\<forall>e \<in> set es'. ev_business_date e = d \<and> ev_system e = src \<and> ev_id e \<in> ev_id ` set es" for es'
  proof -
    have "find_source d src ?t \<noteq> None" using assms(1) by (simp add: find_source_def)
    then have "\<forall>e \<in> set es'. find_source (ev_business_date e) (ev_system e) ?t \<noteq> None" using that by simp
    moreover have "er_id (row_of_event e) = ev_id e" for e by (simp add: row_of_event_def)
    then have "\<forall>e \<in> set es'. ev_id e \<in> er_id ` set (ss_events ?t)" using that by (auto simp: image_Un image_image)
    ultimately show ?thesis using record_events_ok [of es' ?t] add_events_known [of es'] by simp
  qed
  moreover have "record_events es ?t = (Ok (), ?t)" by (rule again) (use assms(3) in auto)
  moreover have "record_events (map stored_event es) ?t = (Ok (), ?t)"
    by (rule again) (use assms(3) in \<open>auto simp: stored_event_def\<close>)
  moreover have "json_dumps (ev_payload (stored_event e)) = json_dumps (ev_payload e)" for e
    by (simp add: stored_event_def json_dumps_stored)
  ultimately show ?thesis by blast
qed

definition wit_event :: "string \<Rightarrow> int \<Rightarrow> source_event" where
  "wit_event entity n = create_event wit_sha 739001 Ops ''order_created'' entity
     [(''order_id'', ScInt n), (''amount'', ScDecimal 1250)] None None"

theorem recorded_events_read_back_witness:
  "\<exists>t. record_events [wit_event ''7'' 7, wit_event ''8'' 8] (snd (claim_run wit_sha 739001 7 0 (snd (initialize 739000 empty_sim)))) = (Ok (), t)
     \<and> events_for 739001 Ops t = Ok (map stored_event (sort_key ev_id [wit_event ''7'' 7, wit_event ''8'' 8]))"
proof -
  let ?i = "snd (initialize 739000 empty_sim)"
  let ?s = "snd (claim_run wit_sha 739001 7 0 ?i)"
  have v: "valid_date 739000" "valid_date 739001" by (simp_all add: valid_date_def max_ordinal_def)
  note wf = initialized_wf [OF v(1)]
  have "day_of ?i = 739000" using arg_cong [OF wf(2), of dc_day] by (simp add: clock_of_def)
  then have "find_run 739001 ?s \<noteq> None" using claimed_after [OF wf(1), of 739001] by simp
  moreover have "sim_wf ?s" using claim_clock [OF wf(1) v(2)] by blast
  ultimately have claimed: "find_source 739001 Ops ?s \<noteq> None"
    using wf_parts(6) [of ?s 739001 Ops] by (simp add: source_at_def)
  have none: "ss_events ?s = []"
  proof -
    have "ss_events ?i = []" unfolding initialized_at by (simp add: empty_sim_def)
    with wf(1) show ?thesis by (cases rule: claim_cases [of ?i 739001 wit_sha 7 0]) simp_all
  qed
  have ids: "ev_id (wit_event ''7'' 7) \<noteq> ev_id (wit_event ''8'' 8)"
  proof
    assume "ev_id (wit_event ''7'' 7) = ev_id (wit_event ''8'' 8)"
    from event_id_inj [OF wit_sha_inj this [unfolded wit_event_def]] show False by simp
  qed
  show ?thesis
    using recorded_events_read_back [OF claimed, of "[wit_event ''7'' 7, wit_event ''8'' 8]"] ids
    by (auto simp: none) (auto simp: wit_event_def create_event_def)
qed

end
