(* ===== verification/Scheduler.thy ===== *)
theory Scheduler
  imports SimStateProps
begin

text \<open>
  The catch-up runner (\<open>simulator/scheduler.py\<close>) and the daemon around it
  (\<open>simulator/daemon.py\<close>), over any world: the source runs are the interface \<open>DailySourceRun\<close> of
  the code. The locale \<open>daily_sources\<close> is what the runner relies on; what follows from it is proved
  here once, and the simulator's own sources are shown to provide it where they are defined.
\<close>

section \<open>The runner\<close>

record 'w daily_runner =
  dr_due :: "date \<Rightarrow> ('w, sim_error, date list) eff"
  dr_last :: "('w, sim_error, date) eff"
  dr_crm :: "date \<Rightarrow> int \<Rightarrow> ('w, sim_error, unit) eff"
  dr_ops :: "date \<Rightarrow> int \<Rightarrow> ('w, sim_error, unit) eff"
  dr_erp :: "date \<Rightarrow> int \<Rightarrow> ('w, sim_error, unit) eff"

definition run_day :: "'w daily_runner \<Rightarrow> int \<Rightarrow> date \<Rightarrow> ('w, sim_error, unit) eff" where
  "run_day R seed d =
     ebind (dr_crm R d seed) (\<lambda>_.
     ebind (dr_ops R d seed) (\<lambda>_.
     ebind (dr_erp R d seed) (\<lambda>_.
     ebind (dr_last R) (\<lambda>last.
     if last \<noteq> d then eraise (StateErr ''ERP did not complete the simulation date'') else eret ()))))"

fun run_days :: "'w daily_runner \<Rightarrow> int \<Rightarrow> date list \<Rightarrow> date list \<Rightarrow> ('w, sim_error, date list) eff" where
  "run_days R seed [] completed = eret completed"
| "run_days R seed (d # ds) completed = ebind (run_day R seed d) (\<lambda>_. run_days R seed ds (completed @ [d]))"

definition run_through :: "'w daily_runner \<Rightarrow> date \<Rightarrow> int \<Rightarrow> ('w, sim_error, date list) eff" where
  "run_through R through seed = ebind (dr_due R through) (\<lambda>ds. run_days R seed ds [])"

section \<open>The contract of the sources\<close>

locale daily_sources =
  fixes R :: "'w daily_runner"
    and inv :: "'w \<Rightarrow> bool"
    and day :: "'w \<Rightarrow> date"
  assumes due: "inv w \<Longrightarrow> dr_due R t w = (Ok (if t \<le> day w then [] else [day w + 1 .. t]), w)"
    and last: "inv w \<Longrightarrow> dr_last R w = (Ok (day w), w)"
    and crm: "inv w \<Longrightarrow> valid_date (day w + 1) \<Longrightarrow> dr_crm R (day w + 1) seed w = (r, u) \<Longrightarrow> inv u \<and> day u = day w"
    and ops: "inv w \<Longrightarrow> valid_date (day w + 1) \<Longrightarrow> dr_ops R (day w + 1) seed w = (r, u) \<Longrightarrow> inv u \<and> day u = day w"
    and erp: "inv w \<Longrightarrow> valid_date (day w + 1) \<Longrightarrow> dr_erp R (day w + 1) seed w = (r, u) \<Longrightarrow>
      inv u \<and> (day u = day w \<or> day u = day w + 1) \<and> (is_ok r \<longrightarrow> day u = day w + 1)"
begin

lemma run_day_outcome:
  assumes "inv w" "valid_date (day w + 1)" "run_day R seed (day w + 1) w = (r, u)"
  shows "inv u \<and> (day u = day w \<or> day u = day w + 1) \<and> (is_ok r \<longrightarrow> day u = day w + 1)"
proof -
  obtain r1 w1 where c: "dr_crm R (day w + 1) seed w = (r1, w1)" by fastforce
  then have i1: "inv w1" "day w1 = day w" using crm assms(1,2) by blast+
  show ?thesis
  proof (cases r1)
    case (Inl e)
    then show ?thesis using assms(3) c i1 by (auto simp: run_day_def ebind_def)
  next
    case (Inr x)
    obtain r2 w2 where o2: "dr_ops R (day w + 1) seed w1 = (r2, w2)" by fastforce
    then have i2: "inv w2" "day w2 = day w" using ops [of w1 seed r2 w2] i1 assms(2) by auto
    show ?thesis
    proof (cases r2)
      case (Inl e)
      then show ?thesis using assms(3) c o2 i2 Inr by (auto simp: run_day_def ebind_def)
    next
      case (Inr y)
      obtain r3 w3 where e3: "dr_erp R (day w + 1) seed w2 = (r3, w3)" by fastforce
      then have i3: "inv w3" "day w3 = day w \<or> day w3 = day w + 1" "is_ok r3 \<longrightarrow> day w3 = day w + 1"
        using erp [of w2 seed r3 w3] i2 assms(2) by auto
      then show ?thesis
        using assms(3) c o2 e3 \<open>r1 = Inr x\<close> Inr last [OF i3(1)]
        by (cases r3) (auto simp: run_day_def ebind_def eraise_def eret_def)
    qed
  qed
qed

lemma run_days_outcome:
  assumes "inv w" "ds = [day w + 1 .. t]" "day w \<le> t" "valid_date (day w)" "t \<le> max_ordinal"
    and "run_days R seed ds completed w = (r, u)"
  shows "inv u \<and> day w \<le> day u \<and> day u \<le> t \<and> (\<forall>xs. r = Ok xs \<longrightarrow> xs = completed @ ds \<and> day u = t)"
  using assms
proof (induction ds arbitrary: w completed)
  case Nil
  then show ?case by (auto simp: eret_def)
next
  case (Cons d ds)
  have lt: "day w < t" using Cons.prems(2,3) by (metis list.discI upto_Nil zless_add1_eq linorder_not_less order_le_less)
  then have d: "d = day w + 1" "ds = [day w + 1 + 1 .. t]"
    using Cons.prems(2) upto_rec1 [of "day w + 1" t] by simp_all
  have v: "valid_date (day w + 1)" using Cons.prems(4,5) lt by (simp add: valid_date_def)
  obtain r1 w1 where r1: "run_day R seed (day w + 1) w = (r1, w1)" by fastforce
  note o1 = run_day_outcome [OF Cons.prems(1) v r1]
  show ?case
  proof (cases r1)
    case (Inl e)
    then show ?thesis using Cons.prems(6) o1 lt by (auto simp: d(1) r1 ebind_def)
  next
    case (Inr x)
    then have w1: "inv w1" "day w1 = day w + 1" using o1 by simp_all
    have "run_days R seed ds (completed @ [d]) w1 = (r, u)" using Cons.prems(6) Inr by (simp add: d(1) r1 ebind_def)
    from Cons.IH [OF w1(1) _ _ _ Cons.prems(5) this] show ?thesis using w1(2) d lt v by auto
  qed
qed

lemma run_through_outcome:
  assumes "inv w" "valid_date (day w)" "t \<le> max_ordinal" "run_through R t seed w = (r, u)"
  shows "inv u \<and> day w \<le> day u \<and> day u \<le> max t (day w)
    \<and> (\<forall>ds. r = Ok ds \<longrightarrow> ds = [day w + 1 .. t] \<and> day u = max t (day w))"
proof (cases "t \<le> day w")
  case True
  then have "r = Ok []" "u = w" using assms(4) due [OF assms(1)] by (auto simp: run_through_def ebind_def eret_def)
  then show ?thesis using assms(1) True by (simp add: max_def)
next
  case False
  then have "run_days R seed [day w + 1 .. t] [] w = (r, u)"
    using assms(4) due [OF assms(1)] by (simp add: run_through_def ebind_def)
  from run_days_outcome [OF assms(1) refl _ assms(2,3) this] False show ?thesis by (auto simp: max_def)
qed

end

section \<open>The daemon\<close>

text \<open>
  The time zone database is a parameter: the local date of an instant and the instant of a local
  midnight, both in microseconds.
\<close>

record zone =
  zn_date :: "int \<Rightarrow> date"
  zn_midnight :: "date \<Rightarrow> int"

definition seconds_until_next_midnight :: "zone \<Rightarrow> int \<Rightarrow> rat" where
  "seconds_until_next_midnight z now = max 1 (of_int (zn_midnight z (zn_date z now + 1) - now) / 1000000)"

definition positive_seconds :: "int \<Rightarrow> string \<Rightarrow> sim_error + int" where
  "positive_seconds v name = (if v \<le> 0 then Err (ValueErr (name @ '' must be greater than zero'')) else Ok v)"

definition daemon_checks :: "int \<Rightarrow> int \<Rightarrow> sim_error + unit" where
  "daemon_checks first_delay max_delay =
     rbind (positive_seconds first_delay ''SIMULATION_RETRY_INITIAL_SECONDS'') (\<lambda>_.
     rbind (positive_seconds max_delay ''SIMULATION_RETRY_MAX_SECONDS'') (\<lambda>_.
     if max_delay < first_delay
     then Err (ValueErr ''SIMULATION_RETRY_MAX_SECONDS cannot be below the initial retry delay'') else Ok ()))"

definition retry_delay :: "int \<Rightarrow> int \<Rightarrow> nat \<Rightarrow> int" where
  "retry_delay first_delay max_delay failures = min (first_delay * 2 ^ failures) max_delay"

text \<open>One pass of the loop: the seconds slept, the new count of failures and the world.\<close>

definition daemon_pass :: "'w daily_runner \<Rightarrow> zone \<Rightarrow> int \<Rightarrow> int \<Rightarrow> int \<Rightarrow> int \<Rightarrow> nat \<Rightarrow> 'w \<Rightarrow> rat \<times> nat \<times> 'w" where
  "daemon_pass R z first_delay max_delay seed now failures w =
     (case run_through R (zn_date z now) seed w of
        (Err e, u) \<Rightarrow> (of_int (retry_delay first_delay max_delay failures), Suc failures, u)
      | (Ok ds, u) \<Rightarrow> (seconds_until_next_midnight z now, 0, u))"

text \<open>The first passes of \<open>run_forever\<close>, one for each reading of the clock.\<close>

fun daemon_passes ::
  "'w daily_runner \<Rightarrow> zone \<Rightarrow> int \<Rightarrow> int \<Rightarrow> int \<Rightarrow> int list \<Rightarrow> nat \<Rightarrow> 'w \<Rightarrow> rat list \<times> nat \<times> 'w" where
  "daemon_passes R z first_delay max_delay seed [] failures w = ([], failures, w)"
| "daemon_passes R z first_delay max_delay seed (now # readings) failures w =
     (case daemon_pass R z first_delay max_delay seed now failures w of (slept, n, u) \<Rightarrow>
        case daemon_passes R z first_delay max_delay seed readings n u of (rest, m, v) \<Rightarrow> (slept # rest, m, v))"

definition run_forever ::
  "'w daily_runner \<Rightarrow> zone \<Rightarrow> int \<Rightarrow> int \<Rightarrow> int \<Rightarrow> int list \<Rightarrow> 'w \<Rightarrow> sim_error + (rat list \<times> nat \<times> 'w)" where
  "run_forever R z first_delay max_delay seed readings w =
     rbind (daemon_checks first_delay max_delay) (\<lambda>_. Ok (daemon_passes R z first_delay max_delay seed readings 0 w))"

section \<open>Back-off\<close>

lemma retry_delay_bounds:
  assumes "0 < f" "f \<le> m"
  shows "f \<le> retry_delay f m n" "retry_delay f m n \<le> m"
proof -
  have "f * 1 \<le> f * 2 ^ n" using assms(1) by (intro mult_left_mono) simp_all
  then show "f \<le> retry_delay f m n" "retry_delay f m n \<le> m" using assms(2) by (simp_all add: retry_delay_def)
qed

lemma retry_delay_doubles: "0 < f \<Longrightarrow> retry_delay f m (Suc n) = min (2 * retry_delay f m n) m \<or> m < 0"
  by (auto simp: retry_delay_def min_def)

lemma daemon_passes_failures:
  assumes "daemon_passes R z f m seed readings k w = (slept, n, u)"
  shows "length slept = length readings
    \<and> (n = k + length slept \<and> slept = map (\<lambda>i. of_int (retry_delay f m i)) [k ..< n]
       \<or> n < length slept \<and> drop (length slept - n) slept = map (\<lambda>i. of_int (retry_delay f m i)) [0 ..< n])"
  using assms
proof (induction readings arbitrary: k w slept)
  case Nil
  then show ?case by simp
next
  case (Cons now readings)
  obtain s0 k1 w1 where p: "daemon_pass R z f m seed now k w = (s0, k1, w1)" by (metis prod_cases3)
  obtain rest n' v where r: "daemon_passes R z f m seed readings k1 w1 = (rest, n', v)" by (metis prod_cases3)
  have s: "slept = s0 # rest" "n' = n" "v = u" using Cons.prems p r by simp_all
  have ih: "length rest = length readings
    \<and> (n = k1 + length rest \<and> rest = map (\<lambda>i. of_int (retry_delay f m i)) [k1 ..< n]
       \<or> n < length rest \<and> drop (length rest - n) rest = map (\<lambda>i. of_int (retry_delay f m i)) [0 ..< n])"
    using Cons.IH [OF r [unfolded s(2,3)]] .
  have "s0 = of_int (retry_delay f m k) \<and> k1 = Suc k \<or> k1 = 0"
    using p by (auto simp: daemon_pass_def split: prod.splits sum.splits)
  then show ?case
  proof
    assume "s0 = of_int (retry_delay f m k) \<and> k1 = Suc k"
    then show ?thesis using ih by (auto simp: s Suc_diff_le upt_rec [of k n])
  next
    assume "k1 = 0"
    then show ?thesis using ih by (auto simp: s Suc_diff_le)
  qed
qed


definition wit_runner :: "date daily_runner" where
  "wit_runner = \<lparr>dr_due = (\<lambda>t w. (Ok [w + 1 .. t], w)), dr_last = (\<lambda>w. (Ok w, w)), dr_crm = (\<lambda>d seed w. (Ok (), w)),
     dr_ops = (\<lambda>d seed w. (if d = 3 then Err (RuntimeErr ''down'') else Ok (), w)), dr_erp = (\<lambda>d seed w. (Ok (), d))\<rparr>"

definition wit_zone :: zone where
  "wit_zone = \<lparr>zn_date = (\<lambda>t. t div 86400000000), zn_midnight = (\<lambda>d. d * 86400000000)\<rparr>"


section \<open>Catching up\<close>

context daily_sources
begin

lemma daemon_pass_outcome:
  assumes "inv w" "valid_date (day w)" "zn_date z now \<le> max_ordinal"
    and "daemon_pass R z f m seed now n w = (slept, k, u)"
  shows "inv u \<and> day w \<le> day u \<and> day u \<le> max (zn_date z now) (day w) \<and> (k = 0 \<longrightarrow> day u = max (zn_date z now) (day w))"
proof -
  obtain r v where r: "run_through R (zn_date z now) seed w = (r, v)" by fastforce
  then have "u = v" "k = 0 \<longrightarrow> (\<exists>ds. r = Ok ds)" using assms(4) by (auto simp: daemon_pass_def split: sum.splits)
  then show ?thesis using run_through_outcome [OF assms(1-3) r] by auto
qed

lemma daemon_passes_outcome:
  assumes "inv w" "valid_date (day w)" "\<forall>t \<in> set readings. zn_date z t \<le> max_ordinal"
    and "daemon_passes R z f m seed readings n w = (slept, k, u)"
  shows "inv u \<and> day w \<le> day u \<and> valid_date (day u) \<and> (readings \<noteq> [] \<and> k = 0 \<longrightarrow> zn_date z (last readings) \<le> day u)"
  using assms
proof (induction readings arbitrary: w n slept)
  case (Cons now readings)
  obtain s0 k1 w1 where p: "daemon_pass R z f m seed now n w = (s0, k1, w1)" by (metis prod_cases3)
  obtain rest k' v where r: "daemon_passes R z f m seed readings k1 w1 = (rest, k', v)" by (metis prod_cases3)
  have s: "k' = k" "v = u" using Cons.prems(4) p r by simp_all
  have o1: "inv w1 \<and> day w \<le> day w1 \<and> day w1 \<le> max (zn_date z now) (day w) \<and> (k1 = 0 \<longrightarrow> day w1 = max (zn_date z now) (day w))"
    using daemon_pass_outcome [OF Cons.prems(1,2) _ p] Cons.prems(3) by simp
  then have v1: "valid_date (day w1)" using Cons.prems(2,3) by (auto simp: valid_date_def)
  have o2: "inv u \<and> day w1 \<le> day u \<and> valid_date (day u) \<and> (readings \<noteq> [] \<and> k = 0 \<longrightarrow> zn_date z (List.last readings) \<le> day u)"
    using Cons.IH [OF _ v1 _ r [unfolded s]] o1 Cons.prems(3) by simp
  show ?case
  proof (cases readings)
    case Nil
    then show ?thesis using o1 r s v1 by auto
  qed (use o1 o2 in auto)
qed auto

end

end
