(* ===== verification/OpsDb.thy ===== *)
theory OpsDb
  imports SimPolicy
begin

text \<open>
  The Operations and Finance databases the simulator writes (\<open>sql/migrations\<close>): the tables its
  appliers touch, with their primary keys and unique constraints. Of the master tables only the
  columns the simulator reads are kept. Amounts are in cents, instants in seconds, dates as
  ordinals; an INSERT that violates a key raises.
\<close>

section \<open>Values\<close>

type_synonym instant = int

definition at_hour :: "date \<Rightarrow> int \<Rightarrow> instant" where
  "at_hour d h = d * 86400 + h * 3600"

definition days :: "int \<Rightarrow> instant" where "days n = n * 86400"

datatype order_status = OrderPending | OrderShipped | OrderInvoiced | OrderCancelled
datatype shipment_status = ShipmentShipped | ShipmentDelivered
datatype invoice_status = InvoiceIssued | InvoiceVoid
datatype case_status = CaseOpen | CaseResolved | CaseClosed
datatype sla_status = OnTime | Breached

definition sla_of :: "bool \<Rightarrow> sla_status" where
  "sla_of late = (if late then Breached else OnTime)"

section \<open>Operations\<close>

record 'st status_change =
  hc_entity :: int
  hc_previous :: "'st option"
  hc_new :: 'st
  hc_occurred :: instant
  hc_recorded :: instant
  hc_event :: string
  hc_due :: "instant option"
  hc_sla :: sla_status
  hc_anomaly :: "string option"

record customer =
  cu_id :: int
  cu_account_number :: string
  cu_name :: string
  cu_segment :: string
  cu_industry :: string
  cu_region :: string
  cu_company :: string
  cu_country :: string
  cu_employees :: int
  cu_credit_limit :: int
  cu_terms :: int
  cu_active :: bool
  cu_created :: instant
  cu_updated :: instant

record product =
  pr_id :: int
  pr_list_price :: int
  pr_standard_cost :: int

record ops_order =
  or_id :: int
  or_customer :: int
  or_opportunity :: "string option"
  or_rep :: "string option"
  or_date :: date
  or_requested :: date
  or_currency :: string
  or_status :: order_status
  or_channel :: string
  or_discount :: int
  or_po_number :: "string option"
  or_created :: instant
  or_updated :: instant

record order_line =
  ol_id :: int
  ol_order :: int
  ol_product :: int
  ol_quantity :: int
  ol_unit_price :: int
  ol_discount :: int
  ol_amount :: int
  ol_unit_cost :: int
  ol_created :: instant
  ol_updated :: instant

record shipment =
  sh_id :: int
  sh_order :: int
  sh_warehouse :: string
  sh_carrier :: string
  sh_service :: string
  sh_date :: date
  sh_promised :: date
  sh_delivered :: "date option"
  sh_packages :: int
  sh_weight :: int
  sh_distance :: int
  sh_freight :: int
  sh_tracking :: string
  sh_created :: instant
  sh_updated :: instant

record ops_invoice =
  in_id :: int
  in_number :: string
  in_order :: int
  in_date :: date
  in_currency :: string
  in_amount :: int
  in_status :: invoice_status
  in_created :: instant
  in_updated :: instant

record support_case =
  ca_id :: int
  ca_customer :: int
  ca_type :: string
  ca_priority :: string
  ca_channel :: string
  ca_opened :: instant
  ca_resolution :: "rat option"
  ca_status :: case_status
  ca_csat :: "int option"
  ca_region :: string
  ca_created :: instant
  ca_updated :: instant

record applied_event =
  ae_id :: string
  ae_system :: source_system
  ae_type :: string
  ae_date :: date

record ops_db =
  db_customers :: "customer list"
  db_products :: "product list"
  db_warehouses :: "string list"
  db_carriers :: "string list"
  db_orders :: "ops_order list"
  db_lines :: "order_line list"
  db_shipments :: "shipment list"
  db_invoices :: "ops_invoice list"
  db_cases :: "support_case list"
  db_order_history :: "order_status status_change list"
  db_shipment_history :: "shipment_status status_change list"
  db_invoice_history :: "invoice_status status_change list"
  db_case_history :: "case_status status_change list"
  db_applied :: "applied_event list"

section \<open>Finance\<close>

record company =
  co_code :: string
  co_currency :: string

record cost_center =
  cc_code :: string
  cc_company :: string
  cc_active :: bool
  cc_valid_from :: date
  cc_valid_to :: "date option"

record gl_account =
  gl_account :: string
  gl_type :: string
  gl_postable :: bool

record fx_rate =
  fx_from :: string
  fx_to :: string
  fx_date :: date
  fx_type :: string
  fx_rate :: rat

record posting =
  po_id :: int
  po_document_number :: string
  po_document_type :: string
  po_company :: string
  po_order :: "int option"
  po_gl_account :: string
  po_cost_center :: "string option"
  po_date :: date
  po_period :: string
  po_document_currency :: string
  po_amount_doc :: int
  po_company_currency :: string
  po_amount_company :: int
  po_reverses :: "int option"
  po_posted :: instant
  po_created :: instant

record erp_db =
  fd_companies :: "company list"
  fd_cost_centers :: "cost_center list"
  fd_gl_accounts :: "gl_account list"
  fd_fx_rates :: "fx_rate list"
  fd_postings :: "posting list"
  fd_applied :: "applied_event list"

section \<open>Statements\<close>

definition insert_checked :: "('r \<Rightarrow> 'r \<Rightarrow> bool) \<Rightarrow> 'r \<Rightarrow> 'r list \<Rightarrow> sim_error + 'r list" where
  "insert_checked clash r tbl =
     (if \<exists>x \<in> set tbl. clash r x then Err (ConstraintErr ''unique constraint'') else Ok (tbl @ [r]))"

definition next_id :: "('r \<Rightarrow> int) \<Rightarrow> 'r list \<Rightarrow> int" where
  "next_id key tbl = (case tbl of [] \<Rightarrow> 0 | r # rs \<Rightarrow> fold (\<lambda>r. max (key r)) rs (key r)) + 1"

definition marker_of :: "source_event \<Rightarrow> applied_event" where
  "marker_of e = \<lparr>ae_id = ev_id e, ae_system = ev_system e, ae_type = ev_type e, ae_date = ev_business_date e\<rparr>"

definition need_int :: "string \<Rightarrow> source_event \<Rightarrow> sim_error + int" where
  "need_int k e =
     (case map_of (ev_payload e) k of
        None \<Rightarrow> Err (Uncaught ''KeyError'')
      | Some v \<Rightarrow> of_opt (Uncaught ''ValueError'') (scalar_int v))"

definition need_value :: "string \<Rightarrow> source_event \<Rightarrow> sim_error + scalar" where
  "need_value k e = of_opt (Uncaught ''KeyError'') (map_of (ev_payload e) k)"

text \<open>\<open>date.fromisoformat(str(payload.get(k, column)))\<close>.\<close>

definition payload_date :: "string \<Rightarrow> date \<Rightarrow> source_event \<Rightarrow> sim_error + date" where
  "payload_date k fallback e =
     (case map_of (ev_payload e) k of
        None \<Rightarrow> Ok fallback
      | Some v \<Rightarrow> of_opt (Uncaught ''ValueError'') (fromisoformat (scalar_str v)))"

definition update_where :: "('r \<Rightarrow> bool) \<Rightarrow> ('r \<Rightarrow> 'r) \<Rightarrow> 'r list \<Rightarrow> 'r list" where
  "update_where P f = map (\<lambda>r. if P r then f r else r)"

section \<open>Lemmas\<close>

lemma insert_checked_Inr [simp]:
  "insert_checked clash r tbl = Inr t \<longleftrightarrow> (\<forall>x \<in> set tbl. \<not> clash r x) \<and> t = tbl @ [r]"
  by (auto simp: insert_checked_def)

lemma fold_max_start: "a \<le> fold (\<lambda>r. max (key r)) rs (a :: int)"
proof (induction rs arbitrary: a)
  case (Cons x xs)
  have "a \<le> max (key x) a" by simp
  also have "\<dots> \<le> fold (\<lambda>r. max (key r)) xs (max (key x) a)" by (rule Cons.IH)
  finally show ?case by simp
qed simp

lemma fold_max_ge: "r \<in> set rs \<Longrightarrow> key r \<le> fold (\<lambda>r. max (key r)) rs (a :: int)"
proof (induction rs arbitrary: a)
  case (Cons x xs)
  show ?case
  proof (cases "r = x")
    case True
    have "key x \<le> max (key x) a" by simp
    also have "\<dots> \<le> fold (\<lambda>r. max (key r)) xs (max (key x) a)" by (rule fold_max_start)
    finally show ?thesis by (simp add: True)
  qed (use Cons in simp)
qed simp

lemma next_id_fresh: "r \<in> set tbl \<Longrightarrow> key r < next_id key tbl"
proof (cases tbl)
  case (Cons x xs)
  then show "r \<in> set tbl \<Longrightarrow> key r < next_id key tbl"
    using fold_max_start [of "key x" key xs] fold_max_ge [of r xs key "key x"] by (auto simp: next_id_def)
qed simp

lemma next_id_not_key: "next_id key tbl \<notin> key ` set tbl"
  using next_id_fresh [of _ tbl key] by fastforce

lemma at_hour_less: "0 \<le> h \<Longrightarrow> h < 24 \<Longrightarrow> 0 \<le> k \<Longrightarrow> k < 24 \<Longrightarrow> at_hour d h \<le> at_hour e k \<longleftrightarrow> d < e \<or> d = e \<and> h \<le> k"
  by (auto simp: at_hour_def)

end
