(* ===== verification/OpsApply.thy ===== *)
theory OpsApply
  imports OpsDb
begin

text \<open>
  The application of planned events to the Operations database (\<open>simulator/ops_apply.py\<close>). The
  caller owns the transaction and rolls it back on any exception, so each step maps the database
  to a new one or to the exception. An applied event leaves its marker in the same transaction.
\<close>

section \<open>Status histories\<close>

definition history_clash :: "'st status_change \<Rightarrow> 'st status_change \<Rightarrow> bool" where
  "history_clash a b \<longleftrightarrow> hc_event a = hc_event b"

definition change_row ::
  "int \<Rightarrow> 'st option \<Rightarrow> 'st \<Rightarrow> instant \<Rightarrow> source_event \<Rightarrow> instant option \<Rightarrow> sla_status \<Rightarrow> 'st status_change" where
  "change_row i prev st tm e due sla =
     \<lparr>hc_entity = i, hc_previous = prev, hc_new = st, hc_occurred = tm, hc_recorded = tm, hc_event = ev_id e, hc_due = due,
      hc_sla = sla, hc_anomaly = ev_anomaly e\<rparr>"

section \<open>Orders\<close>

definition new_customer :: "int \<Rightarrow> date \<Rightarrow> customer" where
  "new_customer i d =
     \<lparr>cu_id = i, cu_account_number = ''ACC-'' @ zero_pad 6 i, cu_name = ''CRM customer '' @ int_str i, cu_segment = ''SMB'',
      cu_industry = ''Technology'', cu_region = ''NA-WEST'', cu_company = ''US01'', cu_country = ''United States'',
      cu_employees = 100, cu_credit_limit = 5000000, cu_terms = 30, cu_active = True, cu_created = at_hour d 8,
      cu_updated = at_hour d 8\<rparr>"

definition ensure_customer :: "int \<Rightarrow> date \<Rightarrow> ops_db \<Rightarrow> sim_error + ops_db" where
  "ensure_customer i d db =
     (if lookup_by cu_id i (db_customers db) \<noteq> None then Ok db
      else
        rbind (insert_checked (\<lambda>a b. cu_id a = cu_id b \<or> cu_account_number a = cu_account_number b) (new_customer i d)
          (db_customers db)) (\<lambda>t. Ok (db\<lparr>db_customers := t\<rparr>)))"

definition order_change ::
  "int \<Rightarrow> order_status option \<Rightarrow> order_status \<Rightarrow> instant \<Rightarrow> source_event \<Rightarrow> instant option \<Rightarrow> sla_status \<Rightarrow> ops_db \<Rightarrow> sim_error + ops_db" where
  "order_change i prev st tm e due sla db =
     rbind (insert_checked history_clash (change_row i prev st tm e due sla) (db_order_history db))
       (\<lambda>t. Ok (db\<lparr>db_order_history := t\<rparr>))"

definition new_order :: "int \<Rightarrow> int \<Rightarrow> scalar \<Rightarrow> date \<Rightarrow> ops_order" where
  "new_order i c ref d =
     \<lparr>or_id = i, or_customer = c, or_opportunity = (if ref = ScNull then None else Some (scalar_str ref)), or_rep = None,
      or_date = d, or_requested = d + 7, or_currency = ''USD'', or_status = OrderPending, or_channel = ''DIRECT'',
      or_discount = 0, or_po_number = None, or_created = at_hour d 8, or_updated = at_hour d 8\<rparr>"

definition new_line :: "int \<Rightarrow> int \<Rightarrow> product \<Rightarrow> date \<Rightarrow> order_line" where
  "new_line i order p d =
     \<lparr>ol_id = i, ol_order = order, ol_product = pr_id p, ol_quantity = 1, ol_unit_price = pr_list_price p, ol_discount = 0,
      ol_amount = pr_list_price p, ol_unit_cost = pr_standard_cost p, ol_created = at_hour d 8, ol_updated = at_hour d 8\<rparr>"

definition add_line :: "int \<Rightarrow> date \<Rightarrow> ops_db \<Rightarrow> sim_error + ops_db" where
  "add_line order d db =
     (case first_opt (sort_key pr_id (db_products db)) of
        None \<Rightarrow> Err (RuntimeErr ''Ops order cannot be created without a product catalog'')
      | Some p \<Rightarrow>
          rbind (insert_checked (\<lambda>a b. ol_id a = ol_id b \<or> ol_order a = ol_order b \<and> ol_product a = ol_product b)
              (new_line (next_id ol_id (db_lines db)) order p d) (db_lines db))
            (\<lambda>t. Ok (db\<lparr>db_lines := t\<rparr>)))"

text \<open>A payload value against a nullable text column, as \<open>!=\<close> compares them.\<close>

definition same_ref :: "string option \<Rightarrow> scalar \<Rightarrow> bool" where
  "same_ref column v \<longleftrightarrow> (case column of None \<Rightarrow> v = ScNull | Some t \<Rightarrow> v = ScStr t)"

definition apply_order :: "source_event \<Rightarrow> ops_db \<Rightarrow> sim_error + ops_db" where
  "apply_order e db =
     rbind (need_int ''customer_id'' e) (\<lambda>customer.
     rbind (need_int ''order_id'' e) (\<lambda>i.
     rbind (ensure_customer customer (ev_business_date e) db) (\<lambda>db.
     rbind (need_value ''opportunity_ref'' e) (\<lambda>ref.
     case lookup_by or_id i (db_orders db) of
       Some existing \<Rightarrow>
         if \<not> same_ref (or_opportunity existing) ref then Err (RuntimeErr (''order ID collision for '' @ int_str i))
         else Ok db
     | None \<Rightarrow>
         rbind (insert_checked (\<lambda>a b. or_id a = or_id b) (new_order i customer ref (ev_business_date e)) (db_orders db)) (\<lambda>t.
         rbind (order_change i None OrderPending (at_hour (ev_business_date e) 8) e None OnTime (db\<lparr>db_orders := t\<rparr>)) (\<lambda>db.
         add_line i (ev_business_date e) db))))))"

section \<open>Shipments\<close>

definition set_order_status :: "int \<Rightarrow> order_status \<Rightarrow> instant \<Rightarrow> ops_db \<Rightarrow> ops_db" where
  "set_order_status i st tm db =
     db\<lparr>db_orders := update_where (\<lambda>r. or_id r = i) (\<lambda>r. r\<lparr>or_status := st, or_updated := tm\<rparr>) (db_orders db)\<rparr>"

definition new_shipment :: "int \<Rightarrow> int \<Rightarrow> string \<Rightarrow> string \<Rightarrow> date \<Rightarrow> shipment" where
  "new_shipment i order warehouse carrier d =
     \<lparr>sh_id = i, sh_order = order, sh_warehouse = warehouse, sh_carrier = carrier, sh_service = ''STANDARD'', sh_date = d,
      sh_promised = d + 5, sh_delivered = None, sh_packages = 1, sh_weight = 5, sh_distance = 100, sh_freight = 20,
      sh_tracking = ''SIM-'' @ zero_pad 12 i, sh_created = at_hour d 8, sh_updated = at_hour d 17\<rparr>"

definition shipment_change ::
  "int \<Rightarrow> shipment_status option \<Rightarrow> shipment_status \<Rightarrow> instant \<Rightarrow> source_event \<Rightarrow> instant option \<Rightarrow> sla_status \<Rightarrow> ops_db \<Rightarrow> sim_error + ops_db" where
  "shipment_change i prev st tm e due sla db =
     rbind (insert_checked history_clash (change_row i prev st tm e due sla) (db_shipment_history db))
       (\<lambda>t. Ok (db\<lparr>db_shipment_history := t\<rparr>))"

definition apply_shipment :: "source_event \<Rightarrow> ops_db \<Rightarrow> sim_error + ops_db" where
  "apply_shipment e db =
     rbind (need_int ''shipment_id'' e) (\<lambda>i.
     rbind (need_int ''order_id'' e) (\<lambda>order.
     case lookup_by sh_id i (db_shipments db) of
       Some existing \<Rightarrow>
         if sh_order existing \<noteq> order then Err (RuntimeErr (''shipment ID collision for '' @ int_str i)) else Ok db
     | None \<Rightarrow>
         (case lookup_by or_id order (db_orders db) of
            None \<Rightarrow> Err (RuntimeErr (''shipment requires existing order '' @ int_str order))
          | Some header \<Rightarrow>
              (case (first_opt (sort (db_warehouses db)), first_opt (sort (db_carriers db))) of
                 (Some warehouse, Some carrier) \<Rightarrow>
                   (let d = ev_business_date e; tm = at_hour d 8 in
                    rbind (insert_checked (\<lambda>a b. sh_id a = sh_id b \<or> sh_order a = sh_order b)
                      (new_shipment i order warehouse carrier d) (db_shipments db)) (\<lambda>t.
                    rbind (shipment_change i None ShipmentShipped tm e None OnTime (db\<lparr>db_shipments := t\<rparr>)) (\<lambda>db.
                    if or_status header = OrderPending then
                      rbind (payload_date ''order_created_date'' (or_date header) e) (\<lambda>created.
                      rbind (order_change order (Some OrderPending) OrderShipped tm e (Some (at_hour (created + 5) 8))
                        (sla_of (d > created + 5)) db) (\<lambda>db.
                      Ok (set_order_status order OrderShipped tm db)))
                    else Ok db)))
               | _ \<Rightarrow> Err (RuntimeErr ''shipment requires a warehouse and carrier master record'')))))"

definition apply_delivery :: "source_event \<Rightarrow> ops_db \<Rightarrow> sim_error + ops_db" where
  "apply_delivery e db =
     rbind (need_int ''shipment_id'' e) (\<lambda>i.
     case lookup_by sh_id i (db_shipments db) of
       None \<Rightarrow> Err (RuntimeErr (''delivery requires shipment '' @ int_str i))
     | Some s \<Rightarrow>
         if sh_delivered s \<noteq> None then Ok db
         else
           (let d = ev_business_date e; tm = at_hour d 17 in
            shipment_change i (Some ShipmentShipped) ShipmentDelivered tm e (Some (at_hour (sh_promised s) 17))
              (sla_of (d > sh_promised s))
              (db\<lparr>db_shipments := update_where (\<lambda>r. sh_id r = i) (\<lambda>r. r\<lparr>sh_delivered := Some d, sh_updated := tm\<rparr>)
                 (db_shipments db)\<rparr>)))"

section \<open>Invoices\<close>

definition invoice_change ::
  "int \<Rightarrow> invoice_status option \<Rightarrow> invoice_status \<Rightarrow> instant \<Rightarrow> source_event \<Rightarrow> instant option \<Rightarrow> sla_status \<Rightarrow> ops_db \<Rightarrow> sim_error + ops_db" where
  "invoice_change i prev st tm e due sla db =
     rbind (insert_checked history_clash (change_row i prev st tm e due sla) (db_invoice_history db))
       (\<lambda>t. Ok (db\<lparr>db_invoice_history := t\<rparr>))"

definition order_amount :: "int \<Rightarrow> ops_db \<Rightarrow> int" where
  "order_amount order db = sum_list (map ol_amount (filter (\<lambda>l. ol_order l = order) (db_lines db)))"

definition new_invoice :: "int \<Rightarrow> int \<Rightarrow> string \<Rightarrow> int \<Rightarrow> date \<Rightarrow> ops_invoice" where
  "new_invoice i order currency amount d =
     \<lparr>in_id = i, in_number = ''OPS-'' @ zero_pad 12 order, in_order = order, in_date = d, in_currency = currency,
      in_amount = amount, in_status = InvoiceIssued, in_created = at_hour d 8, in_updated = at_hour d 8\<rparr>"

definition apply_invoice :: "source_event \<Rightarrow> ops_db \<Rightarrow> sim_error + ops_db" where
  "apply_invoice e db =
     rbind (need_int ''order_id'' e) (\<lambda>order.
     rbind (need_int ''shipment_id'' e) (\<lambda>shipment.
     if lookup_by in_order order (db_invoices db) \<noteq> None then Ok db
     else
       (case lookup_by or_id order (db_orders db) of
          None \<Rightarrow> Err (RuntimeErr (''invoice requires existing order '' @ int_str order))
        | Some header \<Rightarrow>
            (case lookup_by (\<lambda>s. (sh_id s, sh_order s)) (shipment, order) (db_shipments db) of
               None \<Rightarrow> Err (RuntimeErr (''invoice requires shipment '' @ int_str shipment @ '' for order '' @ int_str order))
             | Some s \<Rightarrow>
                 (let amount = order_amount order db; i = next_id in_id (db_invoices db); d = ev_business_date e;
                      tm = at_hour d 8 in
                  if amount \<le> 0 then Err (RuntimeErr (''invoice requires positive order amount for '' @ int_str order))
                  else
                    rbind (payload_date ''shipment_date'' (sh_date s) e) (\<lambda>shipped.
                    rbind (insert_checked (\<lambda>a b. in_id a = in_id b \<or> in_number a = in_number b \<or> in_order a = in_order b)
                      (new_invoice i order (or_currency header) amount d) (db_invoices db)) (\<lambda>t.
                    rbind (invoice_change i None InvoiceIssued tm e (Some (at_hour (shipped + 3) 8)) (sla_of (d > shipped + 3))
                      (db\<lparr>db_invoices := t\<rparr>)) (\<lambda>db.
                    if or_status header = OrderShipped then
                      rbind (order_change order (Some OrderShipped) OrderInvoiced tm e (Some (at_hour (shipped + 3) 8))
                        (sla_of (d > shipped + 3)) db) (\<lambda>db.
                      Ok (set_order_status order OrderInvoiced tm db))
                    else Ok db)))))))) "

section \<open>Support cases\<close>

definition case_change ::
  "int \<Rightarrow> case_status option \<Rightarrow> case_status \<Rightarrow> instant \<Rightarrow> source_event \<Rightarrow> instant option \<Rightarrow> sla_status \<Rightarrow> ops_db \<Rightarrow> sim_error + ops_db" where
  "case_change i prev st tm e due sla db =
     rbind (insert_checked history_clash (change_row i prev st tm e due sla) (db_case_history db))
       (\<lambda>t. Ok (db\<lparr>db_case_history := t\<rparr>))"

definition new_case :: "int \<Rightarrow> int \<Rightarrow> string \<Rightarrow> instant \<Rightarrow> support_case" where
  "new_case i customer priority tm =
     \<lparr>ca_id = i, ca_customer = customer, ca_type = ''Delivery Issue'', ca_priority = priority, ca_channel = ''Portal'',
      ca_opened = tm, ca_resolution = None, ca_status = CaseOpen, ca_csat = None, ca_region = ''NA-WEST'', ca_created = tm,
      ca_updated = tm\<rparr>"

definition apply_support_case :: "source_event \<Rightarrow> ops_db \<Rightarrow> sim_error + ops_db" where
  "apply_support_case e db =
     rbind (need_int ''case_id'' e) (\<lambda>i.
     if lookup_by ca_id i (db_cases db) \<noteq> None then Ok db
     else
       rbind (need_int ''order_id'' e) (\<lambda>order.
       case lookup_by or_id order (db_orders db) of
         None \<Rightarrow> Err (RuntimeErr (''support case requires order '' @ int_str order))
       | Some header \<Rightarrow>
           (let tm = at_hour (ev_business_date e) 9 in
            rbind (need_value ''priority'' e) (\<lambda>priority.
            rbind (insert_checked (\<lambda>a b. ca_id a = ca_id b) (new_case i (or_customer header) (scalar_str priority) tm)
              (db_cases db)) (\<lambda>t.
            case_change i None CaseOpen tm e (Some (at_hour (ev_business_date e + 3) 9)) OnTime (db\<lparr>db_cases := t\<rparr>))))))"

definition apply_support_resolution :: "source_event \<Rightarrow> ops_db \<Rightarrow> sim_error + ops_db" where
  "apply_support_resolution e db =
     rbind (need_int ''case_id'' e) (\<lambda>i.
     case lookup_by ca_id i (db_cases db) of
       None \<Rightarrow> Err (RuntimeErr (''support resolution requires case '' @ int_str i))
     | Some c \<Rightarrow>
         if ca_status c \<noteq> CaseOpen then Ok db
         else
           (let tm = at_hour (ev_business_date e) 17; due = ca_opened c + days 3 in
            case_change i (Some CaseOpen) CaseResolved tm e (Some due) (sla_of (tm > due))
              (db\<lparr>db_cases := update_where (\<lambda>r. ca_id r = i)
                 (\<lambda>r. r\<lparr>ca_status := CaseResolved, ca_resolution := Some (of_int (tm - ca_opened c) / 3600), ca_updated := tm\<rparr>)
                 (db_cases db)\<rparr>)))"

definition apply_support_closure :: "source_event \<Rightarrow> ops_db \<Rightarrow> sim_error + ops_db" where
  "apply_support_closure e db =
     rbind (need_int ''case_id'' e) (\<lambda>i.
     case lookup_by ca_id i (db_cases db) of
       None \<Rightarrow> Err (RuntimeErr (''support closure requires case '' @ int_str i))
     | Some c \<Rightarrow>
         if ca_status c \<noteq> CaseResolved then Ok db
         else
           (let tm = at_hour (ev_business_date e) 17 in
            case_change i (Some CaseResolved) CaseClosed tm e (Some tm) OnTime
              (db\<lparr>db_cases := update_where (\<lambda>r. ca_id r = i) (\<lambda>r. r\<lparr>ca_status := CaseClosed, ca_updated := tm\<rparr>)
                 (db_cases db)\<rparr>)))"

section \<open>The applier\<close>

definition event_priority :: "source_event \<Rightarrow> int" where
  "event_priority e =
     (case map_of [(''order_created'', 0), (''shipment_created'', 1), (''shipment_delivered'', 2), (''invoice_created'', 3),
        (''support_case_opened'', 4), (''support_case_resolved'', 5), (''support_case_closed'', 6)] (ev_type e) of
        Some p \<Rightarrow> p | None \<Rightarrow> 99)"

definition apply_event :: "source_event \<Rightarrow> ops_db \<Rightarrow> sim_error + ops_db" where
  "apply_event e db =
     (if ev_type e = ''order_created'' then apply_order e db
      else if ev_type e = ''shipment_created'' then apply_shipment e db
      else if ev_type e = ''shipment_delivered'' then apply_delivery e db
      else if ev_type e = ''invoice_created'' then apply_invoice e db
      else if ev_type e = ''support_case_opened'' then apply_support_case e db
      else if ev_type e = ''support_case_resolved'' then apply_support_resolution e db
      else if ev_type e = ''support_case_closed'' then apply_support_closure e db
      else Err (ValueErr (''unsupported Ops event type: '' @ ev_type e)))"

definition mark_event :: "source_event \<Rightarrow> ops_db \<Rightarrow> sim_error + ops_db" where
  "mark_event e db =
     rbind (insert_checked (\<lambda>a b. ae_id a = ae_id b) (marker_of e) (db_applied db)) (\<lambda>t. Ok (db\<lparr>db_applied := t\<rparr>))"

definition apply_one :: "nat \<times> ops_db \<Rightarrow> source_event \<Rightarrow> sim_error + (nat \<times> ops_db)" where
  "apply_one state e =
     (case state of (applied, db) \<Rightarrow>
        if ev_system e \<noteq> Ops then Err (ValueErr ''Ops applier supports only Ops events'')
        else if lookup_by ae_id (ev_id e) (db_applied db) \<noteq> None then Ok (applied, db)
        else rbind (apply_event e db) (\<lambda>db. rbind (mark_event e db) (\<lambda>db. Ok (Suc applied, db))))"

definition apply_order_key :: "source_event \<Rightarrow> int \<times> int" where
  "apply_order_key e = (ev_business_date e, event_priority e)"

definition apply_ops :: "source_event list \<Rightarrow> ops_db \<Rightarrow> sim_error + (nat \<times> ops_db)" where
  "apply_ops es db = rfold apply_one (0, db) (sort_key apply_order_key es)"

end
