(* ===== verification/OpsApplyProps.thy ===== *)
theory OpsApplyProps
  imports OpsApply
begin

text \<open>
  What the Ops applier keeps and does: keys stay unique and references resolve, every order,
  shipment, invoice and case has a status history that is an unbroken chain of legal transitions
  ending in its current status, applying events again changes nothing, and an applied event has
  left its business record.
\<close>

section \<open>Life cycles\<close>

fun chained :: "'st option \<Rightarrow> 'st status_change list \<Rightarrow> 'st option \<Rightarrow> bool" where
  "chained a [] b \<longleftrightarrow> a = b"
| "chained a (h # hs) b \<longleftrightarrow> hc_previous h = a \<and> chained (Some (hc_new h)) hs b"

lemma chained_snoc: "chained a (hs @ [h]) b \<longleftrightarrow> chained a hs (hc_previous h) \<and> b = Some (hc_new h)"
  by (induction hs arbitrary: a) auto

definition history_of :: "int \<Rightarrow> 'st status_change list \<Rightarrow> 'st status_change list" where
  "history_of i hs = filter (\<lambda>h. hc_entity h = i) hs"

lemma history_of_snoc: "history_of i (hs @ [h]) = (if hc_entity h = i then history_of i hs @ [h] else history_of i hs)"
  by (simp add: history_of_def)

text \<open>
  A table and its history: unique keys, history only of present rows, legal changes only, and for
  each row a chain into its current status. A row from before the history was introduced starts
  its chain at the status it then had.
\<close>

definition life_ok :: "('r \<Rightarrow> int) \<Rightarrow> ('r \<Rightarrow> 'st) \<Rightarrow> ('st option \<Rightarrow> 'st \<Rightarrow> bool) \<Rightarrow> 'r list \<Rightarrow> 'st status_change list \<Rightarrow> bool" where
  "life_ok key status legal rows hist \<longleftrightarrow>
     distinct (map key rows) \<and> (\<forall>h \<in> set hist. hc_entity h \<in> key ` set rows \<and> legal (hc_previous h) (hc_new h))
     \<and> distinct (map hc_event hist)
     \<and> (\<forall>r \<in> set rows. \<exists>a. chained a (history_of (key r) hist) (Some (status r)))"

lemma life_create:
  assumes "life_ok key status legal rows hist" "key r \<notin> key ` set rows"
    and "hc_entity h = key r" "hc_previous h = None" "hc_new h = status r" "legal None (status r)"
    and "hc_event h \<notin> hc_event ` set hist"
  shows "life_ok key status legal (rows @ [r]) (hist @ [h])"
proof -
  have none: "history_of (key r) hist = []"
    using assms(1,2) unfolding life_ok_def history_of_def filter_empty_conv by metis
  have "\<exists>a. chained a (history_of (key x) (hist @ [h])) (Some (status x))" if "x \<in> set (rows @ [r])" for x
  proof (cases "key x = key r")
    case True
    have "x \<in> set rows \<or> x = r" using that by auto
    then have "x = r" using True assms(2) by (metis imageI)
    moreover have "chained None (history_of (key r) (hist @ [h])) (Some (status r))"
      by (simp add: history_of_snoc none assms(3-5))
    ultimately show ?thesis by blast
  next
    case False
    then have "x \<in> set rows" using that by auto
    then show ?thesis using assms(1,3) False by (simp add: life_ok_def history_of_snoc)
  qed
  then show ?thesis using assms by (auto simp: life_ok_def)
qed

lemma life_move:
  assumes "life_ok key status legal rows hist" "r \<in> set rows" "hc_entity h = key r" "hc_previous h = Some (status r)"
    and "hc_new h = b" "legal (Some (status r)) b" "hc_event h \<notin> hc_event ` set hist"
    and "\<And>x. key (f x) = key x" "\<And>x. status (f x) = b"
  shows "life_ok key status legal (update_where (\<lambda>x. key x = key r) f rows) (hist @ [h])"
proof -
  let ?rows = "update_where (\<lambda>x. key x = key r) f rows"
  have keys: "map key ?rows = map key rows" by (simp add: update_where_def assms(8))
  have ids: "key ` set ?rows = key ` set rows" using arg_cong [OF keys, of set] by simp
  have "\<exists>a. chained a (history_of (key x) (hist @ [h])) (Some (status x))" if row: "x \<in> set ?rows" for x
  proof -
    obtain y where y: "y \<in> set rows" "x = (if key y = key r then f y else y)" 
      using row unfolding update_where_def set_map by blast
    show ?thesis
    proof (cases "key y = key r")
      case True
      then have "y = r" using y(1) assms(1,2) by (auto simp: life_ok_def distinct_map inj_on_def)
      moreover obtain a where "chained a (history_of (key r) hist) (Some (status r))"
        using assms(1,2) by (auto simp: life_ok_def)
      ultimately have "chained a (history_of (key x) (hist @ [h])) (Some (status x))"
        using y(2) True by (simp add: history_of_snoc chained_snoc assms(3-5,8,9))
      then show ?thesis by blast
    next
      case False
      then show ?thesis using assms(1) y by (auto simp: life_ok_def history_of_snoc assms(3))
    qed
  qed
  moreover have "distinct (map hc_event (hist @ [h]))" using assms(1,7) by (simp add: life_ok_def)
  moreover have "\<forall>h' \<in> set (hist @ [h]). hc_entity h' \<in> key ` set ?rows \<and> legal (hc_previous h') (hc_new h')"
    using assms(1-6) by (auto simp: life_ok_def ids)
  moreover have "distinct (map key ?rows)" using assms(1) by (simp add: life_ok_def keys)
  ultimately show ?thesis by (simp add: life_ok_def)
qed

lemma change_row_simps [simp]:
  "hc_entity (change_row i prev st tm e due sla) = i" "hc_previous (change_row i prev st tm e due sla) = prev"
  "hc_new (change_row i prev st tm e due sla) = st" "hc_event (change_row i prev st tm e due sla) = ev_id e"
  "hc_occurred (change_row i prev st tm e due sla) = tm" "hc_due (change_row i prev st tm e due sla) = due"
  "hc_sla (change_row i prev st tm e due sla) = sla"
  by (simp_all add: change_row_def)

lemma history_fresh: "(\<forall>x \<in> set hist. \<not> history_clash (change_row i p st tm e due sla) x) \<longleftrightarrow> ev_id e \<notin> hc_event ` set hist"
  by (auto simp: history_clash_def)

section \<open>The invariant\<close>

definition order_legal :: "order_status option \<Rightarrow> order_status \<Rightarrow> bool" where
  "order_legal a b \<longleftrightarrow> (a, b) \<in> {(None, OrderPending), (Some OrderPending, OrderShipped), (Some OrderPending, OrderCancelled),
     (Some OrderShipped, OrderInvoiced), (Some OrderShipped, OrderCancelled)}"

definition shipment_legal :: "shipment_status option \<Rightarrow> shipment_status \<Rightarrow> bool" where
  "shipment_legal a b \<longleftrightarrow> (a, b) \<in> {(None, ShipmentShipped), (Some ShipmentShipped, ShipmentDelivered)}"

definition shipment_state :: "shipment \<Rightarrow> shipment_status" where
  "shipment_state s = (if sh_delivered s = None then ShipmentShipped else ShipmentDelivered)"

definition invoice_legal :: "invoice_status option \<Rightarrow> invoice_status \<Rightarrow> bool" where
  "invoice_legal a b \<longleftrightarrow> (a, b) \<in> {(None, InvoiceIssued), (Some InvoiceIssued, InvoiceVoid)}"

definition case_legal :: "case_status option \<Rightarrow> case_status \<Rightarrow> bool" where
  "case_legal a b \<longleftrightarrow> (a, b) \<in> {(None, CaseOpen), (Some CaseOpen, CaseResolved), (Some CaseResolved, CaseClosed)}"

definition ops_lives :: "ops_db \<Rightarrow> bool" where
  "ops_lives db \<longleftrightarrow> life_ok or_id or_status order_legal (db_orders db) (db_order_history db)
     \<and> life_ok sh_id shipment_state shipment_legal (db_shipments db) (db_shipment_history db)
     \<and> life_ok in_id in_status invoice_legal (db_invoices db) (db_invoice_history db)
     \<and> life_ok ca_id ca_status case_legal (db_cases db) (db_case_history db)"

definition ops_refs :: "ops_db \<Rightarrow> bool" where
  "ops_refs db \<longleftrightarrow> distinct (map cu_id (db_customers db)) \<and> distinct (map ol_id (db_lines db))
     \<and> distinct (map sh_order (db_shipments db)) \<and> distinct (map in_order (db_invoices db))
     \<and> distinct (map ae_id (db_applied db))
     \<and> or_customer ` set (db_orders db) \<subseteq> cu_id ` set (db_customers db)
     \<and> ol_order ` set (db_lines db) \<subseteq> or_id ` set (db_orders db)
     \<and> sh_order ` set (db_shipments db) \<subseteq> or_id ` set (db_orders db)
     \<and> in_order ` set (db_invoices db) \<subseteq> sh_order ` set (db_shipments db)
     \<and> ca_customer ` set (db_cases db) \<subseteq> cu_id ` set (db_customers db)"

definition ops_wf :: "ops_db \<Rightarrow> bool" where
  "ops_wf db \<longleftrightarrow> ops_lives db \<and> ops_refs db"

section \<open>What each event does\<close>

lemma change_facts:
  "order_change i p st tm e due sla db = Inr u \<longleftrightarrow> ev_id e \<notin> hc_event ` set (db_order_history db)
     \<and> u = db\<lparr>db_order_history := db_order_history db @ [change_row i p st tm e due sla]\<rparr>"
  "shipment_change i p' st' tm e due sla db = Inr u \<longleftrightarrow> ev_id e \<notin> hc_event ` set (db_shipment_history db)
     \<and> u = db\<lparr>db_shipment_history := db_shipment_history db @ [change_row i p' st' tm e due sla]\<rparr>"
  "invoice_change i p'' st'' tm e due sla db = Inr u \<longleftrightarrow> ev_id e \<notin> hc_event ` set (db_invoice_history db)
     \<and> u = db\<lparr>db_invoice_history := db_invoice_history db @ [change_row i p'' st'' tm e due sla]\<rparr>"
  "case_change i p3 st3 tm e due sla db = Inr u \<longleftrightarrow> ev_id e \<notin> hc_event ` set (db_case_history db)
     \<and> u = db\<lparr>db_case_history := db_case_history db @ [change_row i p3 st3 tm e due sla]\<rparr>"
  unfolding order_change_def shipment_change_def invoice_change_def case_change_def rbind_eq_Inr insert_checked_Inr history_fresh
  by auto

lemma ensure_customer_Inr:
  assumes "ensure_customer i d db = Ok u"
  obtains cs where "u = db\<lparr>db_customers := cs\<rparr>" "i \<in> cu_id ` set cs" "set (db_customers db) \<subseteq> set cs"
    "distinct (map cu_id (db_customers db)) \<longrightarrow> distinct (map cu_id cs)"
proof (cases "lookup_by cu_id i (db_customers db)")
  case None
  then have u: "u = db\<lparr>db_customers := db_customers db @ [new_customer i d]\<rparr>" and "i \<notin> cu_id ` set (db_customers db)"
    using assms by (auto simp: ensure_customer_def rbind_eq_Inr lookup_by_None)
  then show thesis using that [OF u] by (auto simp: new_customer_def)
next
  case (Some c)
  then have "u = db\<lparr>db_customers := db_customers db\<rparr>" using assms by (simp add: ensure_customer_def)
  moreover have "i \<in> cu_id ` set (db_customers db)" using lookup_by_Some [OF Some] by auto
  ultimately show thesis using that by blast
qed

lemma add_line_Inr:
  assumes "add_line i d db = Ok u"
  obtains p where "p \<in> set (db_products db)"
    "u = db\<lparr>db_lines := db_lines db @ [new_line (next_id ol_id (db_lines db)) i p d]\<rparr>"
proof (cases "first_opt (sort_key pr_id (db_products db))")
  case (Some p)
  then have "p \<in> set (db_products db)" using first_opt_Some_in by fastforce
  moreover have "u = db\<lparr>db_lines := db_lines db @ [new_line (next_id ol_id (db_lines db)) i p d]\<rparr>"
    using assms Some by (auto simp: add_line_def rbind_eq_Inr)
  ultimately show thesis using that by blast
qed (use assms in \<open>simp add: add_line_def\<close>)

lemma apply_order_Inr:
  assumes "apply_order e db = Ok u"
  obtains (known) i cs where "need_int ''order_id'' e = Ok i" "i \<in> or_id ` set (db_orders db)" "u = db\<lparr>db_customers := cs\<rparr>"
      "set (db_customers db) \<subseteq> set cs" "distinct (map cu_id (db_customers db)) \<longrightarrow> distinct (map cu_id cs)"
  | (created) i c ref cs p where "need_int ''order_id'' e = Ok i" "i \<notin> or_id ` set (db_orders db)"
      "c \<in> cu_id ` set cs" "set (db_customers db) \<subseteq> set cs" "distinct (map cu_id (db_customers db)) \<longrightarrow> distinct (map cu_id cs)"
      "ev_id e \<notin> hc_event ` set (db_order_history db)" "p \<in> set (db_products db)"
      "u = db\<lparr>db_customers := cs, db_orders := db_orders db @ [new_order i c ref (ev_business_date e)],
         db_order_history := db_order_history db @ [change_row i None OrderPending (at_hour (ev_business_date e) 8) e None OnTime],
         db_lines := db_lines db @ [new_line (next_id ol_id (db_lines db)) i p (ev_business_date e)]\<rparr>"
proof -
  let ?d = "ev_business_date e"
  obtain c i db1 ref where s: "need_int ''order_id'' e = Ok i" "ensure_customer c ?d db = Ok db1"
    and r: "(case lookup_by or_id i (db_orders db1) of
       Some existing \<Rightarrow>
         if \<not> same_ref (or_opportunity existing) ref then Err (RuntimeErr (''order ID collision for '' @ int_str i)) else Ok db1
     | None \<Rightarrow>
         rbind (insert_checked (\<lambda>a b. or_id a = or_id b) (new_order i c ref ?d) (db_orders db1)) (\<lambda>t.
         rbind (order_change i None OrderPending (at_hour ?d 8) e None OnTime (db1\<lparr>db_orders := t\<rparr>)) (\<lambda>db.
         add_line i ?d db))) = Ok u"
    using assms unfolding apply_order_def rbind_eq_Inr by blast
  obtain cs where cs: "db1 = db\<lparr>db_customers := cs\<rparr>" "c \<in> cu_id ` set cs" "set (db_customers db) \<subseteq> set cs"
    "distinct (map cu_id (db_customers db)) \<longrightarrow> distinct (map cu_id cs)"
    using ensure_customer_Inr [OF s(2)] by blast
  show thesis
  proof (cases "lookup_by or_id i (db_orders db)")
    case (Some x)
    then have "u = db1" using r by (simp add: cs(1) split: if_splits)
    moreover have "i \<in> or_id ` set (db_orders db)" using lookup_by_Some [OF Some] by auto
    ultimately show thesis using known [OF s(1)] cs by blast
  next
    case None
    then have i: "i \<notin> or_id ` set (db_orders db)" by (simp add: lookup_by_None)
    let ?db2 = "db1\<lparr>db_orders := db_orders db @ [new_order i c ref ?d]\<rparr>"
    let ?db3 = "?db2\<lparr>db_order_history := db_order_history db @ [change_row i None OrderPending (at_hour ?d 8) e None OnTime]\<rparr>"
    have "ev_id e \<notin> hc_event ` set (db_order_history db)" and a: "add_line i ?d ?db3 = Ok u"
      using r None by (auto simp: cs(1) rbind_eq_Inr change_facts)
    moreover obtain p where "p \<in> set (db_products db)"
      "u = ?db3\<lparr>db_lines := db_lines db @ [new_line (next_id ol_id (db_lines db)) i p ?d]\<rparr>"
      using add_line_Inr [OF a] by (auto simp: cs(1))
    ultimately show thesis using created [OF s(1) i cs(2-4)] by (simp add: cs(1))
  qed
qed

lemma apply_shipment_Inr:
  assumes "apply_shipment e db = Ok u"
  obtains (known) i where "need_int ''shipment_id'' e = Ok i" "i \<in> sh_id ` set (db_shipments db)" "u = db"
  | (created) i order header w c where "need_int ''shipment_id'' e = Ok i" "i \<notin> sh_id ` set (db_shipments db)"
      "header \<in> set (db_orders db)" "or_id header = order" "order \<notin> sh_order ` set (db_shipments db)"
      "ev_id e \<notin> hc_event ` set (db_shipment_history db)" "or_status header \<noteq> OrderPending"
      "u = db\<lparr>db_shipments := db_shipments db @ [new_shipment i order w c (ev_business_date e)],
         db_shipment_history := db_shipment_history db @ [change_row i None ShipmentShipped (at_hour (ev_business_date e) 8) e None OnTime]\<rparr>"
  | (shipped) i order header w c created where "need_int ''shipment_id'' e = Ok i" "i \<notin> sh_id ` set (db_shipments db)"
      "header \<in> set (db_orders db)" "or_id header = order" "order \<notin> sh_order ` set (db_shipments db)"
      "ev_id e \<notin> hc_event ` set (db_shipment_history db)" "or_status header = OrderPending"
      "ev_id e \<notin> hc_event ` set (db_order_history db)"
      "u = set_order_status order OrderShipped (at_hour (ev_business_date e) 8)
        (db\<lparr>db_shipments := db_shipments db @ [new_shipment i order w c (ev_business_date e)],
         db_shipment_history := db_shipment_history db @ [change_row i None ShipmentShipped (at_hour (ev_business_date e) 8) e None OnTime],
         db_order_history := db_order_history db @ [change_row order (Some OrderPending) OrderShipped (at_hour (ev_business_date e) 8) e
           (Some (at_hour (created + 5) 8)) (sla_of (ev_business_date e > created + 5))]\<rparr>)"
proof -
  obtain i order where s: "need_int ''shipment_id'' e = Ok i" "need_int ''order_id'' e = Ok order"
    using assms unfolding apply_shipment_def rbind_eq_Inr by blast
  show thesis
  proof (cases "lookup_by sh_id i (db_shipments db)")
    case (Some x)
    then have "u = db" using assms s by (simp add: apply_shipment_def split: if_splits)
    moreover have "i \<in> sh_id ` set (db_shipments db)" using lookup_by_Some [OF Some] by auto
    ultimately show thesis using known [OF s(1)] by blast
  next
    case None
    then obtain header w c where h: "lookup_by or_id order (db_orders db) = Some header"
      "first_opt (sort (db_warehouses db)) = Some w" "first_opt (sort (db_carriers db)) = Some c"
      using assms s by (auto simp: apply_shipment_def split: option.splits)
    have i: "i \<notin> sh_id ` set (db_shipments db)" using None by (simp add: lookup_by_None)
    have hd: "header \<in> set (db_orders db)" "or_id header = order" using lookup_by_Some [OF h(1)] by blast+
    let ?d = "ev_business_date e"
    let ?ss = "db_shipments db @ [new_shipment i order w c ?d]"
    let ?sh = "db_shipment_history db @ [change_row i None ShipmentShipped (at_hour ?d 8) e None OnTime]"
    have r: "order \<notin> sh_order ` set (db_shipments db)" "ev_id e \<notin> hc_event ` set (db_shipment_history db)"
      "(if or_status header = OrderPending then
                      rbind (payload_date ''order_created_date'' (or_date header) e) (\<lambda>created.
                      rbind (order_change order (Some OrderPending) OrderShipped (at_hour ?d 8) e (Some (at_hour (created + 5) 8))
                        (sla_of (?d > created + 5)) (db\<lparr>db_shipments := ?ss, db_shipment_history := ?sh\<rparr>)) (\<lambda>db.
                      Ok (set_order_status order OrderShipped (at_hour ?d 8) db)))
                    else Ok (db\<lparr>db_shipments := ?ss, db_shipment_history := ?sh\<rparr>)) = Ok u"
      using assms s None h by (auto simp: apply_shipment_def rbind_eq_Inr Let_def change_facts new_shipment_def)
    show thesis
    proof (cases "or_status header = OrderPending")
      case True
      then obtain created where "ev_id e \<notin> hc_event ` set (db_order_history db)"
        "u = set_order_status order OrderShipped (at_hour ?d 8) (db\<lparr>db_shipments := ?ss, db_shipment_history := ?sh,
         db_order_history := db_order_history db @ [change_row order (Some OrderPending) OrderShipped (at_hour ?d 8) e
           (Some (at_hour (created + 5) 8)) (sla_of (?d > created + 5))]\<rparr>)"
        using r(3) by (auto simp: rbind_eq_Inr change_facts)
      then show thesis using shipped [OF s(1) i hd r(1,2) True] by blast
    next
      case False
      then show thesis using created [OF s(1) i hd r(1,2) False, of w c] r(3) by simp
    qed
  qed
qed

lemma apply_delivery_Inr:
  assumes "apply_delivery e db = Ok u"
  obtains (known) i s where "need_int ''shipment_id'' e = Ok i" "s \<in> set (db_shipments db)" "sh_id s = i"
      "sh_delivered s \<noteq> None" "u = db"
  | (delivered) i s where "need_int ''shipment_id'' e = Ok i" "s \<in> set (db_shipments db)" "sh_id s = i"
      "sh_delivered s = None" "ev_id e \<notin> hc_event ` set (db_shipment_history db)"
      "u = db\<lparr>db_shipments := update_where (\<lambda>r. sh_id r = i) (\<lambda>r. r\<lparr>sh_delivered := Some (ev_business_date e),
           sh_updated := at_hour (ev_business_date e) 17\<rparr>) (db_shipments db),
         db_shipment_history := db_shipment_history db @ [change_row i (Some ShipmentShipped) ShipmentDelivered
           (at_hour (ev_business_date e) 17) e (Some (at_hour (sh_promised s) 17)) (sla_of (ev_business_date e > sh_promised s))]\<rparr>"
proof -
  obtain i where i: "need_int ''shipment_id'' e = Ok i"
    using assms unfolding apply_delivery_def rbind_eq_Inr by blast
  obtain s where s: "lookup_by sh_id i (db_shipments db) = Some s"
    using assms i by (auto simp: apply_delivery_def split: option.splits)
  have k: "s \<in> set (db_shipments db)" "sh_id s = i" using lookup_by_Some [OF s] by blast+
  show thesis
  proof (cases "sh_delivered s")
    case None
    then show thesis using delivered [OF i k None] assms i s by (simp add: apply_delivery_def Let_def change_facts)
  next
    case (Some d)
    then show thesis using known [OF i k] assms i s by (simp add: apply_delivery_def)
  qed
qed

lemma apply_invoice_Inr:
  assumes "apply_invoice e db = Ok u"
  obtains (known) order where "need_int ''order_id'' e = Ok order" "order \<in> in_order ` set (db_invoices db)" "u = db"
  | (created) order header s due late where "need_int ''order_id'' e = Ok order" "order \<notin> in_order ` set (db_invoices db)"
      "header \<in> set (db_orders db)" "or_id header = order" "s \<in> set (db_shipments db)" "sh_order s = order"
      "0 < order_amount order db" "ev_id e \<notin> hc_event ` set (db_invoice_history db)" "or_status header \<noteq> OrderShipped"
      "u = db\<lparr>db_invoices := db_invoices db @ [new_invoice (next_id in_id (db_invoices db)) order (or_currency header)
           (order_amount order db) (ev_business_date e)],
         db_invoice_history := db_invoice_history db @ [change_row (next_id in_id (db_invoices db)) None InvoiceIssued
           (at_hour (ev_business_date e) 8) e due late]\<rparr>"
  | (invoiced) order header s due late where "need_int ''order_id'' e = Ok order" "order \<notin> in_order ` set (db_invoices db)"
      "header \<in> set (db_orders db)" "or_id header = order" "s \<in> set (db_shipments db)" "sh_order s = order"
      "0 < order_amount order db" "ev_id e \<notin> hc_event ` set (db_invoice_history db)" "or_status header = OrderShipped"
      "ev_id e \<notin> hc_event ` set (db_order_history db)"
      "u = set_order_status order OrderInvoiced (at_hour (ev_business_date e) 8)
        (db\<lparr>db_invoices := db_invoices db @ [new_invoice (next_id in_id (db_invoices db)) order (or_currency header)
           (order_amount order db) (ev_business_date e)],
         db_invoice_history := db_invoice_history db @ [change_row (next_id in_id (db_invoices db)) None InvoiceIssued
           (at_hour (ev_business_date e) 8) e due late],
         db_order_history := db_order_history db @ [change_row order (Some OrderShipped) OrderInvoiced
           (at_hour (ev_business_date e) 8) e due late]\<rparr>)"
proof -
  obtain order sid where s: "need_int ''order_id'' e = Ok order" "need_int ''shipment_id'' e = Ok sid"
    using assms unfolding apply_invoice_def rbind_eq_Inr by blast
  show thesis
  proof (cases "lookup_by in_order order (db_invoices db)")
    case (Some x)
    then have "u = db" using assms s by (simp add: apply_invoice_def)
    moreover have "order \<in> in_order ` set (db_invoices db)" using lookup_by_Some [OF Some] by auto
    ultimately show thesis using known [OF s(1)] by blast
  next
    case None
    then obtain header sh where h: "lookup_by or_id order (db_orders db) = Some header"
      "lookup_by (\<lambda>s. (sh_id s, sh_order s)) (sid, order) (db_shipments db) = Some sh"
      using assms s by (auto simp: apply_invoice_def split: option.splits)
    have i: "order \<notin> in_order ` set (db_invoices db)" using None by (simp add: lookup_by_None)
    have hd: "header \<in> set (db_orders db)" "or_id header = order" using lookup_by_Some [OF h(1)] by blast+
    have sh: "sh \<in> set (db_shipments db)" "sh_order sh = order" using lookup_by_Some [OF h(2)] by simp_all
    let ?d = "ev_business_date e"
    let ?n = "next_id in_id (db_invoices db)"
    let ?ii = "db_invoices db @ [new_invoice ?n order (or_currency header) (order_amount order db) ?d]"
    have amount: "0 < order_amount order db"
      using assms s None h by (auto simp: apply_invoice_def Let_def split: if_splits)
    obtain shipped where r: "ev_id e \<notin> hc_event ` set (db_invoice_history db)"
      "(if or_status header = OrderShipped then
          rbind (order_change order (Some OrderShipped) OrderInvoiced (at_hour ?d 8) e (Some (at_hour (shipped + 3) 8))
            (sla_of (?d > shipped + 3)) (db\<lparr>db_invoices := ?ii, db_invoice_history := db_invoice_history db
               @ [change_row ?n None InvoiceIssued (at_hour ?d 8) e (Some (at_hour (shipped + 3) 8)) (sla_of (?d > shipped + 3))]\<rparr>)) (\<lambda>db.
          Ok (set_order_status order OrderInvoiced (at_hour ?d 8) db))
        else Ok (db\<lparr>db_invoices := ?ii, db_invoice_history := db_invoice_history db
               @ [change_row ?n None InvoiceIssued (at_hour ?d 8) e (Some (at_hour (shipped + 3) 8)) (sla_of (?d > shipped + 3))]\<rparr>)) = Ok u"
      using assms s None h amount by (auto simp: apply_invoice_def rbind_eq_Inr Let_def change_facts)
    show thesis
    proof (cases "or_status header = OrderShipped")
      case True
      then show thesis using invoiced [OF s(1) i hd sh amount r(1) True] r(2) by (auto simp: rbind_eq_Inr change_facts)
    next
      case False
      then show thesis using created [OF s(1) i hd sh amount r(1) False,
          of "Some (at_hour (shipped + 3) 8)" "sla_of (?d > shipped + 3)"] r(2) by simp
    qed
  qed
qed

lemma apply_support_case_Inr:
  assumes "apply_support_case e db = Ok u"
  obtains (known) i where "need_int ''case_id'' e = Ok i" "i \<in> ca_id ` set (db_cases db)" "u = db"
  | (opened) i header priority due where "need_int ''case_id'' e = Ok i" "i \<notin> ca_id ` set (db_cases db)"
      "header \<in> set (db_orders db)" "ev_id e \<notin> hc_event ` set (db_case_history db)"
      "u = db\<lparr>db_cases := db_cases db @ [new_case i (or_customer header) priority (at_hour (ev_business_date e) 9)],
         db_case_history := db_case_history db @ [change_row i None CaseOpen (at_hour (ev_business_date e) 9) e due OnTime]\<rparr>"
proof -
  obtain i where s: "need_int ''case_id'' e = Ok i"
    using assms unfolding apply_support_case_def rbind_eq_Inr by blast
  show thesis
  proof (cases "lookup_by ca_id i (db_cases db)")
    case (Some x)
    then have "u = db" using assms s by (simp add: apply_support_case_def)
    moreover have "i \<in> ca_id ` set (db_cases db)" using lookup_by_Some [OF Some] by auto
    ultimately show thesis using known [OF s] by blast
  next
    case None
    then have i: "i \<notin> ca_id ` set (db_cases db)" by (simp add: lookup_by_None)
    obtain order header where h: "need_int ''order_id'' e = Ok order" "lookup_by or_id order (db_orders db) = Some header"
      using assms s None by (auto simp: apply_support_case_def rbind_eq_Inr split: option.splits)
    have hd: "header \<in> set (db_orders db)" using lookup_by_Some [OF h(2)] by blast
    show thesis using opened [OF s i hd] assms s None h
      by (auto simp: apply_support_case_def rbind_eq_Inr Let_def change_facts)
  qed
qed

lemma case_step_Inr:
  assumes "apply_support_resolution e db = Ok u \<and> a = CaseOpen \<and> b = CaseResolved
    \<or> apply_support_closure e db = Ok u \<and> a = CaseResolved \<and> b = CaseClosed"
  obtains (idle) "u = db"
  | (moved) i c f tm due sla where "c \<in> set (db_cases db)" "ca_id c = i" "ca_status c = a"
      "ev_id e \<notin> hc_event ` set (db_case_history db)" "\<And>x. ca_id (f x) = ca_id x" "\<And>x. ca_status (f x) = b"
      "\<And>x. ca_customer (f x) = ca_customer x"
      "u = db\<lparr>db_cases := update_where (\<lambda>r. ca_id r = i) f (db_cases db),
         db_case_history := db_case_history db @ [change_row i (Some a) b tm e due sla]\<rparr>"
proof -
  obtain i where s: "need_int ''case_id'' e = Ok i"
    using assms unfolding apply_support_resolution_def apply_support_closure_def rbind_eq_Inr by blast
  obtain c where c: "lookup_by ca_id i (db_cases db) = Some c"
    using assms s by (auto simp: apply_support_resolution_def apply_support_closure_def split: option.splits)
  have k: "c \<in> set (db_cases db)" "ca_id c = i" using lookup_by_Some [OF c] by blast+
  show thesis
  proof (cases "ca_status c = a")
    case False
    then show thesis using idle assms s c
      by (auto simp: apply_support_resolution_def apply_support_closure_def split: if_splits)
  next
    case True
    from assms show thesis
    proof (elim disjE conjE)
      assume "apply_support_resolution e db = Ok u" and ab: "a = CaseOpen" "b = CaseResolved"
      then show thesis using s c True
        by (intro moved [OF k True, of "\<lambda>r. r\<lparr>ca_status := CaseResolved, ca_resolution :=
              Some (of_int (at_hour (ev_business_date e) 17 - ca_opened c) / 3600), ca_updated := at_hour (ev_business_date e) 17\<rparr>"])
          (auto simp: apply_support_resolution_def Let_def change_facts)
    next
      assume "apply_support_closure e db = Ok u" and ab: "a = CaseResolved" "b = CaseClosed"
      then show thesis using s c True
        by (intro moved [OF k True, of "\<lambda>r. r\<lparr>ca_status := CaseClosed, ca_updated := at_hour (ev_business_date e) 17\<rparr>"])
          (auto simp: apply_support_closure_def Let_def change_facts)
    qed
  qed
qed

section \<open>Preservation\<close>

lemma update_where_key:
  assumes "\<And>x. key (f x) = key x"
  shows "map key (update_where P f rows) = map key rows" "key ` set (update_where P f rows) = key ` set rows"
proof -
  show k: "map key (update_where P f rows) = map key rows" using assms by (simp add: update_where_def)
  show "key ` set (update_where P f rows) = key ` set rows" using arg_cong [OF k, of set] by simp
qed

lemma ops_wf_parts:
  assumes "ops_wf db"
  shows "life_ok or_id or_status order_legal (db_orders db) (db_order_history db)"
    "life_ok sh_id shipment_state shipment_legal (db_shipments db) (db_shipment_history db)"
    "life_ok in_id in_status invoice_legal (db_invoices db) (db_invoice_history db)"
    "life_ok ca_id ca_status case_legal (db_cases db) (db_case_history db)"
    "distinct (map cu_id (db_customers db))" "distinct (map ol_id (db_lines db))"
    "distinct (map sh_order (db_shipments db))" "distinct (map in_order (db_invoices db))" "distinct (map ae_id (db_applied db))"
    "or_customer ` set (db_orders db) \<subseteq> cu_id ` set (db_customers db)"
    "ol_order ` set (db_lines db) \<subseteq> or_id ` set (db_orders db)"
    "sh_order ` set (db_shipments db) \<subseteq> or_id ` set (db_orders db)"
    "in_order ` set (db_invoices db) \<subseteq> sh_order ` set (db_shipments db)"
    "ca_customer ` set (db_cases db) \<subseteq> cu_id ` set (db_customers db)"
  using assms unfolding ops_wf_def ops_lives_def ops_refs_def
  by - ((elim conjE)?, assumption)+

lemma ops_wfI:
  assumes "life_ok or_id or_status order_legal (db_orders u) (db_order_history u)"
    "life_ok sh_id shipment_state shipment_legal (db_shipments u) (db_shipment_history u)"
    "life_ok in_id in_status invoice_legal (db_invoices u) (db_invoice_history u)"
    "life_ok ca_id ca_status case_legal (db_cases u) (db_case_history u)"
    "ops_refs u"
  shows "ops_wf u"
  using assms by (simp add: ops_wf_def ops_lives_def)

definition delivered_ids :: "ops_db \<Rightarrow> int set" where
  "delivered_ids db = sh_id ` {s \<in> set (db_shipments db). sh_delivered s \<noteq> None}"

definition ops_grows :: "ops_db \<Rightarrow> ops_db \<Rightarrow> bool" where
  "ops_grows db u \<longleftrightarrow> or_id ` set (db_orders db) \<subseteq> or_id ` set (db_orders u)
     \<and> sh_id ` set (db_shipments db) \<subseteq> sh_id ` set (db_shipments u) \<and> delivered_ids db \<subseteq> delivered_ids u
     \<and> in_order ` set (db_invoices db) \<subseteq> in_order ` set (db_invoices u)
     \<and> ca_id ` set (db_cases db) \<subseteq> ca_id ` set (db_cases u)
     \<and> ae_id ` set (db_applied db) \<subseteq> ae_id ` set (db_applied u)"

lemma ops_grows_refl: "ops_grows db db"
  by (simp add: ops_grows_def)

lemma ops_grows_trans: "ops_grows a b \<Longrightarrow> ops_grows b c \<Longrightarrow> ops_grows a c"
  unfolding ops_grows_def by (meson subset_trans)

text \<open>The business record an event asks for.\<close>

definition names_in :: "string \<Rightarrow> source_event \<Rightarrow> int set \<Rightarrow> bool" where
  "names_in k e S \<longleftrightarrow> (case need_int k e of Err x \<Rightarrow> False | Ok i \<Rightarrow> i \<in> S)"

definition realised :: "source_event \<Rightarrow> ops_db \<Rightarrow> bool" where
  "realised e db \<longleftrightarrow>
     (ev_type e = ''order_created'' \<longrightarrow> names_in ''order_id'' e (or_id ` set (db_orders db)))
     \<and> (ev_type e = ''shipment_created'' \<longrightarrow> names_in ''shipment_id'' e (sh_id ` set (db_shipments db)))
     \<and> (ev_type e = ''shipment_delivered'' \<longrightarrow> names_in ''shipment_id'' e (delivered_ids db))
     \<and> (ev_type e = ''invoice_created'' \<longrightarrow> names_in ''order_id'' e (in_order ` set (db_invoices db)))
     \<and> (ev_type e = ''support_case_opened'' \<longrightarrow> names_in ''case_id'' e (ca_id ` set (db_cases db)))"

lemma names_in_mono: "names_in k e S \<Longrightarrow> S \<subseteq> T \<Longrightarrow> names_in k e T"
  by (auto simp: names_in_def split: sum.splits)

lemma realised_grows: "realised e db \<Longrightarrow> ops_grows db u \<Longrightarrow> realised e u"
  unfolding realised_def ops_grows_def by (elim conjE, intro conjI impI) (erule (1) impE, erule (1) names_in_mono)+

definition good_step :: "source_event \<Rightarrow> ops_db \<Rightarrow> ops_db \<Rightarrow> bool" where
  "good_step e db u \<longleftrightarrow> (ops_wf db \<longrightarrow> ops_wf u) \<and> ops_grows db u \<and> db_applied u = db_applied db"

lemma good_step_refl: "good_step e db db"
  by (simp add: good_step_def ops_grows_refl)

lemma order_step:
  assumes "apply_order e db = Ok u"
  shows "good_step e db u \<and> names_in ''order_id'' e (or_id ` set (db_orders u))"
  using assms
proof (cases rule: apply_order_Inr)
  case (known i cs)
  have sub: "cu_id ` set (db_customers db) \<subseteq> cu_id ` set cs" using known(4) by (rule image_mono)
  have "ops_wf u" if wf: "ops_wf db"
  proof -
    have "ops_refs u"
      using ops_wf_parts(5-9,11-13) [OF wf] known(5) subset_trans [OF ops_wf_parts(10) [OF wf] sub]
        subset_trans [OF ops_wf_parts(14) [OF wf] sub] unfolding known(3) ops_refs_def by simp
    then show ?thesis using ops_wf_parts(1-4) [OF wf] by (intro ops_wfI) (simp_all add: known(3))
  qed
  then show ?thesis using known by (simp add: good_step_def ops_grows_def delivered_ids_def names_in_def)
next
  case (created i c ref cs p)
  have keys: "or_id (new_order i c ref d) = i" "or_customer (new_order i c ref d) = c" "or_status (new_order i c ref d) = OrderPending"
    "ol_order (new_line n i p d) = i" "ol_id (new_line n i p d) = n" for d n
    by (simp_all add: new_order_def new_line_def)
  have sub: "cu_id ` set (db_customers db) \<subseteq> cu_id ` set cs" using created(4) by (rule image_mono)
  have "ops_wf u" if wf: "ops_wf db"
  proof -
    have "life_ok or_id or_status order_legal (db_orders u) (db_order_history u)"
      unfolding created(8)
      using life_create [OF ops_wf_parts(1) [OF wf], of "new_order i c ref (ev_business_date e)"] created(2,6)
      by (simp add: keys order_legal_def)
    moreover have "ops_refs u"
    proof -
      have "or_customer ` set (db_orders u) \<subseteq> cu_id ` set (db_customers u)"
        using ops_wf_parts(10) [OF wf] sub created(3) by (auto simp: created(8) keys)
      moreover have "ca_customer ` set (db_cases u) \<subseteq> cu_id ` set (db_customers u)"
        using ops_wf_parts(14) [OF wf] sub by (auto simp: created(8))
      moreover have "ol_order ` set (db_lines u) \<subseteq> or_id ` set (db_orders u)" "sh_order ` set (db_shipments u) \<subseteq> or_id ` set (db_orders u)"
        using ops_wf_parts(11,12) [OF wf] by (auto simp: created(8) keys)
      moreover have "distinct (map ol_id (db_lines u))"
        using ops_wf_parts(6) [OF wf] next_id_not_key [of ol_id "db_lines db"] by (simp add: created(8) keys)
      moreover have "distinct (map cu_id (db_customers u))" "distinct (map sh_order (db_shipments u))"
        "distinct (map in_order (db_invoices u))" "distinct (map ae_id (db_applied u))"
        "in_order ` set (db_invoices u) \<subseteq> sh_order ` set (db_shipments u)"
        using ops_wf_parts(5,7-9,13) [OF wf] created(5) by (simp_all add: created(8))
      ultimately show ?thesis unfolding ops_refs_def by blast
    qed
    ultimately show ?thesis using ops_wf_parts(2-4) [OF wf] by (intro ops_wfI) (simp_all add: created(8))
  qed
  moreover have "ops_grows db u" unfolding created(8) ops_grows_def delivered_ids_def by (simp add: subset_insertI)
  moreover have "db_applied u = db_applied db" "i \<in> or_id ` set (db_orders u)" by (simp_all add: created(8) keys)
  ultimately show ?thesis using created(1) by (simp add: good_step_def names_in_def)
qed

lemma shipment_step:
  assumes "apply_shipment e db = Ok u"
  shows "good_step e db u \<and> names_in ''shipment_id'' e (sh_id ` set (db_shipments u))"
  using assms
proof (cases rule: apply_shipment_Inr)
  case (known i)
  then show ?thesis using good_step_refl by (simp add: names_in_def)
next
  case (created i order header w c)
  have keys: "sh_id (new_shipment i order w c d) = i" "sh_order (new_shipment i order w c d) = order"
    "shipment_state (new_shipment i order w c d) = ShipmentShipped" for d by (simp_all add: new_shipment_def shipment_state_def)
  have "ops_wf u" if wf: "ops_wf db"
  proof -
    have "life_ok sh_id shipment_state shipment_legal (db_shipments u) (db_shipment_history u)"
      unfolding created(8)
      using life_create [OF ops_wf_parts(2) [OF wf], of "new_shipment i order w c (ev_business_date e)"] created(2,6)
      by (simp add: keys shipment_legal_def)
    moreover have "ops_refs u"
      using ops_wf_parts(5-14) [OF wf] created(3-5) unfolding created(8) ops_refs_def by (auto simp: keys)
    ultimately show ?thesis using ops_wf_parts(1,3,4) [OF wf] by (intro ops_wfI) (simp_all add: created(8))
  qed
  moreover have "ops_grows db u" unfolding created(8) ops_grows_def delivered_ids_def by auto
  moreover have "db_applied u = db_applied db" "i \<in> sh_id ` set (db_shipments u)" by (simp_all add: created(8) keys)
  ultimately show ?thesis using created(1) by (simp add: good_step_def names_in_def)
next
  case (shipped i order header w c created)
  have keys: "sh_id (new_shipment i order w c d) = i" "sh_order (new_shipment i order w c d) = order"
    "shipment_state (new_shipment i order w c d) = ShipmentShipped" for d by (simp_all add: new_shipment_def shipment_state_def)
  note u = shipped(9) [unfolded set_order_status_def]
  have ids: "or_id ` set (db_orders u) = or_id ` set (db_orders db)" "or_customer ` set (db_orders u) = or_customer ` set (db_orders db)"
    unfolding u by (simp_all add: update_where_key)
  have "ops_wf u" if wf: "ops_wf db"
  proof -
    have "life_ok sh_id shipment_state shipment_legal (db_shipments u) (db_shipment_history u)"
      unfolding u
      using life_create [OF ops_wf_parts(2) [OF wf], of "new_shipment i order w c (ev_business_date e)"] shipped(2,6)
      by (simp add: keys shipment_legal_def)
    moreover have "life_ok or_id or_status order_legal (db_orders u) (db_order_history u)"
      unfolding u
      using life_move [OF ops_wf_parts(1) [OF wf] shipped(3)] shipped(4,7,8) by (simp add: order_legal_def)
    moreover have "ops_refs u"
      using ops_wf_parts(5-14) [OF wf] shipped(3-5) unfolding ops_refs_def ids by (auto simp: u keys)
    ultimately show ?thesis using ops_wf_parts(3,4) [OF wf] by (intro ops_wfI) (simp_all add: u)
  qed
  moreover have "ops_grows db u" unfolding ops_grows_def ids delivered_ids_def by (auto simp: u)
  moreover have "db_applied u = db_applied db" "i \<in> sh_id ` set (db_shipments u)" by (simp_all add: u keys)
  ultimately show ?thesis using shipped(1) by (simp add: good_step_def names_in_def)
qed

lemma delivery_step:
  assumes "apply_delivery e db = Ok u"
  shows "good_step e db u \<and> (ops_wf db \<longrightarrow> names_in ''shipment_id'' e (delivered_ids u))"
  using assms
proof (cases rule: apply_delivery_Inr)
  case (known i s)
  then have "i \<in> delivered_ids u" by (auto simp: delivered_ids_def)
  then show ?thesis using known good_step_refl by (simp add: names_in_def)
next
  case (delivered i s)
  note u = delivered(6)
  have ids: "sh_id ` set (db_shipments u) = sh_id ` set (db_shipments db)" "sh_order ` set (db_shipments u) = sh_order ` set (db_shipments db)"
    "map sh_order (db_shipments u) = map sh_order (db_shipments db)" unfolding u by (simp_all add: update_where_key)
  have "ops_wf u" if wf: "ops_wf db"
  proof -
    have "life_ok sh_id shipment_state shipment_legal (db_shipments u) (db_shipment_history u)"
      unfolding u
      using life_move [OF ops_wf_parts(2) [OF wf] delivered(2)] delivered(3-5)
      by (simp add: shipment_legal_def shipment_state_def)
    moreover have "ops_refs u" using ops_wf_parts(5-14) [OF wf] unfolding ops_refs_def ids by (simp add: u)
    ultimately show ?thesis using ops_wf_parts(1,3,4) [OF wf] by (intro ops_wfI) (simp_all add: u)
  qed
  moreover have more: "delivered_ids db \<subseteq> delivered_ids u"
  proof
    fix x
    assume "x \<in> delivered_ids db"
    then obtain t where t: "t \<in> set (db_shipments db)" "sh_id t = x" "sh_delivered t \<noteq> None" by (auto simp: delivered_ids_def)
    let ?t = "if sh_id t = i then t\<lparr>sh_delivered := Some (ev_business_date e), sh_updated := at_hour (ev_business_date e) 17\<rparr> else t"
    have "?t \<in> set (db_shipments u)" "sh_id ?t = x" "sh_delivered ?t \<noteq> None" using t by (auto simp: u update_where_def)
    then show "x \<in> delivered_ids u" unfolding delivered_ids_def by blast
  qed
  moreover have "i \<in> delivered_ids u"
  proof -
    let ?t = "s\<lparr>sh_delivered := Some (ev_business_date e), sh_updated := at_hour (ev_business_date e) 17\<rparr>"
    have "?t \<in> set (db_shipments u)" using delivered(2,3) by (force simp: u update_where_def)
    moreover have "sh_id ?t = i" "sh_delivered ?t \<noteq> None" using delivered(3) by simp_all
    ultimately show ?thesis unfolding delivered_ids_def by blast
  qed
  moreover have "ops_grows db u" using more unfolding ops_grows_def ids by (simp add: u)
  moreover have "db_applied u = db_applied db" by (simp add: u)
  ultimately show ?thesis using delivered(1) by (simp add: good_step_def names_in_def)
qed

lemma invoice_step:
  assumes "apply_invoice e db = Ok u"
  shows "good_step e db u \<and> names_in ''order_id'' e (in_order ` set (db_invoices u))"
  using assms
proof (cases rule: apply_invoice_Inr)
  case (known order)
  then show ?thesis using good_step_refl by (simp add: names_in_def)
next
  case (created order header s due late)
  note u = created(10)
  have keys: "in_id (new_invoice i order c a d) = i" "in_order (new_invoice i order c a d) = order" "in_status (new_invoice i order c a d) = InvoiceIssued"
    for i c a d by (simp_all add: new_invoice_def)
  have "ops_wf u" if wf: "ops_wf db"
  proof -
    have "life_ok in_id in_status invoice_legal (db_invoices u) (db_invoice_history u)"
      unfolding u
      using life_create [OF ops_wf_parts(3) [OF wf], of "new_invoice (next_id in_id (db_invoices db)) order (or_currency header)
           (order_amount order db) (ev_business_date e)"] created(8) next_id_not_key [of in_id "db_invoices db"]
      by (simp add: keys invoice_legal_def)
    moreover have "ops_refs u"
      using ops_wf_parts(5-14) [OF wf] created(2,5,6) unfolding ops_refs_def by (auto simp: u keys)
    ultimately show ?thesis using ops_wf_parts(1,2,4) [OF wf] by (intro ops_wfI) (simp_all add: u)
  qed
  moreover have "ops_grows db u" unfolding ops_grows_def delivered_ids_def by (auto simp: u)
  moreover have "db_applied u = db_applied db" "order \<in> in_order ` set (db_invoices u)" by (simp_all add: u keys)
  ultimately show ?thesis using created(1) by (simp add: good_step_def names_in_def)
next
  case (invoiced order header s due late)
  note u = invoiced(11) [unfolded set_order_status_def]
  have keys: "in_id (new_invoice i order c a d) = i" "in_order (new_invoice i order c a d) = order" "in_status (new_invoice i order c a d) = InvoiceIssued"
    for i c a d by (simp_all add: new_invoice_def)
  have ids: "or_id ` set (db_orders u) = or_id ` set (db_orders db)" "or_customer ` set (db_orders u) = or_customer ` set (db_orders db)"
    unfolding u by (simp_all add: update_where_key)
  have "ops_wf u" if wf: "ops_wf db"
  proof -
    have "life_ok in_id in_status invoice_legal (db_invoices u) (db_invoice_history u)"
      unfolding u
      using life_create [OF ops_wf_parts(3) [OF wf], of "new_invoice (next_id in_id (db_invoices db)) order (or_currency header)
           (order_amount order db) (ev_business_date e)"] invoiced(8) next_id_not_key [of in_id "db_invoices db"]
      by (simp add: keys invoice_legal_def)
    moreover have "life_ok or_id or_status order_legal (db_orders u) (db_order_history u)"
      unfolding u
      using life_move [OF ops_wf_parts(1) [OF wf] invoiced(3)] invoiced(4,9,10) by (simp add: order_legal_def)
    moreover have "ops_refs u"
      using ops_wf_parts(5-14) [OF wf] invoiced(2,5,6) unfolding ops_refs_def ids by (auto simp: u keys)
    ultimately show ?thesis using ops_wf_parts(2,4) [OF wf] by (intro ops_wfI) (simp_all add: u)
  qed
  moreover have "ops_grows db u" unfolding ops_grows_def ids delivered_ids_def by (auto simp: u)
  moreover have "db_applied u = db_applied db" "order \<in> in_order ` set (db_invoices u)" by (simp_all add: u keys)
  ultimately show ?thesis using invoiced(1) by (simp add: good_step_def names_in_def)
qed

lemma support_case_step:
  assumes "apply_support_case e db = Ok u"
  shows "good_step e db u \<and> names_in ''case_id'' e (ca_id ` set (db_cases u))"
  using assms
proof (cases rule: apply_support_case_Inr)
  case (known i)
  then show ?thesis using good_step_refl by (simp add: names_in_def)
next
  case (opened i header priority due)
  note u = opened(5)
  have keys: "ca_id (new_case i c p t) = i" "ca_customer (new_case i c p t) = c" "ca_status (new_case i c p t) = CaseOpen" for c p t
    by (simp_all add: new_case_def)
  have "ops_wf u" if wf: "ops_wf db"
  proof -
    have "life_ok ca_id ca_status case_legal (db_cases u) (db_case_history u)"
      unfolding u
      using life_create [OF ops_wf_parts(4) [OF wf], of "new_case i (or_customer header) priority (at_hour (ev_business_date e) 9)"]
        opened(2,4) by (simp add: keys case_legal_def)
    moreover have "or_customer header \<in> cu_id ` set (db_customers db)" using ops_wf_parts(10) [OF wf] opened(3) by auto
    then have "ops_refs u" using ops_wf_parts(5-14) [OF wf] unfolding ops_refs_def by (auto simp: u keys)
    ultimately show ?thesis using ops_wf_parts(1-3) [OF wf] by (intro ops_wfI) (simp_all add: u)
  qed
  moreover have "ops_grows db u" unfolding ops_grows_def delivered_ids_def by (auto simp: u)
  moreover have "db_applied u = db_applied db" "i \<in> ca_id ` set (db_cases u)" by (simp_all add: u keys)
  ultimately show ?thesis using opened(1) by (simp add: good_step_def names_in_def)
qed

lemma case_move_step:
  assumes "apply_support_resolution e db = Ok u \<and> a = CaseOpen \<and> b = CaseResolved
    \<or> apply_support_closure e db = Ok u \<and> a = CaseResolved \<and> b = CaseClosed"
  shows "good_step e db u"
  using assms
proof (cases rule: case_step_Inr)
  case idle
  then show ?thesis using good_step_refl by blast
next
  case (moved i c f tm due sla)
  note u = moved(8)
  have ids: "ca_id ` set (db_cases u) = ca_id ` set (db_cases db)" "ca_customer ` set (db_cases u) = ca_customer ` set (db_cases db)"
    unfolding u using moved(5,7) by (simp_all add: update_where_key)
  have legal: "case_legal (Some a) b" using assms by (auto simp: case_legal_def)
  have "ops_wf u" if wf: "ops_wf db"
  proof -
    have "life_ok ca_id ca_status case_legal (db_cases u) (db_case_history u)"
      unfolding u
      using life_move [OF ops_wf_parts(4) [OF wf] moved(1), of _ b f] moved(2-6) legal by simp
    moreover have "ops_refs u" using ops_wf_parts(5-14) [OF wf] unfolding ops_refs_def ids by (simp add: u)
    ultimately show ?thesis using ops_wf_parts(1-3) [OF wf] by (intro ops_wfI) (simp_all add: u)
  qed
  moreover have "ops_grows db u" unfolding ops_grows_def ids delivered_ids_def by (simp add: u)
  moreover have "db_applied u = db_applied db" by (simp add: u)
  ultimately show ?thesis by (simp add: good_step_def)
qed

section \<open>Applying a batch\<close>

lemma apply_event_step:
  assumes "apply_event e db = Ok u"
  shows "good_step e db u \<and> (ops_wf db \<longrightarrow> realised e u)"
proof -
  note d = assms [unfolded apply_event_def]
  consider "ev_type e = ''order_created''" | "ev_type e = ''shipment_created''" | "ev_type e = ''shipment_delivered''"
    | "ev_type e = ''invoice_created''" | "ev_type e = ''support_case_opened''" | "ev_type e = ''support_case_resolved''"
    | "ev_type e = ''support_case_closed''"
    using d by (auto split: if_splits)
  then show ?thesis
  proof cases
    case 1
    then show ?thesis using order_step [of e db u] d by (simp add: realised_def)
  next
    case 2
    then show ?thesis using shipment_step [of e db u] d by (simp add: realised_def)
  next
    case 3
    then show ?thesis using delivery_step [of e db u] d by (simp add: realised_def)
  next
    case 4
    then show ?thesis using invoice_step [of e db u] d by (simp add: realised_def)
  next
    case 5
    then show ?thesis using support_case_step [of e db u] d by (simp add: realised_def)
  next
    case 6
    then show ?thesis using case_move_step [of e db u CaseOpen CaseResolved] d by (simp add: realised_def)
  next
    case 7
    then show ?thesis using case_move_step [of e db u CaseResolved CaseClosed] d by (simp add: realised_def)
  qed
qed

lemma mark_event_Inr:
  "mark_event e db = Ok u \<longleftrightarrow> ev_id e \<notin> ae_id ` set (db_applied db) \<and> u = db\<lparr>db_applied := db_applied db @ [marker_of e]\<rparr>"
  by (auto simp: mark_event_def rbind_eq_Inr marker_of_def)

lemma marked_wf: "ops_wf db \<Longrightarrow> ev_id e \<notin> ae_id ` set (db_applied db) \<Longrightarrow> ops_wf (db\<lparr>db_applied := db_applied db @ [marker_of e]\<rparr>)"
  by (simp add: ops_wf_def ops_lives_def ops_refs_def marker_of_def)

lemma apply_one_Inr:
  assumes "apply_one (k, db) e = Ok (n, u)"
  obtains (seen) "ev_system e = Ops" "ev_id e \<in> ae_id ` set (db_applied db)" "n = k" "u = db"
  | (fresh) v where "ev_system e = Ops" "ev_id e \<notin> ae_id ` set (db_applied db)" "apply_event e db = Ok v" "n = Suc k"
      "u = v\<lparr>db_applied := db_applied v @ [marker_of e]\<rparr>" "ev_id e \<notin> ae_id ` set (db_applied v)"
proof (cases "lookup_by ae_id (ev_id e) (db_applied db)")
  case None
  moreover have "ev_system e = Ops" using assms by (auto simp: apply_one_def split: if_splits)
  moreover obtain v where "apply_event e db = Ok v" "mark_event e v = Ok u" "n = Suc k"
    using assms None by (auto simp: apply_one_def rbind_eq_Inr split: if_splits)
  ultimately show thesis using fresh by (simp add: mark_event_Inr lookup_by_None)
next
  case (Some m)
  then have "ev_id e \<in> ae_id ` set (db_applied db)" using lookup_by_Some [OF Some] by (metis imageI)
  then show thesis using seen assms Some by (auto simp: apply_one_def split: if_splits)
qed

lemma apply_one_step:
  assumes "apply_one (k, db) e = Ok (n, u)"
  shows "(ops_wf db \<longrightarrow> ops_wf u) \<and> ops_grows db u \<and> ev_id e \<in> ae_id ` set (db_applied u) \<and> ev_system e = Ops
    \<and> ae_id ` set (db_applied u) = insert (ev_id e) (ae_id ` set (db_applied db))
    \<and> (ops_wf db \<and> ev_id e \<notin> ae_id ` set (db_applied db) \<longrightarrow> realised e u)"
  using assms
proof (cases rule: apply_one_Inr)
  case seen
  then show ?thesis by (simp add: ops_grows_refl insert_absorb)
next
  case (fresh v)
  note step = apply_event_step [OF fresh(3), unfolded good_step_def]
  have v: "db_applied v = db_applied db" using step by blast
  have wf: "ops_wf db \<longrightarrow> ops_wf u" using step marked_wf fresh(5,6) by blast
  have grow: "ops_grows v u" by (auto simp: ops_grows_def delivered_ids_def fresh(5))
  have "ops_wf db \<longrightarrow> realised e u" using step realised_grows [OF _ grow] by blast
  moreover have "ops_grows db u" using step ops_grows_trans [OF _ grow] by blast
  moreover have "ae_id ` set (db_applied u) = insert (ev_id e) (ae_id ` set (db_applied db))"
    by (simp add: fresh(5) v marker_of_def)
  ultimately show ?thesis using wf fresh(1) by blast
qed

lemma apply_all_steps:
  assumes "rfold apply_one (k, db) es = Ok (n, u)"
  shows "(ops_wf db \<longrightarrow> ops_wf u) \<and> ops_grows db u \<and> (\<forall>e \<in> set es. ev_system e = Ops)
    \<and> ae_id ` set (db_applied u) = ev_id ` set es \<union> ae_id ` set (db_applied db)
    \<and> (ops_wf db \<longrightarrow> (\<forall>e \<in> set es. ev_id e \<notin> ae_id ` set (db_applied db) \<longrightarrow> (\<exists>e' \<in> set es. ev_id e' = ev_id e \<and> realised e' u)))"
  using assms
proof (induction es arbitrary: k db)
  case Nil
  then show ?case by (simp add: ops_grows_refl)
next
  case (Cons e es)
  obtain m v where v: "apply_one (k, db) e = Ok (m, v)" "rfold apply_one (m, v) es = Ok (n, u)"
    using Cons.prems by (auto simp: rbind_eq_Inr)
  note one = apply_one_step [OF v(1)] and rest = Cons.IH [OF v(2)]
  have grow: "ops_grows v u" using rest by blast
  have "\<exists>e' \<in> set (e # es). ev_id e' = ev_id x \<and> realised e' u"
    if "ops_wf db" "x \<in> set (e # es)" "ev_id x \<notin> ae_id ` set (db_applied db)" for x
  proof (cases "ev_id x = ev_id e")
    case True
    then have "realised e v" using one that by simp
    then show ?thesis using realised_grows [OF _ grow] True by auto
  next
    case False
    then have "x \<in> set es" "ev_id x \<notin> ae_id ` set (db_applied v)" using that one by auto
    then show ?thesis using rest one that(1) by auto
  qed
  moreover have "ops_grows db u" using one grow ops_grows_trans by blast
  ultimately show ?case using one rest by auto
qed

lemma apply_all_again:
  assumes "\<forall>e \<in> set es. ev_system e = Ops \<and> ev_id e \<in> ae_id ` set (db_applied db)"
  shows "rfold apply_one (k, db) es = Ok (k, db)"
  using assms
proof (induction es)
  case (Cons e es)
  then have "lookup_by ae_id (ev_id e) (db_applied db) \<noteq> None" by (simp add: lookup_by_None)
  then show ?case using Cons by (simp add: apply_one_def)
qed simp

lemma apply_ops_facts:
  assumes "apply_ops es db = Ok (n, u)"
  shows "ops_wf db \<Longrightarrow> ops_wf u" "ops_grows db u" "\<forall>e \<in> set es. ev_system e = Ops"
    "ae_id ` set (db_applied u) = ev_id ` set es \<union> ae_id ` set (db_applied db)"
    "ops_wf db \<Longrightarrow> \<forall>e \<in> set es. ev_id e \<notin> ae_id ` set (db_applied db) \<longrightarrow> (\<exists>e' \<in> set es. ev_id e' = ev_id e \<and> realised e' u)"
  using apply_all_steps [OF assms [unfolded apply_ops_def]] by auto


definition wit_ops_event :: "string \<Rightarrow> string \<Rightarrow> payload \<Rightarrow> source_event" where
  "wit_ops_event i ty p = \<lparr>ev_id = i, ev_business_date = 739001, ev_system = Ops, ev_type = ty, ev_entity = ''1'',
     ev_payload = p, ev_available_on = 739001, ev_anomaly = None\<rparr>"

definition wit_ops_events :: "source_event list" where
  "wit_ops_events =
     [wit_ops_event ''c'' ''invoice_created'' [(''order_id'', ScInt 1), (''shipment_id'', ScInt 9)],
      wit_ops_event ''b'' ''shipment_created'' [(''shipment_id'', ScInt 9), (''order_id'', ScInt 1)],
      wit_ops_event ''a'' ''order_created'' [(''order_id'', ScInt 1), (''customer_id'', ScInt 5), (''opportunity_ref'', ScStr ''006'')],
      wit_ops_event ''d'' ''shipment_delivered'' [(''shipment_id'', ScInt 9)]]"

definition wit_ops_db :: ops_db where
  "wit_ops_db = \<lparr>db_customers = [], db_products = [\<lparr>pr_id = 3, pr_list_price = 1250, pr_standard_cost = 700\<rparr>],
     db_warehouses = [''W1''], db_carriers = [''C1''], db_orders = [], db_lines = [], db_shipments = [], db_invoices = [],
     db_cases = [], db_order_history = [], db_shipment_history = [], db_invoice_history = [], db_case_history = [],
     db_applied = []\<rparr>"

lemma wit_ops_wf: "ops_wf wit_ops_db"
  by (simp add: ops_wf_def ops_lives_def ops_refs_def life_ok_def wit_ops_db_def)

lemma wit_ops_applied: "\<exists>u. apply_ops wit_ops_events wit_ops_db = Ok (4, u)"
proof -
  have "case apply_ops wit_ops_events wit_ops_db of Err e \<Rightarrow> False | Ok (n, u) \<Rightarrow> n = 4" by code_simp
  then show ?thesis by (auto split: sum.splits)
qed


text \<open>C35:
  The applier is idempotent: once a batch has committed, applying it again, or any part of it in
  any order, succeeds, applies nothing and leaves the database as it is.
\<close>

theorem ops_apply_idempotent:
  assumes "apply_ops es db = Ok (n, u)" "set es' \<subseteq> set es"
  shows "apply_ops es' u = Ok (0, u)"
proof -
  have "\<forall>e \<in> set (sort_key apply_order_key es'). ev_system e = Ops \<and> ev_id e \<in> ae_id ` set (db_applied u)"
    using apply_ops_facts(3,4) [OF assms(1)] assms(2) by auto
  then show ?thesis unfolding apply_ops_def by (rule apply_all_again)
qed

theorem ops_apply_idempotent_witness:
  "\<exists>u. apply_ops wit_ops_events wit_ops_db = Ok (4, u) \<and> apply_ops (rev wit_ops_events) u = Ok (0, u)"
  using wit_ops_applied ops_apply_idempotent [of wit_ops_events wit_ops_db 4 _ "rev wit_ops_events"] by force

end
