(* ===== verification/Spec2Isabelle.thy ===== *)
theory Spec2Isabelle
  imports StateStoreProps SoqlProps CatalogProps EngineProps CompactionProps QueryServiceProps
    CursorArtifacts BulkQueryProps BulkResults IngestAccounting Config Runtime PyDate BulkApiProps
    Scheduler OpsApplyProps
begin

text \<open>
  A verification library of the northwind repository: the FakeForce service, an HTTP server that
  answers like a CRM vendor's REST and Bulk APIs over Parquet files, and the day-by-day simulator
  that feeds it.

  \<^bold>\<open>How the program is put together.\<close> A request passes the middleware of \<open>fakeforce/app.py\<close>
  (outage, rate limit, usage count, injected faults; then admission to one of two worker lanes),
  a token check and a handler. Query handlers parse SOQL (\<open>soql.py\<close>), plan it to one SQL
  statement (\<open>query_service.py\<close>) over views of base, compacted and delta Parquet files
  (\<open>engine.py\<close>, \<open>catalog.py\<close>, \<open>compaction.py\<close>), run it under a deadline (\<open>deadline.py\<close>), and
  page the result with a cursor row in the state store (\<open>state.py\<close>) and an index file of record
  ids (\<open>cursor_artifacts.py\<close>). Bulk handlers create job rows, receive uploads and submit job ids
  to two executors (\<open>bulk/dispatcher.py\<close>), whose workers (\<open>bulk/query.py\<close>, \<open>bulk/ingest.py\<close>)
  write parts or database rows batch by batch with a checkpoint for each, so that a restarted
  process resumes them.

  \<^bold>\<open>Theories and sources.\<close>
  \<^item> \<open>Prelude\<close>, \<open>PyStr\<close>, \<open>PyDate\<close>, \<open>PyDateTime\<close>, \<open>Json\<close>, \<open>Csv\<close>: results and effects as sums and state
    functions, and the parts of Python's \<open>str\<close>, \<open>datetime\<close>, \<open>json\<close> and \<open>csv\<close> the program uses.
  \<^item> \<open>Jobs\<close> (\<open>bulk/jobs.py\<close>): the job state machine, as a table and as the step relation \<open>job_step\<close>.
  \<^item> \<open>StateStore\<close>, \<open>StateStoreProps\<close> (\<open>state.py\<close>): each table is a list of rows in insertion order,
    each method one operation on the record \<open>store\<close>; the invariant \<open>store_wf\<close>, runs of operations.
  \<^item> \<open>Soql\<close>, \<open>SoqlProps\<close> (\<open>soql.py\<close>): tokens, the recursive descent parser, the printer used as
    its reference.
  \<^item> \<open>Catalog\<close>, \<open>CatalogLoad\<close>, \<open>CatalogProps\<close> (\<open>catalog.py\<close>): dataset specifications, source
    resolution, loading and validation of the configuration, fingerprints.
  \<^item> \<open>Sql\<close>, \<open>Engine\<close>, \<open>EngineProps\<close> (\<open>engine.py\<close>), \<open>Compaction\<close>, \<open>CompactionProps\<close>
    (\<open>compaction.py\<close>), \<open>Storage\<close> (\<open>storage.py\<close>): SQL texts and the rows they denote, versioned views,
    the fold of delta partitions, atomic writes as sequences of file operations.
  \<^item> \<open>QueryService\<close>, \<open>QueryServiceProps\<close> (\<open>query_service.py\<close>), \<open>CursorArtifacts\<close>
    (\<open>cursor_artifacts.py\<close>, \<open>recovery.py\<close>): plans, pages, locators and their index files.
  \<^item> \<open>Runtime\<close> (\<open>runtime.py\<close>, \<open>deadline.py\<close>), \<open>Config\<close> (\<open>config.py\<close> of both packages).
  \<^item> \<open>Batches\<close>, \<open>BulkQuery\<close>, \<open>BulkQueryProps\<close>, \<open>BulkResults\<close>, \<open>BulkIngest\<close>, \<open>BulkIngestProps\<close>,
    \<open>IngestAccounting\<close>, \<open>JobControl\<close> (\<open>bulk/\<close>): the two workers with their faults as arguments.
  \<^item> \<open>Http\<close>, \<open>Chaos\<close>, \<open>App\<close>, \<open>AppProps\<close>, \<open>BulkApi\<close>, \<open>BulkApiProps\<close> (\<open>app.py\<close>,
    \<open>bulk/dispatcher.py\<close>, \<open>diagnostics.py\<close>): the handlers as effects on the record \<open>app_world\<close> of
    all state they share, and sessions of several requests.

  \<^bold>\<open>Interfaces.\<close> \<open>atomic_publisher\<close> (Storage) is what a reader may rely on while a file is
  written, interpreted on the atomic writer and the temporary file; \<open>memo\<close> (CatalogProps) is a cache
  whose key determines its value, interpreted on the snapshot identifier; \<open>resumable\<close> (Batches) is
  a sequence of idempotent steps with a durable prefix, interpreted on the bulk query worker: a run
  cut anywhere and run again ends as an undisturbed one.

  \<^bold>\<open>What is shown.\<close> Invariants over every run of operations (state store, admission, views);
  crash safety (writer, compaction, both bulk workers); equivalences (views and their ranking,
  locator replay, memoized fingerprints, interrupted and undisturbed runs); completeness of paging
  for queries, index files and bulk results; the well-formedness of planned SQL for every query
  text; round trips of the parser; whole sessions over the API; and the error behaviour of each
  operation, including where it surprises.

  \<^bold>\<open>Bounds and fuel.\<close> The parser's repetition carries the number of remaining tokens as fuel, and
  \<open>p_items_exhausts\<close> shows it suffices. Following locators takes as fuel a number of requests at
  least the number of rows, which suffices because every page holds a row. Python integers are
  unbounded \<open>int\<close>s; clock readings are microseconds; floating point values are exact rationals.

  \<^bold>\<open>Not modelled.\<close> Text outside ASCII; IEEE rounding; Python's limits on integer digits and the csv
  field size; dates before year 1 or after 9999; ISO week and basic date forms in clock texts;
  fractional page sizes. The execution of SQL by the database engine, Parquet reading, digests,
  random draws and generated ids are parameters. The HTML index, the health and memory pages, the
  benchmark, the performance probe and command lines only read the operating system or call the
  modelled code. The data generator draws from numpy streams.
\<close>

end
